(* ===== verification/Prelude.thy ===== *)
theory Prelude
  imports Complex_Main
begin

text \<open>
  Shared vocabulary of the development: the exceptions the Python code raises, results that
  may be an exception, the threading of a mutable state through code that may raise (the
  state survives the exception, as attribute writes do), decimal rendering of integers, and
  the generic contract of a component that is only ever changed through its operations.
\<close>

named_theorems wf_intros \<open>well-formedness is kept by an operation\<close>
named_theorems res_simps \<open>unfolding of results and effects\<close>

section \<open>Exceptions and results\<close>

text \<open>
  One constructor per exception class that the modelled code raises or catches. The string
  is the message where the code builds one that the model needs; the three flags of
  \<open>TurnExchangeError\<close> are its \<open>progress\<close> attribute.
\<close>

datatype py_exc =
    IllegalActionError
  | IllegalTransitionError string
  | SealExchangeError string
  | TurnExchangeError string bool bool bool
  | PeerUnavailableError string
  | ConfigError string
  | PrivateOverrideError string
  | SchemaValidationError string
  | InboxFullError
  | OverloadedError string
  | KeyError string
  | ValueError string
  | TypeError
  | IndexError
  | AttributeError
  | ZeroDivisionError
  | McpError
  | OverflowError
  | CancelledError
  | StrategyLoadError string
  | FileNotFoundError
  | ReportRefusedError
  | RecipientMismatchError

type_synonym 'a res = "py_exc + 'a"

fun rbind :: "'a res \<Rightarrow> ('a \<Rightarrow> 'b res) \<Rightarrow> 'b res" where
  "rbind (Inl e) f = Inl e"
| "rbind (Inr x) f = f x"

definition rguard :: "bool \<Rightarrow> py_exc \<Rightarrow> unit res" where
  "rguard b e = (if b then Inr () else Inl e)"

lemma rbind_Inr_iff [res_simps]:
  "rbind m f = Inr y \<longleftrightarrow> (\<exists>x. m = Inr x \<and> f x = Inr y)"
  by (cases m) auto

lemma rguard_Inr_iff [simp]: "rguard b e = Inr u \<longleftrightarrow> b"
  by (simp add: rguard_def)

lemma rguard_simps [simp]: "rguard True e = Inr ()" "rguard False e = Inl e"
  by (simp_all add: rguard_def)

text \<open>\<open>traverse f xs\<close>: a list comprehension whose body may raise.\<close>

fun traverse :: "('a \<Rightarrow> 'b res) \<Rightarrow> 'a list \<Rightarrow> 'b list res" where
  "traverse f [] = Inr []"
| "traverse f (x # xs) =
     rbind (f x) (\<lambda>y. rbind (traverse f xs) (\<lambda>ys. Inr (y # ys)))"

lemma traverse_Inr_length: "traverse f xs = Inr ys \<Longrightarrow> length ys = length xs"
  by (induction xs arbitrary: ys) (auto simp: res_simps)

lemma traverse_Inr_total:
  "(\<And>x. x \<in> set xs \<Longrightarrow> f x = Inr (g x)) \<Longrightarrow> traverse f xs = Inr (map g xs)"
  by (induction xs) auto

section \<open>State threading\<close>

text \<open>
  An effectful call takes the state and returns the new state together with a value or an
  exception. An exception keeps the writes made before it.
\<close>

type_synonym ('s, 'a) eff = "'s \<Rightarrow> 's \<times> 'a res"

definition eret :: "'a \<Rightarrow> ('s, 'a) eff" where
  "eret x s = (s, Inr x)"

definition eraise :: "py_exc \<Rightarrow> ('s, 'a) eff" where
  "eraise e s = (s, Inl e)"

definition ebind :: "('s, 'a) eff \<Rightarrow> ('a \<Rightarrow> ('s, 'b) eff) \<Rightarrow> ('s, 'b) eff" where
  "ebind m k s = (case m s of (s', Inl e) \<Rightarrow> (s', Inl e) | (s', Inr x) \<Rightarrow> k x s')"

definition egets :: "('s \<Rightarrow> 'a) \<Rightarrow> ('s, 'a) eff" where
  "egets f s = (s, Inr (f s))"

definition emodify :: "('s \<Rightarrow> 's) \<Rightarrow> ('s, unit) eff" where
  "emodify f s = (f s, Inr ())"

definition elift :: "'a res \<Rightarrow> ('s, 'a) eff" where
  "elift r s = (s, r)"

lemmas eff_defs = eret_def eraise_def ebind_def egets_def emodify_def elift_def

section \<open>Rendering of integers\<close>

fun str_of_nat :: "nat \<Rightarrow> string" where
  "str_of_nat n =
     (if n < 10 then [char_of (48 + n)]
      else str_of_nat (n div 10) @ [char_of (48 + n mod 10)])"

declare str_of_nat.simps [simp del]

definition str_of_int :: "int \<Rightarrow> string" where
  "str_of_int i =
     (if i < 0 then CHR ''-'' # str_of_nat (nat (- i)) else str_of_nat (nat i))"

section \<open>Lists\<close>

text \<open>
  \<^verbatim>\<open>xs[i]\<close>: a negative index counts from the end. \<^verbatim>\<open>xs[:k]\<close>: a negative bound drops from the
  end. \<^verbatim>\<open>range(lo, hi)\<close> is \<open>[lo..hi - 1]\<close>.
\<close>

definition py_nth :: "'a list \<Rightarrow> int \<Rightarrow> 'a res" where
  "py_nth xs i =
     (let j = (if i < 0 then int (length xs) + i else i)
      in if 0 \<le> j \<and> j < int (length xs) then Inr (xs ! nat j) else Inl IndexError)"

definition py_take :: "int \<Rightarrow> 'a list \<Rightarrow> 'a list" where
  "py_take k xs = (if k < 0 then take (nat (int (length xs) + k)) xs else take (nat k) xs)"

lemma py_nth_in_range [simp]:
  "0 \<le> i \<Longrightarrow> i < int (length xs) \<Longrightarrow> py_nth xs i = Inr (xs ! nat i)"
  by (simp add: py_nth_def)

lemma py_nth_nat [simp]: "i < length xs \<Longrightarrow> py_nth xs (int i) = Inr (xs ! i)"
  by (simp add: py_nth_def)

text \<open>Square grids: a list of \<open>n\<close> rows of \<open>n\<close> cells.\<close>

definition square :: "nat \<Rightarrow> 'a list list \<Rightarrow> bool" where
  "square n g \<longleftrightarrow> length g = n \<and> (\<forall>i < n. length (g ! i) = n)"

definition const_grid :: "nat \<Rightarrow> 'a \<Rightarrow> 'a list list" where
  "const_grid n x = replicate n (replicate n x)"

definition tab :: "nat \<Rightarrow> (nat \<Rightarrow> nat \<Rightarrow> 'a) \<Rightarrow> 'a list list" where
  "tab n f = map (\<lambda>r. map (f r) [0..<n]) [0..<n]"

definition grid_set :: "'a list list \<Rightarrow> nat \<Rightarrow> nat \<Rightarrow> 'a \<Rightarrow> 'a list list" where
  "grid_set g r c x = g[r := (g ! r)[c := x]]"

lemma square_const_grid [simp]: "square n (const_grid n x)"
  by (simp add: square_def const_grid_def)

lemma const_grid_nth [simp]: "r < n \<Longrightarrow> c < n \<Longrightarrow> const_grid n x ! r ! c = x"
  by (simp add: const_grid_def)

lemma square_tab [simp]: "square n (tab n f)"
  by (simp add: square_def tab_def)

lemma tab_nth [simp]: "r < n \<Longrightarrow> c < n \<Longrightarrow> tab n f ! r ! c = f r c"
  by (simp add: tab_def)

lemma square_grid_set [simp]: "square n g \<Longrightarrow> square n (grid_set g r c x)"
  unfolding square_def grid_set_def
  by (cases "r < n") (auto simp: nth_list_update)

lemma grid_set_nth:
  assumes "square n g" and "i < n" and "j < n"
  shows "grid_set g r c x ! i ! j = (if i = r \<and> j = c then x else g ! i ! j)"
proof (cases "i = r")
  case True
  with assms show ?thesis by (auto simp: square_def grid_set_def nth_list_update)
next
  case False
  then show ?thesis by (simp add: grid_set_def)
qed

lemma square_eqI:
  assumes "square n g" and "square n h"
    and "\<And>r c. r < n \<Longrightarrow> c < n \<Longrightarrow> g ! r ! c = h ! r ! c"
  shows "g = h"
  using assms by (auto simp: square_def intro!: nth_equalityI)

lemma square_mem:
  assumes "square n g" and "xs \<in> set g"
  obtains r where "r < n" and "xs = g ! r" and "length xs = n"
  using assms by (auto simp: square_def in_set_conv_nth)

lemma square_cell_mem:
  assumes "square n g" and "xs \<in> set g" and "x \<in> set xs"
  obtains r c where "r < n" and "c < n" and "x = g ! r ! c"
  using assms by (metis in_set_conv_nth square_mem)

text \<open>
  A comprehension over \<^verbatim>\<open>enumerate(row)\<close> inside one over \<^verbatim>\<open>enumerate(grid)\<close>, with a body that may
  raise and with one that cannot.
\<close>

definition grid_traverse :: "(nat \<Rightarrow> nat \<Rightarrow> 'a \<Rightarrow> 'b res) \<Rightarrow> 'a list list \<Rightarrow> 'b list list res" where
  "grid_traverse f g =
     traverse (\<lambda>(r, xs). traverse (\<lambda>(c, x). f r c x) (List.enumerate 0 xs)) (List.enumerate 0 g)"

definition grid_imap :: "(nat \<Rightarrow> nat \<Rightarrow> 'a \<Rightarrow> 'b) \<Rightarrow> 'a list list \<Rightarrow> 'b list list" where
  "grid_imap f g =
     map (\<lambda>(r, xs). map (\<lambda>(c, x). f r c x) (List.enumerate 0 xs)) (List.enumerate 0 g)"

lemma square_grid_imap [simp]: "square n (grid_imap f g) \<longleftrightarrow> square n g"
  by (auto simp: square_def grid_imap_def nth_enumerate_eq)

lemma grid_imap_nth [simp]:
  "square n g \<Longrightarrow> r < n \<Longrightarrow> c < n \<Longrightarrow> grid_imap f g ! r ! c = f r c (g ! r ! c)"
  by (simp add: square_def grid_imap_def nth_enumerate_eq)

lemma grid_traverse_total:
  assumes "square n g"
    and "\<And>r c. r < n \<Longrightarrow> c < n \<Longrightarrow> f r c (g ! r ! c) = Inr (h r c (g ! r ! c))"
  shows "grid_traverse f g = Inr (grid_imap h g)"
proof -
  have row: "traverse (\<lambda>(c, x). f r c x) (List.enumerate 0 xs) =
      Inr (map (\<lambda>(c, x). h r c x) (List.enumerate 0 xs))" if "(r, xs) \<in> set (List.enumerate 0 g)" for r xs
    using that assms
    by (intro traverse_Inr_total) (auto simp: square_def in_set_enumerate_eq)
  have "traverse (\<lambda>(r, xs). traverse (\<lambda>(c, x). f r c x) (List.enumerate 0 xs)) (List.enumerate 0 g) =
      Inr (map (\<lambda>(r, xs). map (\<lambda>(c, x). h r c x) (List.enumerate 0 xs)) (List.enumerate 0 g))"
    using row by (intro traverse_Inr_total) auto
  then show ?thesis by (simp add: grid_traverse_def grid_imap_def)
qed

text \<open>Sums over a grid: \<^verbatim>\<open>sum(sum(row) for row in grid)\<close>.\<close>

definition grid_sum :: "real list list \<Rightarrow> real" where
  "grid_sum g = sum_list (map sum_list g)"

lemma grid_sum_square:
  "square n g \<Longrightarrow> grid_sum g = (\<Sum>r < n. \<Sum>c < n. g ! r ! c)"
  unfolding grid_sum_def square_def
  by (simp add: sum_list_sum_nth atLeast0LessThan)

lemma grid_sum_grid_set:
  assumes "square n g" and "r < n" and "c < n"
  shows "grid_sum (grid_set g r c x) = grid_sum g + x - g ! r ! c"
proof -
  have row: "(\<Sum>j < n. grid_set g r c x ! i ! j) =
      (\<Sum>j < n. g ! i ! j) + (if i = r then x - g ! r ! c else 0)" if "i < n" for i
  proof -
    have "(\<Sum>j < n. grid_set g r c x ! i ! j) =
        (\<Sum>j < n. g ! i ! j + (if j = c then (if i = r then x - g ! r ! c else 0) else 0))"
      using that assms(1) by (intro sum.cong) (auto simp: grid_set_nth)
    then show ?thesis using assms(3) by (simp add: sum.distrib)
  qed
  have "grid_sum (grid_set g r c x) =
      (\<Sum>i < n. (\<Sum>j < n. g ! i ! j) + (if i = r then x - g ! r ! c else 0))"
    by (simp add: grid_sum_square [OF square_grid_set [OF assms(1)]] row)
  then show ?thesis
    using assms(2) by (simp add: grid_sum_square [OF assms(1)] sum.distrib)
qed

text \<open>A loop over a list whose body may raise.\<close>

fun rfold :: "('s \<Rightarrow> 'a \<Rightarrow> 's res) \<Rightarrow> 's \<Rightarrow> 'a list \<Rightarrow> 's res" where
  "rfold f s [] = Inr s"
| "rfold f s (x # xs) = rbind (f s x) (\<lambda>s'. rfold f s' xs)"

text \<open>
  The loop rule: an invariant that every iteration keeps, and a quantity to which every
  iteration adds the weight of its element.
\<close>

lemma rfold_sum:
  fixes mass :: "'s \<Rightarrow> real"
  assumes "I s"
    and "\<And>s x. I s \<Longrightarrow> x \<in> set xs \<Longrightarrow> \<exists>s'. f s x = Inr s' \<and> I s' \<and> mass s' = mass s + w x"
  shows "\<exists>s'. rfold f s xs = Inr s' \<and> I s' \<and> mass s' = mass s + sum_list (map w xs)"
  using assms
proof (induction xs arbitrary: s)
  case Nil
  then show ?case by simp
next
  case (Cons x xs)
  from Cons.prems(2) [OF Cons.prems(1), of x]
  obtain s1 where s1: "f s x = Inr s1" "I s1" "mass s1 = mass s + w x" by auto
  from Cons.IH [OF s1(2)] Cons.prems(2)
  obtain s2 where "rfold f s1 xs = Inr s2" "I s2" "mass s2 = mass s1 + sum_list (map w xs)"
    by (metis list.set_intros(2))
  with s1 show ?case by simp
qed

section \<open>Components and their invariants\<close>

text \<open>
  The contract most objects of the program share: the object changes only through its
  operations, each operation keeps an invariant, so every history of calls keeps it. It is
  proved once here and interpreted on each object's own operation.
\<close>

locale component =
  fixes step :: "'s \<Rightarrow> 'op \<Rightarrow> 's"
    and inv :: "'s \<Rightarrow> bool"
  assumes step_inv: "inv s \<Longrightarrow> inv (step s x)"
begin

lemma run_inv: "inv s \<Longrightarrow> inv (foldl step s xs)"
  by (induction xs arbitrary: s) (auto intro: step_inv)

end

text \<open>
  A component with an append-only record: whatever was logged stays, in order.
\<close>

locale logging_component = component step inv
  for step :: "'s \<Rightarrow> 'op \<Rightarrow> 's" and inv :: "'s \<Rightarrow> bool" +
  fixes log :: "'s \<Rightarrow> 'l list"
  assumes step_log: "inv s \<Longrightarrow> \<exists>new. log (step s x) = log s @ new"
begin

lemma run_log: "inv s \<Longrightarrow> \<exists>new. log (foldl step s xs) = log s @ new"
proof (induction xs arbitrary: s)
  case Nil
  then show ?case by simp
next
  case (Cons x xs)
  from step_log [OF Cons.prems] obtain n1 where "log (step s x) = log s @ n1" by blast
  moreover from Cons.IH [OF step_inv [OF Cons.prems]]
  obtain n2 where "log (foldl step (step s x) xs) = log (step s x) @ n2" by blast
  ultimately show ?case by simp
qed

end

end
