(* ===== verification/Geometry.thy ===== *)
theory Geometry
  imports Prelude
begin

text \<open>
  The rules of the board game, from \<^verbatim>\<open>domain/positions.py\<close>, \<^verbatim>\<open>domain/roles.py\<close>,
  \<^verbatim>\<open>domain/actions.py\<close>, \<^verbatim>\<open>domain/board.py\<close>, \<^verbatim>\<open>domain/rules.py\<close> and
  \<^verbatim>\<open>domain/captures.py\<close>: cells, directions, barriers, legal moves, barrier placement and
  the two capture conditions.
\<close>

section \<open>Positions and directions\<close>

record position =
  row :: int
  col :: int

definition Pos :: "int \<Rightarrow> int \<Rightarrow> position" where
  "Pos r c = \<lparr>row = r, col = c\<rparr>"

lemma Pos_sel [simp]: "row (Pos r c) = r" "col (Pos r c) = c"
  by (simp_all add: Pos_def)

lemma Pos_eq [simp]: "Pos r c = Pos r' c' \<longleftrightarrow> r = r' \<and> c = c'"
  by (simp add: Pos_def)

lemma Pos_row_col [simp]: "Pos (row p) (col p) = p"
  by (simp add: Pos_def)

lemma position_eqI: "row p = row q \<Longrightarrow> col p = col q \<Longrightarrow> (p :: position) = q"
  by (rule position.equality) simp_all

definition is_within :: "position \<Rightarrow> int \<Rightarrow> bool" where
  "is_within p grid_size \<longleftrightarrow>
     0 \<le> row p \<and> row p < grid_size \<and> 0 \<le> col p \<and> col p < grid_size"

definition translated :: "position \<Rightarrow> int \<Rightarrow> int \<Rightarrow> position" where
  "translated p d_row d_col = Pos (row p + d_row) (col p + d_col)"

datatype direction = N | S | E | W | STAY

fun delta :: "direction \<Rightarrow> int \<times> int" where
  "delta N = (-1, 0)"
| "delta S = (1, 0)"
| "delta E = (0, 1)"
| "delta W = (0, -1)"
| "delta STAY = (0, 0)"

fun direction_value :: "direction \<Rightarrow> string" where
  "direction_value N = ''N''"
| "direction_value S = ''S''"
| "direction_value E = ''E''"
| "direction_value W = ''W''"
| "direction_value STAY = ''STAY''"

definition apply_direction :: "position \<Rightarrow> direction \<Rightarrow> position" where
  "apply_direction p d = (case delta d of (d_row, d_col) \<Rightarrow> translated p d_row d_col)"

lemma apply_direction_simps [simp]:
  "apply_direction p N = Pos (row p - 1) (col p)"
  "apply_direction p S = Pos (row p + 1) (col p)"
  "apply_direction p E = Pos (row p) (col p + 1)"
  "apply_direction p W = Pos (row p) (col p - 1)"
  "apply_direction p STAY = p"
  by (simp_all add: apply_direction_def translated_def)

section \<open>Roles and actions\<close>

datatype role = POLICE | THIEF

fun opponent :: "role \<Rightarrow> role" where
  "opponent POLICE = THIEF"
| "opponent THIEF = POLICE"

fun role_value :: "role \<Rightarrow> string" where
  "role_value POLICE = ''police''"
| "role_value THIEF = ''thief''"

lemma opponent_opponent [simp]: "opponent (opponent r) = r"
  by (cases r) simp_all

datatype action = MoveAction direction | StayAction | BarrierAction position

section \<open>The board\<close>

record board =
  board_size :: int
  barriers :: "position set"

definition is_in_bounds :: "board \<Rightarrow> position \<Rightarrow> bool" where
  "is_in_bounds b p = is_within p (board_size b)"

definition is_barrier :: "board \<Rightarrow> position \<Rightarrow> bool" where
  "is_barrier b p \<longleftrightarrow> p \<in> barriers b"

definition with_barrier :: "board \<Rightarrow> position \<Rightarrow> board" where
  "with_barrier b cell = \<lparr>board_size = board_size b, barriers = barriers b \<union> {cell}\<rparr>"

definition ORTHOGONAL_DIRECTIONS :: "direction list" where
  "ORTHOGONAL_DIRECTIONS = [N, S, E, W]"

definition adjacent_cells :: "board \<Rightarrow> position \<Rightarrow> position list" where
  "adjacent_cells b p =
     filter (is_in_bounds b) (map (apply_direction p) ORTHOGONAL_DIRECTIONS)"

lemma with_barrier_simps [simp]:
  "board_size (with_barrier b c) = board_size b"
  "barriers (with_barrier b c) = insert c (barriers b)"
  "is_in_bounds (with_barrier b c) p = is_in_bounds b p"
  "is_barrier (with_barrier b c) p \<longleftrightarrow> p = c \<or> is_barrier b p"
  by (auto simp: with_barrier_def is_in_bounds_def is_barrier_def)

lemma set_adjacent_cells:
  "q \<in> set (adjacent_cells b p) \<longleftrightarrow>
     is_in_bounds b q \<and> \<bar>row q - row p\<bar> + \<bar>col q - col p\<bar> = 1"
  (is "?l \<longleftrightarrow> ?r")
proof
  assume ?l
  then have "is_in_bounds b q" and "q \<in> apply_direction p ` set ORTHOGONAL_DIRECTIONS"
    unfolding adjacent_cells_def by auto
  then show ?r by (auto simp: ORTHOGONAL_DIRECTIONS_def)
next
  assume r: ?r
  then have "(row q = row p - 1 \<and> col q = col p) \<or> (row q = row p + 1 \<and> col q = col p)
      \<or> (row q = row p \<and> col q = col p + 1) \<or> (row q = row p \<and> col q = col p - 1)"
    by linarith
  then have "q \<in> {Pos (row p - 1) (col p), Pos (row p + 1) (col p),
      Pos (row p) (col p + 1), Pos (row p) (col p - 1)}"
    by (auto intro: position_eqI)
  then have "q \<in> apply_direction p ` set ORTHOGONAL_DIRECTIONS"
    by (auto simp: ORTHOGONAL_DIRECTIONS_def)
  with r show ?l unfolding adjacent_cells_def by simp
qed

lemma distinct_adjacent_cells: "distinct (adjacent_cells b p)"
  by (auto simp: adjacent_cells_def ORTHOGONAL_DIRECTIONS_def)

lemma self_not_adjacent: "p \<notin> set (adjacent_cells b p)"
  by (simp add: set_adjacent_cells)

section \<open>Movement, barrier and capture rules\<close>

definition legal_move_directions :: "position \<Rightarrow> board \<Rightarrow> direction list" where
  "legal_move_directions p b =
     STAY # filter (\<lambda>d. is_in_bounds b (apply_direction p d) \<and>
                        \<not> is_barrier b (apply_direction p d)) [N, S, E, W]"

definition apply_move :: "position \<Rightarrow> direction \<Rightarrow> board \<Rightarrow> position res" where
  "apply_move p d b =
     (if d \<notin> set (legal_move_directions p b) then Inl IllegalActionError
      else Inr (apply_direction p d))"

definition is_legal_barrier_cell :: "position \<Rightarrow> position \<Rightarrow> board \<Rightarrow> bool" where
  "is_legal_barrier_cell actor cell b =
     (if \<not> is_in_bounds b cell then False
      else if is_barrier b cell then False
      else cell = actor \<or> cell \<in> set (adjacent_cells b actor))"

definition place_barrier ::
    "role \<Rightarrow> position \<Rightarrow> position \<Rightarrow> board \<Rightarrow> int \<Rightarrow> int \<Rightarrow> board res" where
  "place_barrier r actor cell b placed_count max_barriers =
     (if r \<noteq> POLICE then Inl IllegalActionError
      else if placed_count \<ge> max_barriers then Inl IllegalActionError
      else if \<not> is_legal_barrier_cell actor cell b then Inl IllegalActionError
      else Inr (with_barrier b cell))"

definition is_ordinary_capture :: "position \<Rightarrow> position \<Rightarrow> bool" where
  "is_ordinary_capture thief police \<longleftrightarrow> thief = police"

definition is_barrier_on_thief_capture :: "position \<Rightarrow> position \<Rightarrow> bool" where
  "is_barrier_on_thief_capture barrier_cell thief \<longleftrightarrow> barrier_cell = thief"

section \<open>Capture claims and outcomes\<close>

record capture_claim =
  cc_step :: int
  cc_claimed_position :: position

record capture_response =
  claimed_position :: position
  caught :: bool

datatype sub_game_result = CAPTURE | SURVIVAL | TECHNICAL_LOSS

fun result_value :: "sub_game_result \<Rightarrow> string" where
  "result_value CAPTURE = ''capture''"
| "result_value SURVIVAL = ''survival''"
| "result_value TECHNICAL_LOSS = ''technical_loss''"

lemma result_value_inject [simp]: "result_value a = result_value b \<longleftrightarrow> a = b"
  by (cases a; cases b) simp_all

section \<open>Properties\<close>

lemma STAY_legal [simp]: "STAY \<in> set (legal_move_directions p b)"
  by (simp add: legal_move_directions_def)

lemma legal_move_directions_nonempty [simp]: "legal_move_directions p b \<noteq> []"
  by (simp add: legal_move_directions_def)

lemma set_legal_move_directions:
  "d \<in> set (legal_move_directions p b) \<longleftrightarrow>
     d = STAY \<or> is_in_bounds b (apply_direction p d) \<and> \<not> is_barrier b (apply_direction p d)"
  by (cases d) (auto simp: legal_move_directions_def)

lemma apply_move_Inr_iff:
  "apply_move p d b = Inr q \<longleftrightarrow>
     d \<in> set (legal_move_directions p b) \<and> q = apply_direction p d"
  by (auto simp: apply_move_def)

lemma apply_move_Inl_iff:
  "apply_move p d b = Inl e \<longleftrightarrow>
     d \<notin> set (legal_move_directions p b) \<and> e = IllegalActionError"
  by (auto simp: apply_move_def)



text \<open>
  \<open>place_barrier\<close> succeeds exactly for the police, below the quota, on a free in-bounds
  cell at orthogonal distance at most one; then it adds that one cell and nothing else.
\<close>

lemma place_barrier_iff:
  "place_barrier r actor cell b n m = Inr b' \<longleftrightarrow>
     r = POLICE \<and> n < m \<and> is_in_bounds b cell \<and> \<not> is_barrier b cell \<and>
     \<bar>row cell - row actor\<bar> + \<bar>col cell - col actor\<bar> \<le> 1 \<and> b' = with_barrier b cell"
proof -
  have "(\<bar>row cell - row actor\<bar> + \<bar>col cell - col actor\<bar> \<le> 1) \<longleftrightarrow>
      cell = actor \<or> \<bar>row cell - row actor\<bar> + \<bar>col cell - col actor\<bar> = 1"
    by (auto intro!: position_eqI)
  then show ?thesis
    by (auto simp: place_barrier_def is_legal_barrier_cell_def set_adjacent_cells)
qed

end
