(* ===== verification/PyJson.thy ===== *)
theory PyJson
  imports Prelude
begin

text \<open>
  Dynamically typed values as they come off the wire or out of a JSON file: the values
  \<^verbatim>\<open>json.loads\<close> produces and the operations the code applies to them (\<^verbatim>\<open>.get\<close>, indexing,
  truthiness, \<^verbatim>\<open>==\<close>, numeric comparison, hashing). A finite float is an exact real, so
  rounding is not modelled; the three non-finite values are kept. A dict is its list of
  members in insertion order.
\<close>

datatype pyfloat = Fin real | PosInf | NegInf | NaN

datatype json =
    JNull
  | JBool bool
  | JInt int
  | JFloat pyfloat
  | JStr string
  | JList "json list"
  | JObj "(string \<times> json) list"

type_synonym jobj = "(string \<times> json) list"

section \<open>Member access\<close>

definition jget :: "jobj \<Rightarrow> string \<Rightarrow> json \<Rightarrow> json" where
  "jget d k dflt = (case map_of d k of None \<Rightarrow> dflt | Some v \<Rightarrow> v)"

definition jhas :: "jobj \<Rightarrow> string \<Rightarrow> bool" where
  "jhas d k \<longleftrightarrow> map_of d k \<noteq> None"

definition jindex :: "jobj \<Rightarrow> string \<Rightarrow> json res" where
  "jindex d k = (case map_of d k of None \<Rightarrow> Inl (KeyError k) | Some v \<Rightarrow> Inr v)"

fun as_obj :: "json \<Rightarrow> jobj option" where
  "as_obj (JObj d) = Some d"
| "as_obj _ = None"

text \<open>An attribute call such as \<^verbatim>\<open>x.get(...)\<close> on a value that is not a dict.\<close>

fun obj_or_raise :: "json \<Rightarrow> jobj res" where
  "obj_or_raise (JObj d) = Inr d"
| "obj_or_raise _ = Inl AttributeError"

fun is_null :: "json \<Rightarrow> bool" where
  "is_null JNull = True"
| "is_null _ = False"

fun truthy :: "json \<Rightarrow> bool" where
  "truthy JNull = False"
| "truthy (JBool b) = b"
| "truthy (JInt i) = (i \<noteq> 0)"
| "truthy (JFloat f) = (f \<noteq> Fin 0)"
| "truthy (JStr s) = (s \<noteq> [])"
| "truthy (JList xs) = (xs \<noteq> [])"
| "truthy (JObj d) = (d \<noteq> [])"

fun hashable :: "json \<Rightarrow> bool" where
  "hashable (JList _) = False"
| "hashable (JObj _) = False"
| "hashable _ = True"

lemma jget_simps [simp]:
  "jget [] k d = d"
  "jget ((k', v) # kvs) k d = (if k' = k then v else jget kvs k d)"
  by (simp_all add: jget_def)

lemma jhas_simps [simp]:
  "\<not> jhas [] k"
  "jhas ((k', v) # kvs) k \<longleftrightarrow> k' = k \<or> jhas kvs k"
  by (simp_all add: jhas_def)

lemma jindex_simps [simp]:
  "jindex [] k = Inl (KeyError k)"
  "jindex ((k', v) # kvs) k = (if k' = k then Inr v else jindex kvs k)"
  by (simp_all add: jindex_def)

lemma jindex_Inr_iff: "jindex d k = Inr v \<longleftrightarrow> map_of d k = Some v"
  by (simp add: jindex_def split: option.split)

lemma jindex_jhas: "jhas d k \<Longrightarrow> jindex d k = Inr (jget d k x)"
  by (auto simp: jhas_def jindex_def jget_def)

section \<open>Equality and comparison\<close>

fun num_of :: "json \<Rightarrow> pyfloat option" where
  "num_of (JBool b) = Some (Fin (if b then 1 else 0))"
| "num_of (JInt i) = Some (Fin (of_int i))"
| "num_of (JFloat f) = Some f"
| "num_of _ = None"

fun float_eq :: "pyfloat \<Rightarrow> pyfloat \<Rightarrow> bool" where
  "float_eq (Fin x) (Fin y) = (x = y)"
| "float_eq PosInf PosInf = True"
| "float_eq NegInf NegInf = True"
| "float_eq _ _ = False"

fun float_lt :: "pyfloat \<Rightarrow> pyfloat \<Rightarrow> bool" where
  "float_lt (Fin x) (Fin y) = (x < y)"
| "float_lt (Fin x) PosInf = True"
| "float_lt NegInf (Fin x) = True"
| "float_lt NegInf PosInf = True"
| "float_lt _ _ = False"

text \<open>
  \<^verbatim>\<open>x < n\<close> and \<^verbatim>\<open>x > n\<close> for an integer \<open>n\<close>: a value that is not a number raises.
\<close>

definition lt_int :: "json \<Rightarrow> int \<Rightarrow> bool res" where
  "lt_int x n = (case num_of x of None \<Rightarrow> Inl TypeError
                 | Some f \<Rightarrow> Inr (float_lt f (Fin (of_int n))))"

definition gt_int :: "json \<Rightarrow> int \<Rightarrow> bool res" where
  "gt_int x n = (case num_of x of None \<Rightarrow> Inl TypeError
                 | Some f \<Rightarrow> Inr (float_lt (Fin (of_int n)) f))"

lemma lt_int_JInt [simp]: "lt_int (JInt i) n = Inr (i < n)"
  by (simp add: lt_int_def)

lemma gt_int_JInt [simp]: "gt_int (JInt i) n = Inr (n < i)"
  by (simp add: gt_int_def)

lemma lt_int_JStr [simp]: "lt_int (JStr s) n = Inl TypeError"
  by (simp add: lt_int_def)

text \<open>
  \<^verbatim>\<open>==\<close>: numbers compare by value across bool, int and float (a NaN is unequal to
  everything), sequences elementwise, dicts as maps.
\<close>

lemma size_member:
  "(k, v) \<in> set kvs \<Longrightarrow> size v < Suc (size_list (size_prod (\<lambda>_. 0) size) kvs)"
  by (induction kvs) auto

function (sequential) json_eq :: "json \<Rightarrow> json \<Rightarrow> bool" where
  "json_eq JNull JNull = True"
| "json_eq (JStr s) (JStr t) = (s = t)"
| "json_eq (JList xs) (JList ys) =
     (length xs = length ys \<and> list_all (\<lambda>(x, y). json_eq x y) (zip xs ys))"
| "json_eq (JObj d) (JObj e) =
     (length d = length e \<and>
      list_all (\<lambda>(k, v). case map_of e k of None \<Rightarrow> False | Some w \<Rightarrow> json_eq v w) d)"
| "json_eq x y = (case (num_of x, num_of y) of
      (Some f, Some g) \<Rightarrow> float_eq f g | _ \<Rightarrow> False)"
  by pat_completeness auto
termination
  by (relation "measure (size \<circ> fst)")
    (auto dest!: size_member set_zip_leftD simp: less_Suc_eq_le intro: size_list_estimation')

fun nan_free :: "json \<Rightarrow> bool" where
  "nan_free (JFloat f) = (f \<noteq> NaN)"
| "nan_free (JList xs) = list_all nan_free xs"
| "nan_free (JObj d) = (distinct (map fst d) \<and> list_all (\<lambda>(k, v). nan_free v) d)"
| "nan_free _ = True"

lemma float_eq_refl: "f \<noteq> NaN \<Longrightarrow> float_eq f f"
  by (cases f) auto

lemma json_eq_refl: "nan_free x \<Longrightarrow> json_eq x x"
proof (induction x rule: nan_free.induct)
  case (1 f)
  then show ?case by (simp add: float_eq_refl)
next
  case (2 xs)
  then show ?case
    by (auto simp: list_all_iff zip_same)
next
  case (3 d)
  have "case map_of d k of None \<Rightarrow> False | Some w \<Rightarrow> json_eq v w" if "(k, v) \<in> set d" for k v
  proof -
    from 3 that have "map_of d k = Some v" by simp
    moreover from 3 that have "json_eq v v" by (auto simp: list_all_iff)
    ultimately show ?thesis by simp
  qed
  then show ?case by (auto simp: list_all_iff)
qed auto

lemma json_eq_JInt [simp]: "json_eq (JInt i) (JInt j) \<longleftrightarrow> i = j"
  by simp

section \<open>Rendering\<close>

text \<open>
  \<^verbatim>\<open>str(x)\<close> inside an f-string. Integers, strings, booleans and None are rendered here; the
  rendering of floats and containers is the runtime's and is left to a parameter.
\<close>

fun py_str :: "(json \<Rightarrow> string) \<Rightarrow> json \<Rightarrow> string" where
  "py_str r JNull = ''None''"
| "py_str r (JBool b) = (if b then ''True'' else ''False'')"
| "py_str r (JInt i) = str_of_int i"
| "py_str r (JStr s) = s"
| "py_str r x = r x"

end
