(* ===== verification/Scent.thy ===== *)
theory Scent
  imports Geometry PyJson
begin

text \<open>
  Pheromone emission and decay (\<^verbatim>\<open>domain/scent.py\<close>) and the validation of a scent grid
  received from the opponent (\<^verbatim>\<open>domain/scent_validation.py\<close>).
\<close>

section \<open>Scent fields\<close>

definition EMISSION_MATRIX :: "real list list" where
  "EMISSION_MATRIX =
     [[0.04, 0.14, 0.20, 0.14, 0.04],
      [0.14, 0.42, 0.62, 0.42, 0.14],
      [0.20, 0.62, 0.90, 0.62, 0.20],
      [0.14, 0.42, 0.62, 0.42, 0.14],
      [0.04, 0.14, 0.20, 0.14, 0.04]]"

definition EMISSION_RADIUS :: int where
  "EMISSION_RADIUS = int (length EMISSION_MATRIX) div 2"

record scent_field =
  sf_size :: int
  sf_grid :: "real list list"

definition value_at :: "scent_field \<Rightarrow> position \<Rightarrow> real res" where
  "value_at f p = rbind (py_nth (sf_grid f) (row p)) (\<lambda>xs. py_nth xs (col p))"

definition empty_scent_field :: "int \<Rightarrow> scent_field" where
  "empty_scent_field n = \<lparr>sf_size = n, sf_grid = const_grid (nat n) 0\<rparr>"

text \<open>The two nested loops over the window, each with its \<^verbatim>\<open>continue\<close> off the board.\<close>

definition emission_row :: "int \<Rightarrow> position \<Rightarrow> int \<Rightarrow> int \<Rightarrow> real list list \<Rightarrow> real list list" where
  "emission_row n source r d_row delta0 =
     foldl (\<lambda>delta d_col.
       let c = col source + d_col in
       if \<not> (0 \<le> c \<and> c < n) then delta
       else grid_set delta (nat r) (nat c)
              (EMISSION_MATRIX ! nat (d_row + EMISSION_RADIUS) ! nat (d_col + EMISSION_RADIUS)))
     delta0 [- EMISSION_RADIUS .. EMISSION_RADIUS]"

definition emission_delta :: "int \<Rightarrow> position \<Rightarrow> real list list" where
  "emission_delta n source =
     foldl (\<lambda>delta d_row.
       let r = row source + d_row in
       if \<not> (0 \<le> r \<and> r < n) then delta else emission_row n source r d_row delta)
     (const_grid (nat n) 0) [- EMISSION_RADIUS .. EMISSION_RADIUS]"

definition apply_turn :: "scent_field \<Rightarrow> position \<Rightarrow> real \<Rightarrow> scent_field" where
  "apply_turn f source rho =
     (let delta = emission_delta (sf_size f) source in
      \<lparr>sf_size = sf_size f,
       sf_grid = tab (nat (sf_size f))
         (\<lambda>r c. max 0 ((1 - rho) * (sf_grid f ! r ! c) + delta ! r ! c))\<rparr>)"

type_synonym scent_history = "scent_field list"

definition appended :: "scent_history \<Rightarrow> scent_field \<Rightarrow> scent_history" where
  "appended h f = h @ [f]"

section \<open>Validation of a received grid\<close>

text \<open>
  \<^verbatim>\<open>math.isfinite\<close> converts an int to a float first: from \<open>2 ^ 1024 - 2 ^ 970\<close> in absolute value
  on, the conversion rounds past the largest float and raises \<open>OverflowError\<close>.
\<close>

definition FLOAT_OVERFLOW :: int where
  "FLOAT_OVERFLOW = 2 ^ 1024 - 2 ^ 970"

fun isfinite :: "json \<Rightarrow> bool res" where
  "isfinite (JInt i) = (if \<bar>i\<bar> \<ge> FLOAT_OVERFLOW then Inl OverflowError else Inr True)"
| "isfinite (JFloat f) = Inr (case f of Fin _ \<Rightarrow> True | _ \<Rightarrow> False)"
| "isfinite _ = Inl TypeError"

definition PEAK_EMISSION :: real where
  "PEAK_EMISSION = Max (\<Union> (set ` set EMISSION_MATRIX))"

definition BINDING_DECAY :: real where
  "BINDING_DECAY = 0.10"

definition LEGAL_MAX_VALUE :: real where
  "LEGAL_MAX_VALUE = PEAK_EMISSION / BINDING_DECAY * 1.05"

definition is_number :: "json \<Rightarrow> bool" where
  "is_number v = (case v of JInt _ \<Rightarrow> True | JFloat _ \<Rightarrow> True | _ \<Rightarrow> False)"

definition validate_value :: "json \<Rightarrow> string option res" where
  "validate_value v =
     (if \<not> is_number v then Inr (Some ''non_numeric'')
      else rbind (isfinite v) (\<lambda>fin.
        if \<not> fin then Inr (Some ''non_finite'')
        else case num_of v of
          Some f \<Rightarrow> Inr (if float_lt f (Fin 0) then Some ''negative''
                        else if float_lt (Fin LEGAL_MAX_VALUE) f then Some ''exceeds_legal_maximum''
                        else None)
        | None \<Rightarrow> Inl TypeError))"

fun validate_values :: "json list \<Rightarrow> string option res" where
  "validate_values [] = Inr None"
| "validate_values (v # vs) =
     rbind (validate_value v) (\<lambda>r. case r of Some why \<Rightarrow> Inr (Some why) | None \<Rightarrow> validate_values vs)"

fun validate_rows :: "json list \<Rightarrow> int \<Rightarrow> string option res" where
  "validate_rows [] n = Inr None"
| "validate_rows (JList vs # rows) n =
     (if int (length vs) \<noteq> n then Inr (Some ''bad_dimensions'')
      else rbind (validate_values vs)
        (\<lambda>r. case r of Some why \<Rightarrow> Inr (Some why) | None \<Rightarrow> validate_rows rows n))"
| "validate_rows (_ # rows) n = Inr (Some ''bad_dimensions'')"

fun validate_scent_grid :: "json \<Rightarrow> int \<Rightarrow> string option res" where
  "validate_scent_grid JNull n = Inr (Some ''missing'')"
| "validate_scent_grid (JList rows) n =
     (if int (length rows) \<noteq> n then Inr (Some ''bad_dimensions'') else validate_rows rows n)"
| "validate_scent_grid _ n = Inr (Some ''bad_dimensions'')"

text \<open>A grid of floats as it appears in a message.\<close>

definition json_of_grid :: "real list list \<Rightarrow> json" where
  "json_of_grid g = JList (map (\<lambda>xs. JList (map (\<lambda>x. JFloat (Fin x)) xs)) g)"

section \<open>The window in closed form\<close>

definition emission_at :: "position \<Rightarrow> int \<Rightarrow> int \<Rightarrow> real" where
  "emission_at source r c =
     (if \<bar>r - row source\<bar> \<le> 2 \<and> \<bar>c - col source\<bar> \<le> 2
      then EMISSION_MATRIX ! nat (r - row source + 2) ! nat (c - col source + 2) else 0)"

lemma EMISSION_RADIUS_2 [simp]: "EMISSION_RADIUS = 2"
  by (simp add: EMISSION_RADIUS_def EMISSION_MATRIX_def)

lemma window_offsets: "[- 2 .. 2 :: int] = [-2, -1, 0, 1, 2]"
  by (simp add: upto_rec1)

lemma foldl_square:
  "(\<And>g x. square n g \<Longrightarrow> square n (f g x)) \<Longrightarrow> square n g \<Longrightarrow> square n (foldl f g xs)"
  by (induction xs arbitrary: g) auto

lemma square_emission_row [simp]:
  "square m g \<Longrightarrow> square m (emission_row n src r d g)"
  unfolding emission_row_def by (rule foldl_square) (auto simp: Let_def)

lemma square_emission_delta [simp]: "square (nat n) (emission_delta n src)"
  unfolding emission_delta_def by (rule foldl_square) (auto simp: Let_def)

text \<open>
  A loop that overwrites one cell per iteration, with distinct targets: each cell ends up
  with the value of the iteration that targets it, or what it held before.
\<close>

lemma emission_row_nth:
  assumes "square (nat n) g" and "i < nat n" and "j < nat n" and "0 \<le> r" and "r < n"
  shows "emission_row n src r d g ! i ! j =
    (if int i = r \<and> \<bar>int j - col src\<bar> \<le> 2
     then EMISSION_MATRIX ! nat (d + 2) ! nat (int j - col src + 2) else g ! i ! j)"
proof -
  have gen: "foldl (\<lambda>delta d_col.
       let c = col src + d_col in
       if \<not> (0 \<le> c \<and> c < n) then delta
       else grid_set delta (nat r) (nat c) (EMISSION_MATRIX ! nat (d + 2) ! nat (d_col + 2)))
     g ds ! i ! j =
     (if int i = r \<and> int j - col src \<in> set ds
      then EMISSION_MATRIX ! nat (d + 2) ! nat (int j - col src + 2) else g ! i ! j)" for ds
    using assms(1)
  proof (induction ds arbitrary: g)
    case Nil
    then show ?case by simp
  next
    case (Cons x ds)
    have r: "i = nat r \<longleftrightarrow> int i = r" using assms(4) by auto
    have c: "0 \<le> col src + x \<Longrightarrow> j = nat (col src + x) \<longleftrightarrow> int j - col src = x" by auto
    have "int j < n" using assms(3) by linarith
    then show ?case
      using Cons assms(2,3) by (auto simp: Let_def grid_set_nth r c)
  qed
  show ?thesis
    unfolding emission_row_def EMISSION_RADIUS_2 gen by auto
qed

lemma emission_delta_nth:
  assumes "i < nat n" and "j < nat n"
  shows "emission_delta n src ! i ! j = emission_at src (int i) (int j)"
proof -
  have gen: "square (nat n) g \<Longrightarrow> foldl (\<lambda>delta d_row.
       let r = row src + d_row in
       if \<not> (0 \<le> r \<and> r < n) then delta else emission_row n src r d_row delta) g ds ! i ! j =
     (if int i - row src \<in> set ds \<and> \<bar>int j - col src\<bar> \<le> 2
      then EMISSION_MATRIX ! nat (int i - row src + 2) ! nat (int j - col src + 2) else g ! i ! j)"
    for ds and g :: "real list list"
  proof (induction ds arbitrary: g)
    case Nil
    then show ?case by simp
  next
    case (Cons x ds)
    have "int i < n" using assms by linarith
    with Cons assms show ?case
      by (auto simp: Let_def emission_row_nth)
  qed
  have "i < nat n" "j < nat n" by (fact assms)+
  then show ?thesis
    unfolding emission_delta_def EMISSION_RADIUS_2 gen [OF square_const_grid] emission_at_def by auto
qed

lemma emission_at_bounds: "0 \<le> emission_at src r c" "emission_at src r c \<le> 0.9"
proof -
  have "\<forall>xs \<in> set EMISSION_MATRIX. length xs = 5 \<and> (\<forall>x \<in> set xs. 0 \<le> x \<and> x \<le> 0.9)"
    and len: "length EMISSION_MATRIX = 5"
    by (simp_all add: EMISSION_MATRIX_def)
  then have "0 \<le> EMISSION_MATRIX ! i ! j \<and> EMISSION_MATRIX ! i ! j \<le> 0.9" if "i < 5" "j < 5" for i j
    using that by (metis nth_mem)
  then show "0 \<le> emission_at src r c" "emission_at src r c \<le> 0.9"
    unfolding emission_at_def by auto
qed

lemma apply_turn_size [simp]: "sf_size (apply_turn f src rho) = sf_size f"
  by (simp add: apply_turn_def Let_def)

lemma apply_turn_cell:
  "i < nat (sf_size f) \<Longrightarrow> j < nat (sf_size f) \<Longrightarrow>
     sf_grid (apply_turn f src rho) ! i ! j =
       max 0 ((1 - rho) * (sf_grid f ! i ! j) + emission_at src (int i) (int j))"
  by (simp add: apply_turn_def Let_def emission_delta_nth)

section \<open>The bound every honest field keeps\<close>

text \<open>
  With the binding decay of a tenth and a peak emission of 0.9, no cell ever exceeds
  \<open>0.9 / 0.1 = 9\<close>, the fixed point of the update.
\<close>

definition scent_ok :: "int \<Rightarrow> scent_field \<Rightarrow> bool" where
  "scent_ok n f \<longleftrightarrow> sf_size f = n \<and> square (nat n) (sf_grid f) \<and>
     (\<forall>i < nat n. \<forall>j < nat n. 0 \<le> sf_grid f ! i ! j \<and> sf_grid f ! i ! j \<le> 9)"

lemma scent_ok_empty: "scent_ok n (empty_scent_field n)"
  by (simp add: scent_ok_def empty_scent_field_def)

lemma scent_ok_apply_turn:
  assumes "scent_ok n f"
  shows "scent_ok n (apply_turn f src BINDING_DECAY)"
proof -
  have "0 \<le> max 0 ((1 - BINDING_DECAY) * x + emission_at src r c) \<and>
      max 0 ((1 - BINDING_DECAY) * x + emission_at src r c) \<le> 9" if "x \<le> 9" for x :: real and r c
    using that emission_at_bounds [of src r c] by (simp add: BINDING_DECAY_def)
  moreover have "square (nat n) (sf_grid (apply_turn f src BINDING_DECAY))"
    using assms by (simp add: scent_ok_def apply_turn_def Let_def)
  ultimately show ?thesis
    using assms unfolding scent_ok_def by (auto simp: apply_turn_cell)
qed

interpretation scent: component "\<lambda>f src. apply_turn f src BINDING_DECAY" "scent_ok n"
  by unfold_locales (rule scent_ok_apply_turn)

section \<open>What the validator accepts\<close>

definition legal_value :: "json \<Rightarrow> bool" where
  "legal_value v \<longleftrightarrow> is_number v \<and>
     (case num_of v of Some (Fin x) \<Rightarrow> 0 \<le> x \<and> x \<le> LEGAL_MAX_VALUE | _ \<Rightarrow> False)"

definition legal_row :: "int \<Rightarrow> json \<Rightarrow> bool" where
  "legal_row n v = (case v of JList vs \<Rightarrow> int (length vs) = n \<and> list_all legal_value vs | _ \<Rightarrow> False)"

definition legal_grid :: "int \<Rightarrow> json \<Rightarrow> bool" where
  "legal_grid n v = (case v of JList rows \<Rightarrow> int (length rows) = n \<and> list_all (legal_row n) rows | _ \<Rightarrow> False)"

lemma LEGAL_MAX_VALUE_eq: "LEGAL_MAX_VALUE = 9.45"
proof -
  have "PEAK_EMISSION = 0.9"
    unfolding PEAK_EMISSION_def EMISSION_MATRIX_def by (rule Max_eqI) auto
  then show ?thesis by (simp add: LEGAL_MAX_VALUE_def BINDING_DECAY_def)
qed

lemma FLOAT_OVERFLOW_big: "10 \<le> FLOAT_OVERFLOW"
  by (simp add: FLOAT_OVERFLOW_def)

lemma validate_value_None_iff: "validate_value v = Inr None \<longleftrightarrow> legal_value v"
proof (cases v)
  case (JInt i)
  have "\<not> \<bar>i\<bar> \<ge> FLOAT_OVERFLOW" if "0 \<le> i" "(of_int i :: real) \<le> 9.45"
  proof -
    from that(2) have "(of_int i :: real) < of_int 10" by simp
    then have "i < 10" by (simp only: of_int_less_iff)
    with that(1) FLOAT_OVERFLOW_big show ?thesis by linarith
  qed
  then show ?thesis
    by (auto simp: JInt validate_value_def legal_value_def is_number_def LEGAL_MAX_VALUE_eq)
next
  case (JFloat f)
  then show ?thesis
    by (cases f) (auto simp: validate_value_def legal_value_def is_number_def)
qed (auto simp: validate_value_def legal_value_def is_number_def)

lemma validate_values_None_iff: "validate_values vs = Inr None \<longleftrightarrow> list_all legal_value vs"
  by (induction vs) (auto simp: res_simps validate_value_None_iff [symmetric] split: option.splits)

lemma validate_rows_None_iff: "validate_rows rows n = Inr None \<longleftrightarrow> list_all (legal_row n) rows"
  by (induction rows n rule: validate_rows.induct)
    (auto simp: res_simps legal_row_def validate_values_None_iff [symmetric] split: option.splits)

lemma validate_value_raises: "validate_value v = Inl e \<Longrightarrow> e = OverflowError"
  by (cases v) (auto simp: validate_value_def is_number_def split: if_splits)

lemma validate_values_raises: "validate_values vs = Inl e \<Longrightarrow> e = OverflowError"
proof (induction vs)
  case (Cons v vs)
  then show ?case
    by (cases "validate_value v") (auto dest: validate_value_raises split: option.splits)
qed simp

lemma validate_rows_raises: "validate_rows rows n = Inl e \<Longrightarrow> e = OverflowError"
proof (induction rows n rule: validate_rows.induct)
  case (2 vs rows n)
  then show ?case
    by (cases "validate_values vs") (auto dest: validate_values_raises split: option.splits if_splits)
qed auto

section \<open>Properties\<close>

text \<open>
  C25. However the thief walks, every scent field built from the empty one at the binding
  decay is accepted by the opponent's validation: an honest grid is never rejected.
\<close>

theorem honest_scent_accepted:
  "validate_scent_grid
     (json_of_grid (sf_grid (foldl (\<lambda>f src. apply_turn f src BINDING_DECAY)
        (empty_scent_field (int n)) path))) (int n) = Inr None"
proof -
  let ?f = "foldl (\<lambda>f src. apply_turn f src BINDING_DECAY) (empty_scent_field (int n)) path"
  have ok: "scent_ok (int n) ?f"
    by (rule scent.run_inv [OF scent_ok_empty])
  then have sq: "square n (sf_grid ?f)" by (simp add: scent_ok_def)
  have "legal_value (JFloat (Fin x))" if mem: "xs \<in> set (sf_grid ?f)" "x \<in> set xs" for xs x
  proof -
    obtain r c where "r < n" "c < n" and x: "x = sf_grid ?f ! r ! c"
      by (rule square_cell_mem [OF sq mem])
    with ok have "0 \<le> x \<and> x \<le> 9" by (simp add: scent_ok_def)
    then show ?thesis by (simp add: legal_value_def is_number_def LEGAL_MAX_VALUE_eq)
  qed
  moreover have "length xs = n" if "xs \<in> set (sf_grid ?f)" for xs
    using square_mem [OF sq that] by metis
  ultimately have "list_all (legal_row (int n)) (map (\<lambda>xs. JList (map (\<lambda>x. JFloat (Fin x)) xs)) (sf_grid ?f))"
    by (auto simp: list_all_iff legal_row_def)
  with sq show ?thesis
    by (simp add: json_of_grid_def validate_rows_None_iff square_def)
qed

lemma validate_scent_grid_cases:
  "case validate_scent_grid g n of
     Inl e \<Rightarrow> e = OverflowError
   | Inr verdict \<Rightarrow> verdict = None \<longleftrightarrow> legal_grid n g"
proof (cases g)
  case (JList rows)
  show ?thesis
  proof (cases "validate_rows rows n")
    case (Inl e)
    then show ?thesis using JList validate_rows_raises [OF Inl] by (simp add: legal_grid_def)
  next
    case (Inr verdict)
    then show ?thesis
      using JList validate_rows_None_iff [of rows n] by (auto simp: legal_grid_def)
  qed
qed (auto simp: legal_grid_def)

text \<open>
  The validator's verdict, on any JSON value at all: it answers None exactly on an n by n
  list of lists of finite non-boolean numbers between 0 and the legal maximum of 9.45, and the only exception
  it can raise is the \<open>OverflowError\<close> of a gigantic integer.
\<close>

lemma validate_scent_grid_verdict:
  "case validate_scent_grid g n of
     Inl e \<Rightarrow> e = OverflowError
   | Inr verdict \<Rightarrow> verdict = None \<longleftrightarrow> legal_grid n g"
  by (rule validate_scent_grid_cases)

text \<open>
  The validator promises never to raise, but a square grid holding one integer of more than
  1024 bits makes \<open>math.isfinite\<close> overflow, and the exception leaves the validator.
\<close>

lemma validate_scent_grid_overflow:
  "FLOAT_OVERFLOW \<le> i \<Longrightarrow> validate_scent_grid (JList [JList [JInt i]]) 1 = Inl OverflowError"
  by (simp add: validate_value_def is_number_def)

end
