(* ===== verification/Belief.thy ===== *)
theory Belief
  imports Scent "HOL-Library.Product_Lexorder"
begin

text \<open>
  The belief about where the opponent is: \<^verbatim>\<open>domain/belief_model.py\<close> (the distribution and its
  summaries), \<^verbatim>\<open>domain/belief_updates.py\<close> (prior, transition, barrier mask, scent and hint
  likelihoods) and \<^verbatim>\<open>services/belief_update.py\<close> (one turn's update and the hint trust).
\<close>

section \<open>The distribution\<close>

record belief =
  b_size :: int
  b_grid :: "real list list"

definition probability_at :: "belief \<Rightarrow> position \<Rightarrow> real res" where
  "probability_at b p = rbind (py_nth (b_grid b) (row p)) (\<lambda>xs. py_nth xs (col p))"

definition total_mass :: "belief \<Rightarrow> real" where
  "total_mass b = grid_sum (b_grid b)"

definition normalize_grid :: "int \<Rightarrow> real list list \<Rightarrow> belief res" where
  "normalize_grid n raw =
     (let total = grid_sum raw
      in if total \<le> 1 / 10 ^ 12 then
           (if n * n = 0 then Inl ZeroDivisionError
            else Inr \<lparr>b_size = n, b_grid = const_grid (nat n) (1 / of_int (n * n))\<rparr>)
         else Inr \<lparr>b_size = n, b_grid = map (map (\<lambda>v. v / total)) raw\<rparr>)"

definition entropy :: "belief \<Rightarrow> real" where
  "entropy b =
     foldl (\<lambda>total xs. foldl (\<lambda>total p. if p > 0 then total - p * log 2 p else total) total xs)
       0 (b_grid b)"

text \<open>The cells in the order of the two nested \<^verbatim>\<open>enumerate\<close> loops.\<close>

definition belief_entries :: "belief \<Rightarrow> (position \<times> real) list" where
  "belief_entries b =
     concat (map (\<lambda>(r, xs). map (\<lambda>(c, p). (Pos (int r) (int c), p)) (List.enumerate 0 xs))
       (List.enumerate 0 (b_grid b)))"

definition most_likely :: "belief \<Rightarrow> position" where
  "most_likely b =
     fst (foldl (\<lambda>(best_pos, best_p) (pos, p). if p > best_p then (pos, p) else (best_pos, best_p))
       (Pos 0 0, -1) (belief_entries b))"

definition entry_key :: "position \<times> real \<Rightarrow> real \<times> int \<times> int" where
  "entry_key e = (- snd e, row (fst e), col (fst e))"

definition top_k :: "belief \<Rightarrow> int \<Rightarrow> (position \<times> real) list" where
  "top_k b k = py_take k (sort_key entry_key (belief_entries b))"

definition expected_distance :: "belief \<Rightarrow> 'a \<Rightarrow> ('a \<Rightarrow> position \<Rightarrow> real) \<Rightarrow> real" where
  "expected_distance b from_position distance_fn =
     foldl (\<lambda>total (pos, p). if p > 0 then total + p * distance_fn from_position pos else total)
       0 (belief_entries b)"

section \<open>Updates\<close>

definition uniform_prior :: "int \<Rightarrow> position set \<Rightarrow> belief res" where
  "uniform_prior n blocked =
     normalize_grid n (tab (nat n) (\<lambda>r c. if Pos (int r) (int c) \<in> blocked then 0 else 1))"

definition apply_barrier_mask :: "belief \<Rightarrow> position set \<Rightarrow> belief res" where
  "apply_barrier_mask b blocked =
     normalize_grid (b_size b)
       (grid_imap (\<lambda>r c p. if Pos (int r) (int c) \<in> blocked then 0 else p) (b_grid b))"

text \<open>\<^verbatim>\<open>raw[row][col] += x\<close>, with Python's negative indices and its \<^verbatim>\<open>IndexError\<close>.\<close>

definition py_index :: "nat \<Rightarrow> int \<Rightarrow> nat option" where
  "py_index len i =
     (let j = (if i < 0 then int len + i else i)
      in if 0 \<le> j \<and> j < int len then Some (nat j) else None)"

definition grid_add :: "real list list \<Rightarrow> position \<Rightarrow> real \<Rightarrow> real list list res" where
  "grid_add g p x =
     (case py_index (length g) (row p) of
        None \<Rightarrow> Inl IndexError
      | Some r \<Rightarrow> (case py_index (length (g ! r)) (col p) of
          None \<Rightarrow> Inl IndexError
        | Some c \<Rightarrow> Inr (grid_set g r c (g ! r ! c + x))))"

definition spread_cell ::
    "(position \<Rightarrow> position list) \<Rightarrow> real list list \<Rightarrow> position \<times> real \<Rightarrow> real list list res" where
  "spread_cell neighbors_fn raw = (\<lambda>(pos, p).
     if p \<le> 0 then Inr raw
     else (let successors = neighbors_fn pos
           in if successors = [] then grid_add raw pos p
              else (let share = p / real (length successors)
                    in rfold (\<lambda>raw successor. grid_add raw successor share) raw successors)))"

definition apply_transition :: "belief \<Rightarrow> (position \<Rightarrow> position list) \<Rightarrow> belief res" where
  "apply_transition b neighbors_fn =
     rbind (rfold (spread_cell neighbors_fn) (const_grid (nat (b_size b)) 0) (belief_entries b))
       (normalize_grid (b_size b))"

definition apply_scent_likelihood :: "belief \<Rightarrow> scent_field \<Rightarrow> real \<Rightarrow> belief res" where
  "apply_scent_likelihood b scent trust =
     rbind (grid_traverse (\<lambda>r c p.
         rbind (value_at scent (Pos (int r) (int c))) (\<lambda>v. Inr (p * (1 + trust * v)))) (b_grid b))
       (normalize_grid (b_size b))"

definition apply_hint_likelihood :: "belief \<Rightarrow> position list option \<Rightarrow> real \<Rightarrow> belief res" where
  "apply_hint_likelihood b hint_region base_trust =
     (case hint_region of
        None \<Rightarrow> Inr b
      | Some region \<Rightarrow>
          (let region_set = remdups region
           in if region_set = [] then Inr b
              else rbind (traverse (probability_at b) region_set) (\<lambda>ps.
                let prior_region_mass = sum_list ps;
                    agreement = prior_region_mass * of_int (b_size b) * of_int (b_size b)
                                / real (length region_set);
                    effective_trust = base_trust * min 1 agreement
                in normalize_grid (b_size b) (grid_imap (\<lambda>r c p.
                     if Pos (int r) (int c) \<in> set region_set then p * (1 + effective_trust) else p)
                   (b_grid b)))))"

definition update_hint_trust :: "real \<Rightarrow> real \<Rightarrow> real \<Rightarrow> real" where
  "update_hint_trust current_trust entropy_before entropy_after =
     (if entropy_after < entropy_before - 1 / 10 ^ 9
      then min 0.95 (current_trust + 0.08 * (1 - current_trust))
      else if entropy_after > entropy_before + 1 / 10 ^ 9
      then max 0.05 (current_trust - 0.12 * current_trust)
      else current_trust)"

definition update_belief ::
    "belief \<Rightarrow> board \<Rightarrow> scent_field option \<Rightarrow> position list option \<Rightarrow> real
       \<Rightarrow> (belief \<times> real) res" where
  "update_belief b brd police_scent hint_region hint_trust =
     rbind (apply_transition b (adjacent_cells brd)) (\<lambda>predicted.
     rbind (apply_barrier_mask predicted (barriers brd)) (\<lambda>masked0.
     rbind (case police_scent of None \<Rightarrow> Inr masked0
            | Some sc \<Rightarrow> apply_scent_likelihood masked0 sc 1) (\<lambda>masked.
     case hint_region of
       None \<Rightarrow> Inr (masked, hint_trust)
     | Some region \<Rightarrow>
         rbind (apply_hint_likelihood masked (Some region) hint_trust) (\<lambda>masked'.
           Inr (masked', update_hint_trust hint_trust (entropy masked) (entropy masked'))))))"

section \<open>Distributions are kept\<close>

definition nonneg_grid :: "nat \<Rightarrow> real list list \<Rightarrow> bool" where
  "nonneg_grid n g \<longleftrightarrow> square n g \<and> (\<forall>r < n. \<forall>c < n. 0 \<le> g ! r ! c)"

definition wf_belief :: "int \<Rightarrow> belief \<Rightarrow> bool" where
  "wf_belief n b \<longleftrightarrow> 0 < n \<and> b_size b = n \<and> nonneg_grid (nat n) (b_grid b) \<and> total_mass b = 1"

lemma square_map_map [simp]: "square n (map (map f) g) \<longleftrightarrow> square n g"
  by (auto simp: square_def)

lemma map_map_nth: "square n g \<Longrightarrow> r < n \<Longrightarrow> c < n \<Longrightarrow> map (map f) g ! r ! c = f (g ! r ! c)"
  by (simp add: square_def)

lemma grid_sum_const: "grid_sum (const_grid n x) = real n * real n * x"
  by (simp add: grid_sum_def const_grid_def sum_list_replicate)

lemma grid_sum_scale: "grid_sum (map (map (\<lambda>v. v / t)) g) = grid_sum g / t"
proof -
  have "sum_list (map (\<lambda>v. v / t) xs) = sum_list xs / t" for xs
    by (induction xs) (simp_all add: add_divide_distrib)
  then show ?thesis
    unfolding grid_sum_def by (induction g) (simp_all add: add_divide_distrib)
qed

lemma normalize_grid_wf:
  assumes "0 < n" and "nonneg_grid (nat n) raw"
  obtains b where "normalize_grid n raw = Inr b" and "wf_belief n b"
proof (cases "grid_sum raw \<le> 1 / 10 ^ 12")
  case True
  have "nonneg_grid (nat n) (const_grid (nat n) (1 / of_int (n * n)))"
    by (simp add: nonneg_grid_def)
  with True assms(1) show ?thesis
    by (intro that) (auto simp: normalize_grid_def wf_belief_def total_mass_def grid_sum_const)
next
  case False
  then have "0 < grid_sum raw" by (simp add: field_simps)
  with False assms show ?thesis
    by (intro that) (auto simp: normalize_grid_def wf_belief_def total_mass_def grid_sum_scale
        nonneg_grid_def map_map_nth)
qed

lemma enumerate_map: "List.enumerate 0 xs = map (\<lambda>i. (i, xs ! i)) [0..<length xs]"
  by (rule nth_equalityI) (simp_all add: nth_enumerate_eq)

lemma belief_entries_eq:
  assumes "square n (b_grid b)"
  shows "belief_entries b =
    concat (map (\<lambda>r. map (\<lambda>c. (Pos (int r) (int c), b_grid b ! r ! c)) [0..<n]) [0..<n])"
  unfolding belief_entries_def enumerate_map
  using assms by (auto simp: square_def intro!: arg_cong [of _ _ concat])

lemma set_belief_entries:
  assumes "square n (b_grid b)"
  shows "(pos, p) \<in> set (belief_entries b) \<longleftrightarrow>
    (\<exists>r < n. \<exists>c < n. pos = Pos (int r) (int c) \<and> p = b_grid b ! r ! c)"
  by (force simp: belief_entries_eq [OF assms])

lemma sum_belief_entries:
  assumes "square n (b_grid b)"
  shows "sum_list (map snd (belief_entries b)) = grid_sum (b_grid b)"
proof -
  have "sum_list (map snd (concat (map (\<lambda>r. map (\<lambda>c. (Pos (int r) (int c), b_grid b ! r ! c)) cs) rs))) =
      sum_list (map (\<lambda>r. sum_list (map (\<lambda>c. b_grid b ! r ! c) cs)) rs)" for rs cs
    by (induction rs) (simp_all add: comp_def)
  then show ?thesis
    unfolding belief_entries_eq [OF assms]
    by (simp add: grid_sum_square [OF assms] interv_sum_list_conv_sum_set_nat atLeast0LessThan)
qed

lemma py_index_in [simp]: "0 \<le> i \<Longrightarrow> i < int len \<Longrightarrow> py_index len i = Some (nat i)"
  by (simp add: py_index_def)

lemma grid_add_in:
  assumes "square (nat n) g" and "is_within p n"
  shows "grid_add g p x = Inr (grid_set g (nat (row p)) (nat (col p)) (g ! nat (row p) ! nat (col p) + x))"
proof -
  have "nat (row p) < nat n" and "nat (col p) < nat n" and "0 \<le> row p" and "0 \<le> col p"
    using assms(2) by (auto simp: is_within_def)
  moreover from this assms(1) have "length g = nat n" and "length (g ! nat (row p)) = nat n"
    by (auto simp: square_def)
  ultimately show ?thesis by (simp add: grid_add_def)
qed

lemma grid_add_sum:
  assumes "nonneg_grid (nat n) g" and "is_within p n" and "0 \<le> x"
  shows "\<exists>g'. grid_add g p x = Inr g' \<and> nonneg_grid (nat n) g' \<and> grid_sum g' = grid_sum g + x"
proof -
  have sq: "square (nat n) g" using assms(1) by (simp add: nonneg_grid_def)
  have "nat (row p) < nat n" and "nat (col p) < nat n" using assms(2) by (auto simp: is_within_def)
  with assms(1,3) show ?thesis
    unfolding grid_add_in [OF sq assms(2)]
    by (auto simp: nonneg_grid_def grid_set_nth grid_sum_grid_set [OF sq])
qed

text \<open>One cell's mass is spread over its successors without loss.\<close>

lemma spread_cell_sum:
  assumes "nonneg_grid (nat n) g" and "is_within pos n"
    and "\<And>q. q \<in> set (nf pos) \<Longrightarrow> is_within q n"
  shows "\<exists>g'. spread_cell nf g (pos, p) = Inr g' \<and> nonneg_grid (nat n) g' \<and>
              grid_sum g' = grid_sum g + max 0 p"
proof (cases "p \<le> 0 \<or> nf pos = []")
  case True
  then show ?thesis
    using assms(1) grid_add_sum [OF assms(1,2), of p] by (auto simp: spread_cell_def)
next
  case False
  let ?share = "p / real (length (nf pos))"
  have "\<exists>g'. rfold (\<lambda>raw q. grid_add raw q ?share) g (nf pos) = Inr g' \<and> nonneg_grid (nat n) g' \<and>
      grid_sum g' = grid_sum g + sum_list (map (\<lambda>_. ?share) (nf pos))"
    using False by (intro rfold_sum assms(1) grid_add_sum assms(3)) auto
  with False show ?thesis
    by (simp add: spread_cell_def Let_def sum_list_triv)
qed

lemma transition_sum:
  assumes "wf_belief n b" and "\<And>p q. is_within p n \<Longrightarrow> q \<in> set (nf p) \<Longrightarrow> is_within q n"
  shows "\<exists>raw. rfold (spread_cell nf) (const_grid (nat n) 0) (belief_entries b) = Inr raw \<and>
               nonneg_grid (nat n) raw \<and> grid_sum raw = 1"
proof -
  have sq: "square (nat n) (b_grid b)" and nn: "nonneg_grid (nat n) (b_grid b)"
    and tot: "grid_sum (b_grid b) = 1"
    using assms(1) by (auto simp: wf_belief_def nonneg_grid_def total_mass_def)
  have within: "is_within (fst e) n \<and> 0 \<le> snd e" if "e \<in> set (belief_entries b)" for e
    using that nn set_belief_entries [OF sq, of "fst e" "snd e"]
    by (auto simp: is_within_def nonneg_grid_def)
  have "\<exists>raw. rfold (spread_cell nf) (const_grid (nat n) 0) (belief_entries b) = Inr raw \<and>
      nonneg_grid (nat n) raw \<and> grid_sum raw = grid_sum (const_grid (nat n) 0) +
        sum_list (map (\<lambda>e. max 0 (snd e)) (belief_entries b))"
  proof (rule rfold_sum)
    show "nonneg_grid (nat n) (const_grid (nat n) 0)" by (simp add: nonneg_grid_def)
    show "\<exists>g'. spread_cell nf g e = Inr g' \<and> nonneg_grid (nat n) g' \<and>
        grid_sum g' = grid_sum g + max 0 (snd e)"
      if "nonneg_grid (nat n) g" and "e \<in> set (belief_entries b)" for g e
      using spread_cell_sum [OF that(1), of "fst e" nf "snd e"] within [OF that(2)] assms(2)
      by auto
  qed
  moreover have "map (\<lambda>e. max 0 (snd e)) (belief_entries b) = map snd (belief_entries b)"
    using within by auto
  ultimately show ?thesis
    by (simp add: sum_belief_entries [OF sq] tot grid_sum_const)
qed

lemma apply_transition_wf:
  assumes "wf_belief n b" and "\<And>p q. is_within p n \<Longrightarrow> q \<in> set (nf p) \<Longrightarrow> is_within q n"
  obtains b' where "apply_transition b nf = Inr b'" and "wf_belief n b'"
proof -
  obtain raw where raw: "rfold (spread_cell nf) (const_grid (nat n) 0) (belief_entries b) = Inr raw"
      "nonneg_grid (nat n) raw"
    using transition_sum [of n b nf] assms by blast
  have "0 < n" "b_size b = n" using assms(1) by (auto simp: wf_belief_def)
  with raw show ?thesis
    using normalize_grid_wf [OF _ raw(2)] that by (auto simp: apply_transition_def)
qed

lemma apply_barrier_mask_wf:
  assumes "wf_belief n b"
  obtains b' where "apply_barrier_mask b bars = Inr b'" and "wf_belief n b'"
proof -
  have "nonneg_grid (nat n)
      (grid_imap (\<lambda>r c p. if Pos (int r) (int c) \<in> bars then 0 else p) (b_grid b))"
    using assms by (auto simp: wf_belief_def nonneg_grid_def)
  moreover have "0 < n" "b_size b = n" using assms by (auto simp: wf_belief_def)
  ultimately show ?thesis
    using normalize_grid_wf that unfolding apply_barrier_mask_def by metis
qed

lemma apply_scent_likelihood_wf:
  assumes "wf_belief n b" and "0 \<le> t" and "nonneg_grid (nat n) (sf_grid sc)"
  obtains b' where "apply_scent_likelihood b sc t = Inr b'" and "wf_belief n b'"
proof -
  let ?h = "\<lambda>r c p. p * (1 + t * (sf_grid sc ! r ! c))"
  have sq: "square (nat n) (b_grid b)" and sq': "square (nat n) (sf_grid sc)" and n: "0 < n" "b_size b = n"
    using assms by (auto simp: wf_belief_def nonneg_grid_def)
  have "value_at sc (Pos (int r) (int c)) = Inr (sf_grid sc ! r ! c)" if "r < nat n" "c < nat n" for r c
    using that sq' by (auto simp: value_at_def square_def)
  then have "grid_traverse (\<lambda>r c p. rbind (value_at sc (Pos (int r) (int c))) (\<lambda>v. Inr (p * (1 + t * v))))
      (b_grid b) = Inr (grid_imap ?h (b_grid b))"
    by (intro grid_traverse_total [OF sq]) simp
  moreover have "nonneg_grid (nat n) (grid_imap ?h (b_grid b))"
    using assms by (auto simp: wf_belief_def nonneg_grid_def)
  ultimately show ?thesis
    using normalize_grid_wf [OF n(1), of "grid_imap ?h (b_grid b)"] that n(2)
    unfolding apply_scent_likelihood_def by auto
qed

lemma probability_at_in:
  assumes "wf_belief n b" and "is_within p n"
  shows "probability_at b p = Inr (b_grid b ! nat (row p) ! nat (col p))"
    and "0 \<le> b_grid b ! nat (row p) ! nat (col p)"
proof -
  have "nat (row p) < nat n" "nat (col p) < nat n" "0 \<le> row p" "0 \<le> col p"
    using assms(2) by (auto simp: is_within_def)
  with assms show "probability_at b p = Inr (b_grid b ! nat (row p) ! nat (col p))"
    and "0 \<le> b_grid b ! nat (row p) ! nat (col p)"
    by (auto simp: wf_belief_def nonneg_grid_def square_def probability_at_def)
qed

lemma apply_hint_likelihood_wf:
  assumes "wf_belief n b" and "0 \<le> t" and "\<And>p. p \<in> set region \<Longrightarrow> is_within p n"
  obtains b' where "apply_hint_likelihood b (Some region) t = Inr b'" and "wf_belief n b'"
proof (cases "remdups region = []")
  case True
  with that assms(1) show ?thesis by (auto simp: apply_hint_likelihood_def)
next
  case False
  let ?ps = "map (\<lambda>p. b_grid b ! nat (row p) ! nat (col p)) (remdups region)"
  have tr: "traverse (probability_at b) (remdups region) = Inr ?ps"
    using probability_at_in(1) [OF assms(1)] assms(3) by (intro traverse_Inr_total) auto
  have n: "0 < n" "b_size b = n" using assms(1) by (auto simp: wf_belief_def)
  define e where "e = t * min 1 (sum_list ?ps * of_int n * of_int n / real (length (remdups region)))"
  have "0 \<le> sum_list ?ps"
    using probability_at_in(2) [OF assms(1)] assms(3) by (intro sum_list_nonneg) auto
  with assms(2) n have "0 \<le> e" unfolding e_def by (intro mult_nonneg_nonneg) auto
  then have "nonneg_grid (nat n) (grid_imap (\<lambda>r c p.
      if Pos (int r) (int c) \<in> set (remdups region) then p * (1 + e) else p) (b_grid b))"
    using assms(1) by (auto simp: wf_belief_def nonneg_grid_def)
  from normalize_grid_wf [OF n(1) this] obtain b' where b': "wf_belief n b'"
    "normalize_grid n (grid_imap (\<lambda>r c p.
      if Pos (int r) (int c) \<in> set (remdups region) then p * (1 + e) else p) (b_grid b)) = Inr b'"
    by blast
  have "apply_hint_likelihood b (Some region) t = Inr b'"
    using False b'(2) [unfolded e_def] n(2) unfolding apply_hint_likelihood_def
    by (simp add: tr Let_def del: remdups_eq_nil_iff set_remdups)
  then show ?thesis using b'(1) by (rule that)
qed

definition trust_ok :: "real \<Rightarrow> bool" where
  "trust_ok t \<longleftrightarrow> 0.05 \<le> t \<and> t \<le> 0.95"

lemma update_hint_trust_ok: "trust_ok t \<Longrightarrow> trust_ok (update_hint_trust t e1 e2)"
proof -
  assume "trust_ok t"
  then have "0.05 \<le> t" "t \<le> 0.95" by (simp_all add: trust_ok_def)
  then have "0.05 \<le> t + 0.08 * (1 - t)" and "t - 0.12 * t \<le> 0.95"
    by (simp_all add: field_simps)
  moreover have "trust_ok (min 0.95 x)" if "0.05 \<le> x" for x using that by (simp add: trust_ok_def)
  moreover have "trust_ok (max 0.05 x)" if "x \<le> 0.95" for x using that by (simp add: trust_ok_def)
  ultimately show ?thesis
    unfolding update_hint_trust_def using \<open>trust_ok t\<close> by presburger
qed

lemma adjacent_within: "q \<in> set (adjacent_cells brd p) \<Longrightarrow> is_within q (board_size brd)"
  by (simp add: set_adjacent_cells is_in_bounds_def)

section \<open>The most likely cell\<close>

definition better :: "position \<times> real \<Rightarrow> position \<times> real \<Rightarrow> position \<times> real" where
  "better = (\<lambda>(best_pos, best_p) (pos, p). if p > best_p then (pos, p) else (best_pos, best_p))"

definition cell_key :: "position \<times> real \<Rightarrow> int \<times> int" where
  "cell_key e = (row (fst e), col (fst e))"

lemma entry_key_le: "entry_key a \<le> entry_key b \<longleftrightarrow> snd b < snd a \<or> snd a = snd b \<and> cell_key a \<le> cell_key b"
  by (auto simp: entry_key_def cell_key_def less_eq_prod_def less_le)

lemma entry_key_inject: "entry_key a = entry_key b \<longleftrightarrow> a = b"
  by (cases a; cases b) (auto simp: entry_key_def intro: position_eqI)

lemma scan_min:
  assumes "sorted_wrt (\<lambda>a b. cell_key a < cell_key b) (e # es)"
  shows "foldl better e es \<in> set (e # es) \<and>
    (\<forall>x \<in> set (e # es). entry_key (foldl better e es) \<le> entry_key x)"
  using assms
proof (induction es arbitrary: e)
  case Nil
  then show ?case by simp
next
  case (Cons x es)
  let ?b = "better e x"
  have b: "?b = (if snd x > snd e then x else e)"
    by (cases e; cases x) (simp add: better_def)
  have "sorted_wrt (\<lambda>a b. cell_key a < cell_key b) (?b # es)"
    using Cons.prems by (auto simp: b)
  from Cons.IH [OF this]
  have 1: "foldl better ?b es \<in> set (?b # es)"
    and 2: "\<forall>y \<in> set (?b # es). entry_key (foldl better ?b es) \<le> entry_key y"
    by auto
  have 3: "entry_key ?b \<le> entry_key e" "entry_key ?b \<le> entry_key x"
    using Cons.prems by (auto simp: b entry_key_le)
  from 1 2 3 show ?case
    by (auto simp: b split: if_splits intro: order_trans)
qed

lemma sorted_wrt_concat_rows:
  "sorted_wrt (\<lambda>a b. cell_key a < cell_key b)
     (concat (map (\<lambda>r. map (\<lambda>c. (Pos (int r) (int c), f r c)) [0..<n]) [0..<m]))"
proof (induction m)
  case 0
  then show ?case by simp
next
  case (Suc m)
  have "sorted_wrt (\<lambda>a b. cell_key a < cell_key b) (map (\<lambda>c. (Pos (int m) (int c), f m c)) [0..<n])"
    by (induction n) (auto simp: sorted_wrt_append cell_key_def)
  with Suc show ?case
    by (auto simp: sorted_wrt_append cell_key_def)
qed

lemma belief_entries_Cons:
  assumes "wf_belief n b"
  obtains e es where "belief_entries b = e # es"
    and "sorted_wrt (\<lambda>a b. cell_key a < cell_key b) (e # es)"
    and "\<forall>x \<in> set (e # es). 0 \<le> snd x"
proof -
  have sq: "square (nat n) (b_grid b)" and "0 < n"
    using assms by (auto simp: wf_belief_def nonneg_grid_def)
  then have "(Pos 0 0, b_grid b ! 0 ! 0) \<in> set (belief_entries b)"
    unfolding set_belief_entries [OF sq] by (intro exI [of _ 0]) auto
  then obtain e es where ees: "belief_entries b = e # es" by (cases "belief_entries b") auto
  moreover have "sorted_wrt (\<lambda>a b. cell_key a < cell_key b) (belief_entries b)"
    unfolding belief_entries_eq [OF sq] by (rule sorted_wrt_concat_rows)
  moreover have "\<forall>x \<in> set (belief_entries b). 0 \<le> snd x"
    using assms set_belief_entries [OF sq] by (auto simp: wf_belief_def nonneg_grid_def)
  ultimately show ?thesis using that by auto
qed

text \<open>Adding mass elsewhere leaves an empty cell empty.\<close>

definition clear_grid :: "int \<Rightarrow> nat \<Rightarrow> nat \<Rightarrow> real list list \<Rightarrow> bool" where
  "clear_grid n r c g \<longleftrightarrow> nonneg_grid (nat n) g \<and> g ! r ! c = 0"

lemma grid_add_clear:
  assumes "clear_grid n r c g" and "r < nat n" and "c < nat n"
    and "is_within q n" and "q \<noteq> Pos (int r) (int c)" and "0 \<le> x"
  shows "\<exists>g'. grid_add g q x = Inr g' \<and> clear_grid n r c g' \<and> grid_sum g' = grid_sum g + x"
proof -
  from assms(1) have I: "nonneg_grid (nat n) g" "g ! r ! c = 0" and sqg: "square (nat n) g"
    by (auto simp: clear_grid_def nonneg_grid_def)
  from grid_add_sum [OF I(1) assms(4,6)] obtain g' where g': "grid_add g q x = Inr g'"
    "nonneg_grid (nat n) g'" "grid_sum g' = grid_sum g + x" by blast
  have "\<not> (r = nat (row q) \<and> c = nat (col q))"
    using assms(4,5) by (auto simp: is_within_def intro: position_eqI)
  moreover from g'(1) have "g' = grid_set g (nat (row q)) (nat (col q)) (g ! nat (row q) ! nat (col q) + x)"
    by (simp add: grid_add_in [OF sqg assms(4)])
  ultimately have "g' ! r ! c = 0" using I(2) grid_set_nth [OF sqg assms(2,3)] by auto
  with g' show ?thesis by (auto simp: clear_grid_def)
qed

lemma concentrated_entry:
  assumes "r < nat n" and "c < nat n"
    and "e \<in> set (belief_entries \<lparr>b_size = n, b_grid = grid_set (const_grid (nat n) 0) r c 1\<rparr>)"
  shows "e = (Pos (int r) (int c), 1) \<or> fst e \<noteq> Pos (int r) (int c) \<and> snd e = 0"
proof -
  let ?b = "\<lparr>b_size = n, b_grid = grid_set (const_grid (nat n) 0) r c (1 :: real)\<rparr>"
  have sq: "square (nat n) (b_grid ?b)" by simp
  from assms(3) set_belief_entries [OF sq, of "fst e" "snd e"]
  obtain i j where "i < nat n" "j < nat n" "fst e = Pos (int i) (int j)" "snd e = b_grid ?b ! i ! j"
    by auto
  then show ?thesis by (cases e) (auto simp: grid_set_nth [of "nat n"])
qed

lemma adjacent_cells_nonempty:
  assumes "2 \<le> board_size brd" and "is_within p (board_size brd)"
  shows "adjacent_cells brd p \<noteq> []"
proof -
  have "Pos (if row p = 0 then 1 else row p - 1) (col p) \<in> set (adjacent_cells brd p)"
    using assms by (auto simp: set_adjacent_cells is_in_bounds_def is_within_def)
  then show ?thesis by auto
qed

section \<open>Properties\<close>

lemma update_belief_wf:
  assumes "wf_belief n b" and "board_size brd = n" and "trust_ok t"
    and "\<And>sc. scent = Some sc \<Longrightarrow> nonneg_grid (nat n) (sf_grid sc)"
    and "\<And>region p. hint = Some region \<Longrightarrow> p \<in> set region \<Longrightarrow> is_within p n"
  shows "\<exists>b' t'. update_belief b brd scent hint t = Inr (b', t') \<and> wf_belief n b' \<and> trust_ok t'"
proof -
  have t: "0 \<le> t" using assms(3) by (simp add: trust_ok_def)
  obtain b1 where b1: "apply_transition b (adjacent_cells brd) = Inr b1" "wf_belief n b1"
    using apply_transition_wf [OF assms(1)] adjacent_within assms(2) by metis
  obtain b2 where b2: "apply_barrier_mask b1 (barriers brd) = Inr b2" "wf_belief n b2"
    using apply_barrier_mask_wf [OF b1(2)] by metis
  obtain b3 where b3: "wf_belief n b3"
    "(case scent of None \<Rightarrow> Inr b2 | Some sc \<Rightarrow> apply_scent_likelihood b2 sc 1) = Inr b3"
    using b2(2) apply_scent_likelihood_wf [OF b2(2), of 1] assms(4) by (cases scent) auto
  show ?thesis
  proof (cases hint)
    case None
    with b1 b2 b3 assms(3) show ?thesis by (simp add: update_belief_def)
  next
    case (Some region)
    obtain b4 where "apply_hint_likelihood b3 (Some region) t = Inr b4" "wf_belief n b4"
      using apply_hint_likelihood_wf [OF b3(1) t] assms(5) [OF Some] by metis
    with Some b1 b2 b3 assms(3) show ?thesis
      by (simp add: update_belief_def update_hint_trust_ok)
  qed
qed

text \<open>
  C20. One turn's belief update never raises and yields a probability distribution over the
  board again, and the hint trust stays between its floor and its ceiling, whatever the
  barriers, the opponent's (validated) scent and the hint's region are.
\<close>

theorem update_belief_distribution:
  assumes "wf_belief n b" and "board_size brd = n" and "trust_ok t"
    and "\<And>sc. scent = Some sc \<Longrightarrow> nonneg_grid (nat n) (sf_grid sc)"
    and "\<And>region p. hint = Some region \<Longrightarrow> p \<in> set region \<Longrightarrow> is_within p n"
  shows "\<exists>b' t'. update_belief b brd scent hint t = Inr (b', t') \<and> wf_belief n b' \<and> trust_ok t'"
  using assms by (rule update_belief_wf)

theorem update_belief_distribution_witness:
  "\<exists>b0 b' t'. uniform_prior 3 {Pos 1 1} = Inr b0 \<and>
     update_belief b0 \<lparr>board_size = 3, barriers = {Pos 1 1}\<rparr>
       (Some (apply_turn (empty_scent_field 3) (Pos 0 0) BINDING_DECAY))
       (Some [Pos 0 0, Pos 0 1, Pos 0 2]) (1 / 2) = Inr (b', t') \<and> wf_belief 3 b' \<and> trust_ok t'"
proof -
  have "nonneg_grid 3 (tab (nat 3) (\<lambda>r c. if Pos (int r) (int c) \<in> {Pos 1 1} then 0 else 1))"
    by (auto simp: nonneg_grid_def)
  then obtain b0 where b0: "uniform_prior 3 {Pos 1 1} = Inr b0" "wf_belief 3 b0"
    unfolding uniform_prior_def using normalize_grid_wf [of 3] by (metis nat_numeral zero_less_numeral)
  have sc: "nonneg_grid (nat 3) (sf_grid (apply_turn (empty_scent_field 3) p BINDING_DECAY))" for p
    using scent_ok_apply_turn [OF scent_ok_empty, of 3 p] by (auto simp: nonneg_grid_def scent_ok_def)
  have "is_within p 3" if "Some [Pos 0 0, Pos 0 1, Pos 0 2] = Some rg" and "p \<in> set rg" for rg p
    using that by (auto simp: is_within_def)
  with update_belief_distribution [OF b0(2), of "\<lparr>board_size = 3, barriers = {Pos 1 1}\<rparr>" "1 / 2"
      "Some (apply_turn (empty_scent_field 3) (Pos 0 0) BINDING_DECAY)" "Some [Pos 0 0, Pos 0 1, Pos 0 2]"]
  show ?thesis
    using b0(1) sc by (auto simp: trust_ok_def)
qed

text \<open>
  \<open>most_likely\<close> and \<open>top_k\<close> agree: on every distribution the scan returns the first
  entry of the sorted list, ties included.
\<close>

lemma most_likely_is_top:
  assumes "wf_belief n b" and "0 < k"
  shows "fst (hd (top_k b k)) = most_likely b"
proof -
  obtain e es where ees: "belief_entries b = e # es"
    and so: "sorted_wrt (\<lambda>a b. cell_key a < cell_key b) (e # es)"
    and nn: "\<forall>x \<in> set (e # es). 0 \<le> snd x"
    by (rule belief_entries_Cons [OF assms(1)])
  let ?m = "foldl better e es"
  have "better (Pos 0 0, -1) e = e"
    using nn by (cases e) (auto simp: better_def)
  then have ml: "most_likely b = fst ?m"
    by (simp add: most_likely_def better_def [symmetric] ees)
  obtain s ss where s: "sort_key entry_key (e # es) = s # ss"
    by (metis length_sort length_0_conv list.distinct(1) neq_Nil_conv)
  have "sorted (map entry_key (s # ss))" by (metis s sorted_sort_key)
  moreover have set: "set (s # ss) = set (e # es)" by (metis s set_sort)
  ultimately have "\<forall>x \<in> set (e # es). entry_key s \<le> entry_key x"
    by (metis (mono_tags, lifting) image_eqI list.set_map list.simps(9) order_refl set_ConsD sorted_simps(2))
  with scan_min [OF so] set have "entry_key s = entry_key ?m"
    by (metis list.set_intros(1) order_antisym)
  moreover have "hd (top_k b k) = s"
    unfolding top_k_def py_take_def ees s using assms(2) by (simp add: take_Cons')
  ultimately show ?thesis by (simp add: ml entry_key_inject)
qed

text \<open>
  Masking removes all belief from the barriers: unless no mass was left elsewhere (then
  the board is uniform again), a barrier cell has probability zero afterwards.
\<close>

lemma barrier_mask_zero:
  assumes "wf_belief n b" and "r < nat n" and "c < nat n" and "Pos (int r) (int c) \<in> bars"
    and "apply_barrier_mask b bars = Inr b'"
  shows "b_grid b' ! r ! c = 0 \<or> b_grid b' = const_grid (nat n) (1 / of_int (n * n))"
proof -
  let ?raw = "grid_imap (\<lambda>r c p. if Pos (int r) (int c) \<in> bars then 0 else p) (b_grid b)"
  have sq: "square (nat n) (b_grid b)" and "b_size b = n"
    using assms(1) by (auto simp: wf_belief_def nonneg_grid_def)
  moreover have "?raw ! r ! c = 0"
    using assms(4) by (subst grid_imap_nth [OF sq assms(2,3)]) simp
  then have "map (map (\<lambda>v. v / t)) ?raw ! r ! c = 0" for t
    using assms(2,3) sq by (subst map_map_nth [of "nat n"]) auto
  ultimately show ?thesis
    using assms(5) unfolding apply_barrier_mask_def normalize_grid_def
    by (auto simp: Let_def split: if_splits)
qed

text \<open>
  The prediction step only ever moves the opponent: it spreads a cell over its orthogonal
  neighbours, so an opponent known to be at a cell is given probability zero there after one
  turn, although staying is a legal move.
\<close>

lemma transition_never_stays:
  assumes "2 \<le> n" and "r < nat n" and "c < nat n" and "board_size brd = n"
  shows "\<exists>b'. apply_transition \<lparr>b_size = n, b_grid = grid_set (const_grid (nat n) 0) r c 1\<rparr>
           (adjacent_cells brd) = Inr b' \<and> b_grid b' ! r ! c = 0"
proof -
  let ?b = "\<lparr>b_size = n, b_grid = grid_set (const_grid (nat n) 0) r c 1\<rparr>"
  let ?p = "Pos (int r) (int c)"
  let ?z = "const_grid (nat n) (0 :: real)"
  let ?succ = "adjacent_cells brd ?p"
  have succ: "?succ \<noteq> []"
    using assms by (intro adjacent_cells_nonempty) (auto simp: is_within_def)
  have cell: "\<exists>g'. spread_cell (adjacent_cells brd) g e = Inr g' \<and> clear_grid n r c g' \<and>
      grid_sum g' = grid_sum g + snd e"
    if I: "clear_grid n r c g" and e: "e \<in> set (belief_entries ?b)" for g e
    using concentrated_entry [OF assms(2,3) e]
  proof
    assume e1: "e = (?p, 1)"
    have "\<exists>g'. rfold (\<lambda>raw q. grid_add raw q (1 / real (length ?succ))) g ?succ = Inr g' \<and>
        clear_grid n r c g' \<and> grid_sum g' = grid_sum g + sum_list (map (\<lambda>_. 1 / real (length ?succ)) ?succ)"
      using adjacent_within self_not_adjacent assms(2-4)
      by (intro rfold_sum I grid_add_clear) auto
    with succ show ?thesis by (simp add: e1 spread_cell_def Let_def sum_list_triv)
  next
    assume "fst e \<noteq> ?p \<and> snd e = 0"
    with I show ?thesis by (cases e) (simp add: spread_cell_def)
  qed
  have "\<exists>raw. rfold (spread_cell (adjacent_cells brd)) ?z (belief_entries ?b) = Inr raw \<and>
      clear_grid n r c raw \<and> grid_sum raw = grid_sum ?z + sum_list (map snd (belief_entries ?b))"
    using assms(2,3) by (intro rfold_sum cell) (auto simp: clear_grid_def nonneg_grid_def)
  moreover have "sum_list (map snd (belief_entries ?b)) = 1"
    using assms(2,3) by (simp add: sum_belief_entries [of "nat n"] grid_sum_grid_set [of "nat n"] grid_sum_const)
  ultimately obtain raw where raw: "rfold (spread_cell (adjacent_cells brd)) ?z (belief_entries ?b) = Inr raw"
    "raw ! r ! c = 0" "grid_sum raw = 1" by (auto simp: grid_sum_const clear_grid_def)
  then have "normalize_grid n raw = Inr \<lparr>b_size = n, b_grid = map (map (\<lambda>v. v / 1)) raw\<rparr>"
    by (simp add: normalize_grid_def)
  with raw show ?thesis by (simp add: apply_transition_def)
qed

end
