(* ===== verification/Hints.thy ===== *)
theory Hints
  imports Belief
begin

text \<open>
  Verbal hints: \<^verbatim>\<open>domain/hints.py\<close>, the region words of \<^verbatim>\<open>domain/hint_region.py\<close> and the
  templates of \<^verbatim>\<open>strategy/hint_templates.py\<close>. A draw of the random generator is an explicit
  index; \<^verbatim>\<open>rng.choice(xs)\<close> is \<open>choice i xs\<close>.
\<close>

section \<open>Text\<close>

definition choice :: "nat \<Rightarrow> 'a list \<Rightarrow> 'a" where
  "choice i xs = xs ! (i mod length xs)"

lemma choice_mem: "xs \<noteq> [] \<Longrightarrow> choice i xs \<in> set xs"
  by (simp add: choice_def)

definition lower_char :: "char \<Rightarrow> char" where
  "lower_char c =
     (case map_of (zip ''ABCDEFGHIJKLMNOPQRSTUVWXYZ'' ''abcdefghijklmnopqrstuvwxyz'') c of
        Some d \<Rightarrow> d | None \<Rightarrow> c)"

lemma lower_char_code [code]:
  "lower_char (Char b0 b1 b2 b3 b4 b5 b6 b7) =
     (if b6 \<and> \<not> b7 \<and> \<not> b5 \<and> (b0 \<or> b1 \<or> b2 \<or> b3 \<or> b4) \<and> \<not> (b4 \<and> b3 \<and> (b2 \<or> b1 \<and> b0))
      then Char b0 b1 b2 b3 b4 True b6 b7 else Char b0 b1 b2 b3 b4 b5 b6 b7)"
  unfolding lower_char_def
  by (cases b0; cases b1; cases b2; cases b3; cases b4; cases b5; cases b6; cases b7; simp)

definition lower :: "string \<Rightarrow> string" where
  "lower = map lower_char"

text \<open>\<^verbatim>\<open>word in text\<close>.\<close>

fun starts_with :: "string \<Rightarrow> string \<Rightarrow> bool" where
  "starts_with [] s = True"
| "starts_with (c # w) [] = False"
| "starts_with (c # w) (d # s) = (c = d \<and> starts_with w s)"

fun contains :: "string \<Rightarrow> string \<Rightarrow> bool" where
  "contains w [] = (w = [])"
| "contains w (c # s) = (starts_with w (c # s) \<or> contains w s)"

text \<open>\<^verbatim>\<open>text.split()\<close> and \<^verbatim>\<open>" ".join(words)\<close>.\<close>

definition is_space :: "char \<Rightarrow> bool" where
  "is_space c \<longleftrightarrow> c \<in> set [CHR '' '', CHR 0x09, CHR 0x0A, CHR 0x0B, CHR 0x0C, CHR 0x0D,
     CHR 0x1C, CHR 0x1D, CHR 0x1E, CHR 0x1F, CHR 0x85, CHR 0xA0]"

definition push_word :: "string \<Rightarrow> string list \<Rightarrow> string list" where
  "push_word w ws = (if w = [] then ws else w # ws)"

fun split_from :: "string \<Rightarrow> string \<Rightarrow> string list" where
  "split_from w [] = push_word w []"
| "split_from w (c # s) =
     (if is_space c then push_word w (split_from [] s) else split_from (w @ [c]) s)"

definition split_words :: "string \<Rightarrow> string list" where
  "split_words s = split_from [] s"

fun join_words :: "string list \<Rightarrow> string" where
  "join_words [] = []"
| "join_words [w] = w"
| "join_words (w # ws) = w @ '' '' @ join_words ws"

section \<open>Hints and regions\<close>

datatype hint_intent = TRUTH | LIE

record hint =
  hint_text :: string
  intent :: hint_intent

definition word_count :: "hint \<Rightarrow> int" where
  "word_count h = int (length (split_words (hint_text h)))"

definition within_word_limit :: "hint \<Rightarrow> int \<Rightarrow> bool" where
  "within_word_limit h max_words \<longleftrightarrow> word_count h \<le> max_words"

definition REGIONS :: "string list" where
  "REGIONS = [''northern'', ''southern'', ''eastern'', ''western'', ''central'']"

fun region_for_direction :: "direction \<Rightarrow> string" where
  "region_for_direction N = ''northern''"
| "region_for_direction S = ''southern''"
| "region_for_direction E = ''eastern''"
| "region_for_direction W = ''western''"
| "region_for_direction STAY = ''central''"

definition false_region_for_direction :: "direction \<Rightarrow> nat \<Rightarrow> string" where
  "false_region_for_direction d draw =
     choice draw (filter (\<lambda>r. r \<noteq> region_for_direction d) REGIONS)"

definition region_for_intent :: "direction \<Rightarrow> hint_intent \<Rightarrow> nat \<Rightarrow> string" where
  "region_for_intent d it draw =
     (if it = TRUTH then region_for_direction d else false_region_for_direction d draw)"

definition parse_region_from_hint :: "string \<Rightarrow> string option" where
  "parse_region_from_hint text = List.find (\<lambda>word. contains word (lower text)) REGIONS"

text \<open>\<^verbatim>\<open>range(lo, hi)\<close> on each axis; the order is that of the generator expression.\<close>

definition rect :: "int \<Rightarrow> int \<Rightarrow> int \<Rightarrow> int \<Rightarrow> position list" where
  "rect r_lo r_hi c_lo c_hi =
     concat (map (\<lambda>r. map (\<lambda>c. Pos r c) [c_lo .. c_hi - 1]) [r_lo .. r_hi - 1])"

definition region_cells :: "string \<Rightarrow> int \<Rightarrow> position list" where
  "region_cells region n =
     (let third = max 1 (n div 3)
      in if region = ''northern'' then rect 0 third 0 n
         else if region = ''southern'' then rect (n - third) n 0 n
         else if region = ''western'' then rect 0 n 0 third
         else if region = ''eastern'' then rect 0 n (n - third) n
         else if region = ''central'' then
           (let cells = rect third (n - third) third (n - third)
            in if cells \<noteq> [] then cells else [Pos (n div 2) (n div 2)])
         else [])"

section \<open>Templates\<close>

definition TRUTHFUL_TEMPLATES :: "string list" where
  "TRUTHFUL_TEMPLATES =
    [''I am drifting toward the {region} districts now.'',
     ''The {region} routes look like my best way out.'',
     ''My path bends into the {region} quarter of the map.'',
     ''The {region} streets are calling me this turn.'',
     ''I lean toward the {region} avenues from here.'',
     ''Expect me somewhere along the {region} corridors.'']"

definition DECEPTIVE_TEMPLATES :: "string list" where
  "DECEPTIVE_TEMPLATES =
    [''The {region} plazas feel far too exposed to risk.'',
     ''I would never waste a move on the {region} alleys.'',
     ''Forget the {region} boulevards; they lead nowhere useful.'',
     ''The {region} market district is the last place I'd go.'',
     ''Nothing draws me toward the {region} waterfront today.'',
     ''I am steering well clear of the {region} rooftops.'']"

text \<open>\<^verbatim>\<open>template.format(region=region)\<close>, for templates whose only field is \<^verbatim>\<open>region\<close>.\<close>

function format_region :: "string \<Rightarrow> string \<Rightarrow> string" where
  "format_region region [] = []"
| "format_region region (c # s) =
     (if starts_with ''{region}'' (c # s) then region @ format_region region (drop 7 s)
      else c # format_region region s)"
  by pat_completeness auto
termination by (relation "measure (length \<circ> snd)") auto

definition clamp_words :: "int \<Rightarrow> string \<Rightarrow> string" where
  "clamp_words max_words text =
     (let ws = split_words text
      in if int (length ws) \<le> max_words then text else join_words (py_take max_words ws))"

text \<open>The two draws of \<^verbatim>\<open>generate\<close>: the region when none is given, and the template.\<close>

definition generate :: "int \<Rightarrow> hint_intent \<Rightarrow> string option \<Rightarrow> nat \<Rightarrow> nat \<Rightarrow> string" where
  "generate max_words it region draw_region draw_template =
     (let pool = (if it = TRUTH then TRUTHFUL_TEMPLATES else DECEPTIVE_TEMPLATES);
          chosen_region = (case region of
              Some r \<Rightarrow> if r \<in> set REGIONS then r else choice draw_region REGIONS
            | None \<Rightarrow> choice draw_region REGIONS)
      in clamp_words max_words (format_region chosen_region (choice draw_template pool)))"

definition generate_for_direction :: "int \<Rightarrow> hint_intent \<Rightarrow> direction \<Rightarrow> nat \<Rightarrow> nat \<Rightarrow> string" where
  "generate_for_direction max_words it d draw_region draw_template =
     generate max_words it (Some (region_for_intent d it draw_region)) draw_region draw_template"

section \<open>Every template carries its region word\<close>

lemma templates_parse:
  "list_all (\<lambda>t. list_all (\<lambda>r. parse_region_from_hint (format_region r t) = Some r \<and>
        length (split_words (format_region r t)) \<le> 15) REGIONS)
     (TRUTHFUL_TEMPLATES @ DECEPTIVE_TEMPLATES)"
  by code_simp

lemma template_facts:
  assumes "t \<in> set (TRUTHFUL_TEMPLATES @ DECEPTIVE_TEMPLATES)" and "r \<in> set REGIONS"
  shows "parse_region_from_hint (format_region r t) = Some r"
    and "length (split_words (format_region r t)) \<le> 15"
  using templates_parse assms by (auto simp: list_all_iff)

lemma generate_Some:
  assumes "15 \<le> max_words" and "r \<in> set REGIONS"
  shows "parse_region_from_hint (generate max_words it (Some r) i j) = Some r"
    and "length (split_words (generate max_words it (Some r) i j)) \<le> 15"
proof -
  let ?pool = "if it = TRUTH then TRUTHFUL_TEMPLATES else DECEPTIVE_TEMPLATES"
  have "choice j ?pool \<in> set ?pool"
    by (rule choice_mem) (simp add: TRUTHFUL_TEMPLATES_def DECEPTIVE_TEMPLATES_def)
  then have t: "choice j ?pool \<in> set (TRUTHFUL_TEMPLATES @ DECEPTIVE_TEMPLATES)"
    by (auto split: if_splits)
  then have "generate max_words it (Some r) i j = format_region r (choice j ?pool)"
    using template_facts(2) [OF t assms(2)] assms
    by (simp add: generate_def clamp_words_def Let_def)
  then show "parse_region_from_hint (generate max_words it (Some r) i j) = Some r"
    and "length (split_words (generate max_words it (Some r) i j)) \<le> 15"
    using template_facts [OF t assms(2)] by simp_all
qed

lemma region_for_direction_mem: "region_for_direction d \<in> set REGIONS"
  by (cases d) (simp_all add: REGIONS_def)

lemma false_region:
  "false_region_for_direction d i \<in> set REGIONS \<and> false_region_for_direction d i \<noteq> region_for_direction d"
proof -
  have "filter (\<lambda>r. r \<noteq> region_for_direction d) REGIONS \<noteq> []"
    by (cases d) (simp_all add: REGIONS_def)
  from choice_mem [OF this] show ?thesis by (simp add: false_region_for_direction_def)
qed

lemma set_rect: "Pos r c \<in> set (rect r_lo r_hi c_lo c_hi) \<longleftrightarrow>
    r_lo \<le> r \<and> r < r_hi \<and> c_lo \<le> c \<and> c < c_hi"
  by (force simp: rect_def)

lemma mem_rect: "p \<in> set (rect r_lo r_hi c_lo c_hi) \<longleftrightarrow>
    r_lo \<le> row p \<and> row p < r_hi \<and> c_lo \<le> col p \<and> col p < c_hi"
  using set_rect [of "row p" "col p"] by simp

lemma distinct_rect: "distinct (rect a b c d)"
proof -
  have "distinct (concat (map (\<lambda>r. map (Pos r) [c .. d - 1]) rs))" if "distinct rs" for rs
    using that by (induction rs) (auto simp: distinct_map inj_on_def)
  then show ?thesis by (simp add: rect_def)
qed

section \<open>Properties\<close>

text \<open>
  C32. What a hint says is what its receiver decodes: whatever template and region the draws
  pick, the text stays within fifteen words and parses back to a region word, and that word
  is the true region of the move exactly when the declared intent is truth.
\<close>

theorem hint_roundtrip:
  assumes "15 \<le> max_words"
  shows "\<exists>w. parse_region_from_hint (generate_for_direction max_words it d i j) = Some w \<and>
           w \<in> set REGIONS \<and> (w = region_for_direction d \<longleftrightarrow> it = TRUTH) \<and>
           within_word_limit \<lparr>hint_text = generate_for_direction max_words it d i j, intent = it\<rparr> max_words"
proof -
  let ?w = "region_for_intent d it i"
  have w: "?w \<in> set REGIONS" "?w = region_for_direction d \<longleftrightarrow> it = TRUTH"
    using region_for_direction_mem [of d] false_region [of d i] by (auto simp: region_for_intent_def)
  show ?thesis
    using generate_Some [OF assms w(1), of it i j] w assms
    by (auto simp: generate_for_direction_def within_word_limit_def word_count_def)
qed

theorem hint_roundtrip_witness:
  "\<exists>w. parse_region_from_hint (generate_for_direction 15 LIE N 2 4) = Some w \<and> w \<noteq> ''northern''"
  using hint_roundtrip [of 15 LIE N 2 4] by auto

lemma region_cells_cover_lemma:
  assumes "0 < n"
  shows "(\<Union>w \<in> set REGIONS. set (region_cells w n)) = {p. is_within p n} \<and>
         list_all (\<lambda>w. region_cells w n \<noteq> [] \<and> distinct (region_cells w n)) REGIONS"
proof
  define t where "t = max 1 (n div 3)"
  have t: "1 \<le> t" "t \<le> n" "0 \<le> n div 2" "n div 2 < n" using assms by (auto simp: t_def)
  note regions = region_cells_def Let_def t_def [symmetric] REGIONS_def
  show "(\<Union>w \<in> set REGIONS. set (region_cells w n)) = {p. is_within p n}"
  proof (intro equalityI subsetI)
    fix p assume "p \<in> (\<Union>w \<in> set REGIONS. set (region_cells w n))"
    with t show "p \<in> {p. is_within p n}"
      unfolding regions by (auto simp: mem_rect is_within_def split: if_splits)
  next
    fix p assume p: "p \<in> {p. is_within p n}"
    then have "p \<in> set (rect 0 t 0 n) \<or> p \<in> set (rect (n - t) n 0 n) \<or> p \<in> set (rect 0 n 0 t) \<or>
        p \<in> set (rect 0 n (n - t) n) \<or> p \<in> set (rect t (n - t) t (n - t))"
      by (auto simp: mem_rect is_within_def)
    then show "p \<in> (\<Union>w \<in> set REGIONS. set (region_cells w n))"
      unfolding regions by auto
  qed
  have ne: "rect a b c d \<noteq> []" if "a < b" "c < d" for a b c d
    using that set_rect [of a c a b c d] by auto
  show "list_all (\<lambda>w. region_cells w n \<noteq> [] \<and> distinct (region_cells w n)) REGIONS"
    using t ne [of 0 t 0 n] ne [of "n - t" n 0 n] ne [of 0 n 0 t] ne [of 0 n "n - t" n]
    unfolding regions by (auto simp: distinct_rect)
qed

lemma region_cells_within:
  assumes "0 < n" and "w \<in> set REGIONS" and "p \<in> set (region_cells w n)"
  shows "is_within p n"
  using region_cells_cover_lemma [OF assms(1)] assms(2,3) by blast

text \<open>
  The five regions are non-empty sets of cells of the board, without repetition, and
  together they cover it.
\<close>

lemma region_cells_cover:
  assumes "0 < n"
  shows "(\<Union>w \<in> set REGIONS. set (region_cells w n)) = {p. is_within p n} \<and>
         list_all (\<lambda>w. region_cells w n \<noteq> [] \<and> distinct (region_cells w n)) REGIONS"
  using region_cells_cover_lemma [OF assms] .

end
