(* ===== verification/StateMachine.thy ===== *)
theory StateMachine
  imports Prelude
begin

text \<open>
  The peer's lifecycle machine (\<^verbatim>\<open>domain/state_machine/states.py\<close>, \<^verbatim>\<open>events.py\<close>,
  \<^verbatim>\<open>transitions.py\<close>, \<^verbatim>\<open>machine.py\<close>): states, events, the transition table with its guard, the
  pure resolution and the machine with its append-only log.
\<close>

section \<open>States and events\<close>

datatype peer_state =
    INITIALIZING | SERVER_READY | NEGOTIATING | SIGNED | WAITING | THINKING | COMMITTING
  | WAITING_FOR_ACK | REVEALING | VERIFYING | SUB_GAME_OVER | AUDITING | SERIES_COMPLETE
  | ERROR | QUIT

fun state_value :: "peer_state \<Rightarrow> string" where
  "state_value INITIALIZING = ''initializing''"
| "state_value SERVER_READY = ''server_ready''"
| "state_value NEGOTIATING = ''negotiating''"
| "state_value SIGNED = ''signed''"
| "state_value WAITING = ''waiting''"
| "state_value THINKING = ''thinking''"
| "state_value COMMITTING = ''committing''"
| "state_value WAITING_FOR_ACK = ''waiting_for_ack''"
| "state_value REVEALING = ''revealing''"
| "state_value VERIFYING = ''verifying''"
| "state_value SUB_GAME_OVER = ''sub_game_over''"
| "state_value AUDITING = ''auditing''"
| "state_value SERIES_COMPLETE = ''series_complete''"
| "state_value ERROR = ''error''"
| "state_value QUIT = ''quit''"

definition TERMINAL_STATES :: "peer_state list" where
  "TERMINAL_STATES = [SERIES_COMPLETE, QUIT]"

datatype event_kind =
    SERVER_STARTED | BEGIN_NEGOTIATION | TERMS_SIGNED | SUB_GAME_START | BEGIN_TURN
  | MOVE_DECIDED | COMMIT_SENT | ACK_RECEIVED | REVEAL_SENT | TURN_VERIFIED | SUB_GAME_ENDED
  | BEGIN_AUDIT | NEXT_SUB_GAME | SERIES_AUDIT_DONE | ERROR_OCCURRED | QUIT_REQUESTED

fun kind_value :: "event_kind \<Rightarrow> string" where
  "kind_value SERVER_STARTED = ''server_started''"
| "kind_value BEGIN_NEGOTIATION = ''begin_negotiation''"
| "kind_value TERMS_SIGNED = ''terms_signed''"
| "kind_value SUB_GAME_START = ''sub_game_start''"
| "kind_value BEGIN_TURN = ''begin_turn''"
| "kind_value MOVE_DECIDED = ''move_decided''"
| "kind_value COMMIT_SENT = ''commit_sent''"
| "kind_value ACK_RECEIVED = ''ack_received''"
| "kind_value REVEAL_SENT = ''reveal_sent''"
| "kind_value TURN_VERIFIED = ''turn_verified''"
| "kind_value SUB_GAME_ENDED = ''sub_game_ended''"
| "kind_value BEGIN_AUDIT = ''begin_audit''"
| "kind_value NEXT_SUB_GAME = ''next_sub_game''"
| "kind_value SERIES_AUDIT_DONE = ''series_audit_done''"
| "kind_value ERROR_OCCURRED = ''error_occurred''"
| "kind_value QUIT_REQUESTED = ''quit_requested''"

record transition_event =
  ev_kind :: event_kind
  ev_detail :: string

definition Event :: "event_kind \<Rightarrow> string \<Rightarrow> transition_event" where
  "Event k d = \<lparr>ev_kind = k, ev_detail = d\<rparr>"

lemma Event_sel [simp]: "ev_kind (Event k d) = k" "ev_detail (Event k d) = d"
  by (simp_all add: Event_def)

section \<open>The table and its resolution\<close>

text \<open>The dicts of the table and of the guards, keyed by state and event kind.\<close>

definition TRANSITIONS :: "((peer_state \<times> event_kind) \<times> peer_state) list" where
  "TRANSITIONS =
    [((INITIALIZING, SERVER_STARTED), SERVER_READY),
     ((SERVER_READY, BEGIN_NEGOTIATION), NEGOTIATING),
     ((NEGOTIATING, TERMS_SIGNED), SIGNED),
     ((SIGNED, SUB_GAME_START), WAITING),
     ((WAITING, BEGIN_TURN), THINKING),
     ((THINKING, MOVE_DECIDED), COMMITTING),
     ((COMMITTING, COMMIT_SENT), WAITING_FOR_ACK),
     ((WAITING_FOR_ACK, ACK_RECEIVED), REVEALING),
     ((REVEALING, REVEAL_SENT), VERIFYING),
     ((VERIFYING, TURN_VERIFIED), WAITING),
     ((VERIFYING, SUB_GAME_ENDED), SUB_GAME_OVER),
     ((SUB_GAME_OVER, BEGIN_AUDIT), AUDITING),
     ((AUDITING, NEXT_SUB_GAME), WAITING),
     ((AUDITING, SERIES_AUDIT_DONE), SERIES_COMPLETE)]"

definition GUARDS :: "((peer_state \<times> event_kind) \<times> (transition_event \<Rightarrow> bool)) list" where
  "GUARDS = [((NEGOTIATING, TERMS_SIGNED), \<lambda>e. ev_detail e \<noteq> [])]"

definition resolve :: "peer_state \<Rightarrow> transition_event \<Rightarrow> peer_state option \<times> string" where
  "resolve s e =
     (if s \<in> set TERMINAL_STATES then
        (None, state_value s @ '' is terminal; no transition on '' @ kind_value (ev_kind e))
      else if ev_kind e = ERROR_OCCURRED then
        (if s = ERROR then (None, ''already in ERROR'') else (Some ERROR, []))
      else if ev_kind e = QUIT_REQUESTED then (Some QUIT, [])
      else if s = ERROR then (None, ''ERROR only permits QUIT, not '' @ kind_value (ev_kind e))
      else case map_of TRANSITIONS (s, ev_kind e) of
        None \<Rightarrow> (None, ''no transition from '' @ state_value s @ '' on '' @ kind_value (ev_kind e))
      | Some target \<Rightarrow>
          (case map_of GUARDS (s, ev_kind e) of
             Some guard \<Rightarrow>
               (if \<not> guard e then
                  (None, ''guard rejected '' @ kind_value (ev_kind e) @ '' from '' @ state_value s)
                else (Some target, []))
           | None \<Rightarrow> (Some target, [])))"

section \<open>The machine\<close>

record transition_log =
  index :: nat
  from_state :: peer_state
  log_event :: transition_event
  to_state :: "peer_state option"
  accepted :: bool
  reason :: string
  at_seq :: nat

record machine =
  m_state :: peer_state
  m_history :: "transition_log list"

definition new_machine :: "peer_state \<Rightarrow> machine" where
  "new_machine initial = \<lparr>m_state = initial, m_history = []\<rparr>"

definition can_apply :: "machine \<Rightarrow> transition_event \<Rightarrow> bool" where
  "can_apply m e \<longleftrightarrow> fst (resolve (m_state m) e) \<noteq> None"

text \<open>
  The record is appended before the exception is raised. The sequence number is the default
  one, the length of the history.
\<close>

definition apply_event :: "transition_event \<Rightarrow> (machine, peer_state) eff" where
  "apply_event e m =
     (let (target, why) = resolve (m_state m) e;
          record = \<lparr>index = length (m_history m), from_state = m_state m, log_event = e,
                    to_state = target, accepted = (target \<noteq> None), reason = why,
                    at_seq = length (m_history m)\<rparr>;
          m1 = m\<lparr>m_history := m_history m @ [record]\<rparr>
      in case target of
           None \<Rightarrow> (m1, Inl (IllegalTransitionError why))
         | Some t \<Rightarrow> (m1\<lparr>m_state := t\<rparr>, Inr t))"

definition force_error :: "string \<Rightarrow> (machine, peer_state) eff" where
  "force_error detail = apply_event (Event ERROR_OCCURRED detail)"

section \<open>Facts about the table\<close>

lemma TRANSITIONS_Some:
  assumes "map_of TRANSITIONS (s, k) = Some t"
  shows "t \<noteq> INITIALIZING \<and> t \<noteq> s \<and> s \<noteq> ERROR \<and> s \<notin> set TERMINAL_STATES"
  using map_of_SomeD [OF assms] by (auto simp: TRANSITIONS_def TERMINAL_STATES_def)

lemma TRANSITIONS_AUDITING: "map_of TRANSITIONS (s, k) = Some AUDITING \<longleftrightarrow> s = SUB_GAME_OVER \<and> k = BEGIN_AUDIT"
  by (auto simp: TRANSITIONS_def dest!: map_of_SomeD)

lemma TRANSITIONS_SUB_GAME_OVER:
  "map_of TRANSITIONS (s, k) = Some SUB_GAME_OVER \<longleftrightarrow> s = VERIFYING \<and> k = SUB_GAME_ENDED"
  by (auto simp: TRANSITIONS_def dest!: map_of_SomeD)

lemma resolve_Some_iff:
  "fst (resolve s e) = Some t \<longleftrightarrow>
     s \<notin> set TERMINAL_STATES \<and>
     (ev_kind e = ERROR_OCCURRED \<and> s \<noteq> ERROR \<and> t = ERROR \<or>
      ev_kind e = QUIT_REQUESTED \<and> t = QUIT \<or>
      ev_kind e \<noteq> ERROR_OCCURRED \<and> ev_kind e \<noteq> QUIT_REQUESTED \<and> s \<noteq> ERROR \<and>
        map_of TRANSITIONS (s, ev_kind e) = Some t \<and>
        (case map_of GUARDS (s, ev_kind e) of None \<Rightarrow> True | Some g \<Rightarrow> g e))"
  by (auto simp: resolve_def split: option.splits)

lemma resolve_reason: "fst (resolve s e) = Some t \<Longrightarrow> snd (resolve s e) = []"
  by (auto simp: resolve_def split: option.splits if_splits)

lemma apply_event_state:
  "apply_event e m = (m', r) \<Longrightarrow>
     (case r of Inr t \<Rightarrow> fst (resolve (m_state m) e) = Some t \<and> m_state m' = t
      | Inl x \<Rightarrow> fst (resolve (m_state m) e) = None \<and> m_state m' = m_state m \<and>
                 x = IllegalTransitionError (snd (resolve (m_state m) e)))"
  by (auto simp: apply_event_def Let_def split: option.splits prod.splits)

text \<open>The table restricted to what drives it, for the callers' proofs.\<close>

lemma apply_event_ok:
  "fst (resolve (m_state m) e) = Some t \<Longrightarrow>
     \<exists>h. apply_event e m = (\<lparr>m_state = t, m_history = m_history m @ [h]\<rparr>, Inr t)"
  by (cases m) (auto simp: apply_event_def Let_def split: prod.splits)

section \<open>Reachability\<close>

inductive lifecycle_step :: "peer_state \<Rightarrow> peer_state \<Rightarrow> bool" where
  step: "fst (resolve s e) = Some t \<Longrightarrow> lifecycle_step s t"

inductive_cases lifecycle_stepE: "lifecycle_step s t"
inductive_simps lifecycle_step_iff: "lifecycle_step s t"

inductive lifecycle :: "peer_state \<Rightarrow> peer_state \<Rightarrow> bool" where
  one: "lifecycle_step s t \<Longrightarrow> lifecycle s t"
| more: "lifecycle s t \<Longrightarrow> lifecycle_step t u \<Longrightarrow> lifecycle s u"

lemma lifecycle_first:
  "lifecycle s t \<Longrightarrow> \<exists>u. lifecycle_step s u"
  by (induction rule: lifecycle.induct) auto

lemma lifecycle_not_INITIALIZING: "lifecycle s t \<Longrightarrow> t \<noteq> INITIALIZING"
  by (induction rule: lifecycle.induct)
    (auto simp: lifecycle_step_iff resolve_Some_iff dest: TRANSITIONS_Some)

lemma lifecycle_from_ERROR: "lifecycle s t \<Longrightarrow> s = ERROR \<Longrightarrow> t = QUIT"
  by (induction rule: lifecycle.induct)
    (auto simp: lifecycle_step_iff resolve_Some_iff TERMINAL_STATES_def)

section \<open>The log is the history\<close>

definition after_log :: "peer_state \<Rightarrow> transition_log list \<Rightarrow> peer_state" where
  "after_log init h = foldl (\<lambda>s l. case to_state l of Some t \<Rightarrow> t | None \<Rightarrow> s) init h"

definition log_wf :: "peer_state \<Rightarrow> machine \<Rightarrow> bool" where
  "log_wf init m \<longleftrightarrow>
     m_state m = after_log init (m_history m) \<and>
     (\<forall>i < length (m_history m).
        let l = m_history m ! i in
        index l = i \<and> from_state l = after_log init (take i (m_history m)) \<and>
        (to_state l, reason l) = resolve (from_state l) (log_event l) \<and>
        accepted l = (to_state l \<noteq> None))"

lemma log_wf_new: "log_wf init (new_machine init)"
  by (simp add: log_wf_def new_machine_def after_log_def)

lemma log_wf_apply:
  assumes "log_wf init m"
  shows "log_wf init (fst (apply_event e m))"
proof -
  obtain tgt why where r: "resolve (m_state m) e = (tgt, why)" by fastforce
  let ?l = "\<lparr>index = length (m_history m), from_state = m_state m, log_event = e,
    to_state = tgt, accepted = (tgt \<noteq> None), reason = why, at_seq = length (m_history m)\<rparr>"
  have h: "m_history (fst (apply_event e m)) = m_history m @ [?l]"
    and s: "m_state (fst (apply_event e m)) = (case tgt of Some t \<Rightarrow> t | None \<Rightarrow> m_state m)"
    by (auto simp: apply_event_def r Let_def split: option.splits)
  show ?thesis
    using assms r unfolding log_wf_def h s
    by (auto simp: Let_def nth_append after_log_def less_Suc_eq split: option.splits)
qed

lemma apply_event_appends: "\<exists>new. m_history (fst (apply_event e m)) = m_history m @ new"
  by (auto simp: apply_event_def Let_def split: option.splits prod.splits)

interpretation psm: logging_component "\<lambda>m e. fst (apply_event e m)" "log_wf init" m_history
  by unfold_locales (rule log_wf_apply, assumption, rule apply_event_appends)

lemma run_history_length:
  "length (m_history (foldl (\<lambda>m e. fst (apply_event e m)) m es)) = length (m_history m) + length es"
  by (induction es arbitrary: m)
    (auto simp: apply_event_def Let_def split: option.splits prod.splits)

lemma after_log_snoc:
  "after_log init (h @ [l]) = (case to_state l of Some t \<Rightarrow> t | None \<Rightarrow> after_log init h)"
  by (simp add: after_log_def cong: option.case_cong)

lemma after_log_entry:
  assumes "after_log init h = s" and "s \<noteq> init"
  shows "\<exists>i < length h. to_state (h ! i) = Some s"
  using assms
proof (induction h rule: rev_induct)
  case Nil
  then show ?case by (simp add: after_log_def)
next
  case (snoc l h)
  show ?case
  proof (cases "to_state l")
    case None
    with snoc obtain i where "i < length h" "to_state (h ! i) = Some s"
      by (auto simp: after_log_snoc)
    then show ?thesis by (intro exI [of _ i]) (simp add: nth_append)
  next
    case (Some t)
    with snoc.prems have "to_state ((h @ [l]) ! length h) = Some s" by (simp add: after_log_snoc)
    then show ?thesis by (intro exI [of _ "length h"]) simp
  qed
qed

section \<open>Properties\<close>

text \<open>
  No restart cycles: whatever events arrive, \<open>INITIALIZING\<close> is never entered again, a
  terminal state has no way out, and from \<open>ERROR\<close> only \<open>QUIT\<close> can be reached.
\<close>

lemma lifecycle_has_no_restart:
  assumes "lifecycle s t"
  shows "t \<noteq> INITIALIZING \<and> s \<notin> set TERMINAL_STATES \<and> (s = ERROR \<longrightarrow> t = QUIT)"
proof -
  obtain u where "lifecycle_step s u" using lifecycle_first [OF assms] by blast
  then have "s \<notin> set TERMINAL_STATES" by (auto simp: lifecycle_step_iff resolve_Some_iff)
  with lifecycle_not_INITIALIZING lifecycle_from_ERROR assms show ?thesis by blast
qed


text \<open>
  A machine that starts before the series can only be auditing after a sub-game ended: some
  logged transition went from \<open>SUB_GAME_OVER\<close> to \<open>AUDITING\<close> on \<open>BEGIN_AUDIT\<close>.
\<close>

lemma auditing_only_after_sub_game_over:
  assumes "init \<noteq> AUDITING"
    and "m_state (foldl (\<lambda>m e. fst (apply_event e m)) (new_machine init) es) = AUDITING"
  shows "\<exists>l \<in> set (m_history (foldl (\<lambda>m e. fst (apply_event e m)) (new_machine init) es)).
           from_state l = SUB_GAME_OVER \<and> ev_kind (log_event l) = BEGIN_AUDIT \<and>
           to_state l = Some AUDITING"
proof -
  let ?m = "foldl (\<lambda>m e. fst (apply_event e m)) (new_machine init) es"
  have wf: "log_wf init ?m" by (rule psm.run_inv [OF log_wf_new])
  then have "after_log init (m_history ?m) = AUDITING" using assms(2) by (simp add: log_wf_def)
  then obtain i where i: "i < length (m_history ?m)" "to_state (m_history ?m ! i) = Some AUDITING"
    using after_log_entry assms(1) by metis
  with wf have "fst (resolve (from_state (m_history ?m ! i)) (log_event (m_history ?m ! i))) = Some AUDITING"
    unfolding log_wf_def by (metis fst_conv)
  then have "from_state (m_history ?m ! i) = SUB_GAME_OVER \<and>
      ev_kind (log_event (m_history ?m ! i)) = BEGIN_AUDIT"
    by (auto simp: resolve_Some_iff TRANSITIONS_AUDITING)
  with i show ?thesis by (metis nth_mem)
qed

text \<open>
  \<open>force_error\<close>, the call of every runtime error path, succeeds exactly from the states
  that are neither terminal nor already \<open>ERROR\<close>; a second failure in the same sub-game therefore raises
  \<open>IllegalTransitionError\<close>, after logging the rejected attempt.
\<close>

lemma force_error_outcome:
  "case force_error detail m of
     (m', Inr t) \<Rightarrow> t = ERROR \<and> m_state m' = ERROR \<and> m_state m \<notin> {ERROR, SERIES_COMPLETE, QUIT}
   | (m', Inl x) \<Rightarrow> m_state m \<in> {ERROR, SERIES_COMPLETE, QUIT} \<and> m_state m' = m_state m \<and>
       x = IllegalTransitionError (snd (resolve (m_state m) (Event ERROR_OCCURRED detail))) \<and>
       length (m_history m') = Suc (length (m_history m))"
  by (auto simp: force_error_def apply_event_def resolve_def TERMINAL_STATES_def Let_def)

end
