(* ===== verification/Timing.thy ===== *)
theory Timing
  imports Geometry
begin

text \<open>
  Time budgets and stall detection: \<^verbatim>\<open>domain/deadline.py\<close> and \<^verbatim>\<open>domain/watchdog.py\<close>. Every
  read of the monotonic clock is an explicit argument, in the order of the reads.
\<close>

section \<open>Deadlines\<close>

record deadline =
  dl_timeout :: real
  dl_start :: "real option"

definition new_deadline :: "real \<Rightarrow> deadline res" where
  "new_deadline timeout_seconds =
     (if timeout_seconds < 0 then Inl (ValueError ''timeout_seconds must be >= 0'')
      else Inr \<lparr>dl_timeout = timeout_seconds, dl_start = None\<rparr>)"

definition dl_begin :: "deadline \<Rightarrow> real \<Rightarrow> deadline" where
  "dl_begin d now = d\<lparr>dl_start := Some now\<rparr>"

text \<open>
  \<^verbatim>\<open>elapsed\<close> reads the clock, then asks for the start, which reads it again when the tracker
  was never started.
\<close>

definition started_at :: "deadline \<Rightarrow> real \<Rightarrow> deadline \<times> real" where
  "started_at d now = (case dl_start d of None \<Rightarrow> (d\<lparr>dl_start := Some now\<rparr>, now) | Some s \<Rightarrow> (d, s))"

definition elapsed :: "deadline \<Rightarrow> real \<Rightarrow> real \<Rightarrow> deadline \<times> real" where
  "elapsed d now1 now2 = (case started_at d now2 of (d', s) \<Rightarrow> (d', max 0 (now1 - s)))"

definition remaining :: "deadline \<Rightarrow> real \<Rightarrow> real \<Rightarrow> deadline \<times> real" where
  "remaining d now1 now2 = (case elapsed d now1 now2 of (d', e) \<Rightarrow> (d', max 0 (dl_timeout d - e)))"

definition expired :: "deadline \<Rightarrow> real \<Rightarrow> real \<Rightarrow> deadline \<times> bool" where
  "expired d now1 now2 = (case remaining d now1 now2 of (d', r) \<Rightarrow> (d', r \<le> 0))"

text \<open>\<^verbatim>\<open>child\<close> reads the clock once more when it starts the child.\<close>

definition child :: "deadline \<Rightarrow> real \<Rightarrow> real \<Rightarrow> real \<Rightarrow> real \<Rightarrow> deadline \<times> deadline res" where
  "child d budget_seconds now1 now2 now3 =
     (case remaining d now1 now2 of (d', r) \<Rightarrow>
        (d', rbind (new_deadline (min budget_seconds r)) (\<lambda>c. Inr (dl_begin c now3))))"

section \<open>Watchdog\<close>

datatype watchdog_status = HEALTHY | GRACEFUL_SHUTDOWN | ESCALATED | WATCHDOG_LOSS

record watchdog_outcome =
  wo_status :: watchdog_status
  wo_reason :: string
  wo_escalations :: int

definition is_technical_loss :: "watchdog_outcome \<Rightarrow> bool" where
  "is_technical_loss o1 \<longleftrightarrow> wo_status o1 = WATCHDOG_LOSS"

definition outcome_sub_game_result :: "watchdog_outcome \<Rightarrow> sub_game_result option" where
  "outcome_sub_game_result o1 = (if is_technical_loss o1 then Some TECHNICAL_LOSS else None)"

record watchdog =
  wd_timeout :: real
  wd_max_retries :: int
  wd_last_progress :: real
  wd_escalations :: int
  wd_dead :: "string option"

definition new_watchdog :: "real \<Rightarrow> int \<Rightarrow> real \<Rightarrow> watchdog" where
  "new_watchdog timeout_seconds max_retries now =
     \<lparr>wd_timeout = timeout_seconds, wd_max_retries = max 0 max_retries, wd_last_progress = now,
      wd_escalations = 0, wd_dead = None\<rparr>"

definition note_progress :: "watchdog \<Rightarrow> real \<Rightarrow> watchdog" where
  "note_progress w now = w\<lparr>wd_last_progress := now\<rparr>"

definition note_subprocess_dead :: "watchdog \<Rightarrow> string \<Rightarrow> watchdog" where
  "note_subprocess_dead w why = w\<lparr>wd_dead := Some why\<rparr>"

definition stalled :: "watchdog \<Rightarrow> real \<Rightarrow> bool" where
  "stalled w now \<longleftrightarrow> now - wd_last_progress w > wd_timeout w"

definition watchdog_check :: "watchdog \<Rightarrow> real \<Rightarrow> watchdog \<times> watchdog_outcome" where
  "watchdog_check w now =
     (case wd_dead w of
        Some why \<Rightarrow> (w, \<lparr>wo_status = WATCHDOG_LOSS, wo_reason = why, wo_escalations = wd_escalations w\<rparr>)
      | None \<Rightarrow>
          if \<not> stalled w now then
            (w, \<lparr>wo_status = HEALTHY, wo_reason = [], wo_escalations = wd_escalations w\<rparr>)
          else
            (let n = wd_escalations w + 1; w1 = w\<lparr>wd_escalations := n\<rparr>
             in if n > wd_max_retries w then
                  (w1, \<lparr>wo_status = WATCHDOG_LOSS,
                        wo_reason = ''stall persisted past '' @ str_of_int (wd_max_retries w) @ '' retries'',
                        wo_escalations = n\<rparr>)
                else if n = 1 then
                  (w1, \<lparr>wo_status = GRACEFUL_SHUTDOWN,
                        wo_reason = ''stall detected; requesting graceful stop'', wo_escalations = 1\<rparr>)
                else
                  (w1, \<lparr>wo_status = ESCALATED,
                        wo_reason = ''graceful stop did not clear the stall'', wo_escalations = n\<rparr>)))"

section \<open>Runs of a watchdog\<close>

datatype watchdog_op = Progress real | SubprocessDead string | Check real

fun watchdog_step :: "watchdog \<Rightarrow> watchdog_op \<Rightarrow> watchdog \<times> watchdog_outcome option" where
  "watchdog_step w (Progress now) = (note_progress w now, None)"
| "watchdog_step w (SubprocessDead why) = (note_subprocess_dead w why, None)"
| "watchdog_step w (Check now) = (case watchdog_check w now of (w', out) \<Rightarrow> (w', Some out))"

fun watchdog_outcomes :: "watchdog \<Rightarrow> watchdog_op list \<Rightarrow> watchdog_outcome list" where
  "watchdog_outcomes w [] = []"
| "watchdog_outcomes w (x # xs) =
     (case watchdog_step w x of
        (w', None) \<Rightarrow> watchdog_outcomes w' xs
      | (w', Some out) \<Rightarrow> out # watchdog_outcomes w' xs)"

definition soft_response :: "watchdog_outcome \<Rightarrow> bool" where
  "soft_response out \<longleftrightarrow> wo_status out = GRACEFUL_SHUTDOWN \<or> wo_status out = ESCALATED"

lemma watchdog_check_simps:
  "wd_max_retries (fst (watchdog_check w now)) = wd_max_retries w"
  "wd_dead (fst (watchdog_check w now)) = wd_dead w"
  "soft_response (snd (watchdog_check w now)) \<longleftrightarrow>
     wd_dead w = None \<and> stalled w now \<and> wd_escalations w < wd_max_retries w"
  "wd_escalations (fst (watchdog_check w now)) =
     wd_escalations w + (if wd_dead w = None \<and> stalled w now then 1 else 0)"
  by (auto simp: watchdog_check_def Let_def soft_response_def split: option.splits)

lemma soft_responses_bounded:
  "0 \<le> wd_escalations w \<Longrightarrow>
     int (length (filter soft_response (watchdog_outcomes w ops)))
       \<le> max 0 (wd_max_retries w - wd_escalations w)"
proof (induction ops arbitrary: w)
  case Nil
  then show ?case by simp
next
  case (Cons x ops)
  show ?case
  proof (cases x)
    case (Progress now)
    with Cons.IH [of "note_progress w now"] Cons.prems show ?thesis by (simp add: note_progress_def)
  next
    case (SubprocessDead why)
    with Cons.IH [of "note_subprocess_dead w why"] Cons.prems show ?thesis
      by (simp add: note_subprocess_dead_def)
  next
    case (Check now)
    obtain w' out where c: "watchdog_check w now = (w', out)" by fastforce
    note facts = watchdog_check_simps [of w now, unfolded c fst_conv snd_conv]
    have "0 \<le> wd_escalations w'" using Cons.prems facts(4) by auto
    from Cons.IH [OF this] show ?thesis
      using facts Cons.prems by (auto simp: Check c split: if_splits)
  qed
qed

section \<open>Properties\<close>

text \<open>
  A child deadline cannot outlive its parent: read at one instant, it ends no later than
  the parent (or at once when the parent has already ended), and it never raises for a
  non-negative budget.
\<close>

lemma child_within_parent:
  assumes "0 \<le> dl_timeout d" and "0 \<le> budget" and "\<And>s. dl_start d = Some s \<Longrightarrow> s \<le> now"
  shows "\<exists>d' c start. child d budget now now now = (d', Inr c) \<and> dl_start c = Some now \<and>
           0 \<le> dl_timeout c \<and> dl_timeout c \<le> budget \<and> dl_start d' = Some start \<and>
           now + dl_timeout c \<le> max now (start + dl_timeout d')"
  using assms
  by (auto simp: child_def remaining_def elapsed_def started_at_def new_deadline_def dl_begin_def
      split: option.splits)

text \<open>
  The watchdog cannot escalate for ever: over any sequence of progress notes, deaths and
  checks, whatever the clock says, at most \<open>max_retries\<close> checks answer with a graceful stop or an
  escalation; every other stalled check is a technical loss.
\<close>

lemma watchdog_escalations_bounded:
  "int (length (filter soft_response (watchdog_outcomes (new_watchdog timeout retries now) ops)))
     \<le> max 0 retries"
  using soft_responses_bounded [of "new_watchdog timeout retries now" ops]
  by (simp add: new_watchdog_def)

end
