(* ===== verification/Canonical.thy ===== *)
theory Canonical
  imports PyJson "HOL-Library.Char_ord" "HOL-Library.List_Lexorder"
begin

text \<open>
  Canonical JSON (\<^verbatim>\<open>shared/canonical_json.py\<close>): sorted keys, compact separators, no ASCII
  escaping. The rendering of a float (the runtime's \<^verbatim>\<open>repr\<close>) and SHA-256 are the parameters
  \<open>fr\<close> and \<open>sha\<close>; the rest of \<^verbatim>\<open>json.dumps\<close> is modelled.
\<close>

definition hex_digit :: "nat \<Rightarrow> char" where
  "hex_digit n = ''0123456789abcdef'' ! (n mod 16)"

definition escape_char :: "char \<Rightarrow> string" where
  "escape_char c =
     (if c = CHR 0x22 then [CHR 0x5C, CHR 0x22]
      else if c = CHR 0x5C then [CHR 0x5C, CHR 0x5C]
      else if c = CHR 0x0A then [CHR 0x5C, CHR ''n'']
      else if c = CHR 0x0D then [CHR 0x5C, CHR ''r'']
      else if c = CHR 0x09 then [CHR 0x5C, CHR ''t'']
      else if c = CHR 0x0C then [CHR 0x5C, CHR ''f'']
      else if c = CHR 0x08 then [CHR 0x5C, CHR ''b'']
      else if (of_char c :: nat) < 32 then
        [CHR 0x5C, CHR ''u'', CHR ''0'', CHR ''0'',
         hex_digit ((of_char c :: nat) div 16), hex_digit (of_char c)]
      else [c])"

definition quote_str :: "string \<Rightarrow> string" where
  "quote_str s = CHR 0x22 # concat (map escape_char s) @ [CHR 0x22]"

fun join :: "string \<Rightarrow> string list \<Rightarrow> string" where
  "join sep [] = []"
| "join sep [x] = x"
| "join sep (x # xs) = x @ sep @ join sep xs"

fun canonical_json :: "(pyfloat \<Rightarrow> string) \<Rightarrow> json \<Rightarrow> string" where
  "canonical_json fr JNull = ''null''"
| "canonical_json fr (JBool b) = (if b then ''true'' else ''false'')"
| "canonical_json fr (JInt i) = str_of_int i"
| "canonical_json fr (JFloat f) = fr f"
| "canonical_json fr (JStr s) = quote_str s"
| "canonical_json fr (JList xs) = ''['' @ join '','' (map (canonical_json fr) xs) @ '']''"
| "canonical_json fr (JObj d) =
     ''{'' @ join '','' (map (\<lambda>(k, s). quote_str k @ '':'' @ s)
       (sort_key fst (map (\<lambda>(k, v). (k, canonical_json fr v)) d))) @ ''}''"

definition canonical_sha256_hex :: "(pyfloat \<Rightarrow> string) \<Rightarrow> (string \<Rightarrow> string) \<Rightarrow> json \<Rightarrow> string" where
  "canonical_sha256_hex fr sha data = sha (canonical_json fr data)"

section \<open>Integers in a text\<close>

text \<open>Decimal rendering is injective, and a rendered integer can be cut off a text.\<close>

definition numeric :: "char \<Rightarrow> bool" where
  "numeric c \<longleftrightarrow> c = CHR ''-'' \<or> 48 \<le> (of_char c :: nat) \<and> (of_char c :: nat) \<le> 57"

definition nat_of_str :: "string \<Rightarrow> nat" where
  "nat_of_str = foldl (\<lambda>a c. 10 * a + (of_char c - 48)) 0"

lemma nat_of_str_of_nat: "nat_of_str (str_of_nat n) = n"
proof (induction n rule: str_of_nat.induct)
  case (1 n)
  then show ?case by (subst str_of_nat.simps) (simp add: nat_of_str_def)
qed

lemma str_of_nat_digits: "c \<in> set (str_of_nat n) \<Longrightarrow> 48 \<le> (of_char c :: nat) \<and> (of_char c :: nat) \<le> 57"
proof (induction n rule: str_of_nat.induct)
  case (1 n)
  from "1.prems" have "c = char_of (48 + n mod 10) \<or> \<not> n < 10 \<and> c \<in> set (str_of_nat (n div 10))"
    by (subst (asm) str_of_nat.simps) (auto split: if_splits)
  with "1.IH" show ?case by auto
qed

lemma str_of_int_numeric: "list_all numeric (str_of_int i)"
  by (auto simp: str_of_int_def numeric_def list_all_iff dest: str_of_nat_digits)

lemma str_of_nat_no_minus: "str_of_nat n \<noteq> CHR ''-'' # s"
  using str_of_nat_digits [of "CHR ''-''" n] by auto

lemma str_of_int_inject [simp]: "str_of_int i = str_of_int j \<longleftrightarrow> i = j"
proof
  assume eq: "str_of_int i = str_of_int j"
  have nat: "str_of_nat a = str_of_nat b \<Longrightarrow> a = b" for a b
    using nat_of_str_of_nat by metis
  show "i = j"
    using eq str_of_nat_no_minus str_of_nat_no_minus [symmetric]
    by (auto simp: str_of_int_def split: if_splits dest!: nat)
qed simp

lemma split_unique:
  assumes "list_all P a" and "list_all P b" and "\<not> P c" and "a @ c # x = b @ c # y"
  shows "a = b \<and> x = y"
  using assms
proof (induction a arbitrary: b)
  case Nil
  then show ?case by (cases b) auto
next
  case (Cons z a)
  then show ?case by (cases b) auto
qed

lemma int_then:
  assumes "\<not> numeric c" and "str_of_int i @ c # x = str_of_int j @ c # y"
  shows "i = j \<and> x = y"
  using split_unique [OF str_of_int_numeric str_of_int_numeric assms] by simp

section \<open>Properties\<close>

lemma sort_key_unique:
  assumes "distinct (map fst xs)" and "distinct (map fst ys)" and "set xs = set ys"
  shows "sort_key fst xs = sort_key fst ys"
proof (rule map_sorted_distinct_set_unique)
  show "inj_on fst (set (sort_key fst xs) \<union> set (sort_key fst ys))"
    using assms by (auto simp: distinct_map)
qed (use assms in \<open>auto simp: distinct_map\<close>)

text \<open>
  The digest of an object does not depend on the order its members were written in, at
  the top level or below a key.
\<close>

lemma canonical_key_order:
  assumes "distinct (map fst d)" and "distinct (map fst e)" and "set d = set e"
  shows "canonical_sha256_hex fr sha (JObj d) = canonical_sha256_hex fr sha (JObj e)"
proof -
  let ?f = "\<lambda>(k, v). (k :: string, canonical_json fr v)"
  have keys: "map fst (map ?f xs) = map fst xs" for xs by auto
  have "sort_key fst (map ?f d) = sort_key fst (map ?f e)"
    by (rule sort_key_unique) (simp_all only: keys assms set_map)
  then show ?thesis by (simp add: canonical_sha256_hex_def)
qed

end
