(* ===== verification/Sealing.thy ===== *)
theory Sealing
  imports Canonical "HOL-Library.AList" "HOL-Library.Sublist"
begin

text \<open>
  Commit and reveal: the sealed record (\<^verbatim>\<open>domain/sealing/payload.py\<close>), its commitment
  (\<^verbatim>\<open>commit.py\<close>), the per-step order of commit, acknowledge and reveal (\<^verbatim>\<open>exchange.py\<close>), the
  final audit (\<^verbatim>\<open>audit.py\<close>) and the friendly-match variant (\<^verbatim>\<open>friendly_external.py\<close>). The digest
  \<open>H\<close> of a JSON value, \<^verbatim>\<open>canonical_sha256_hex\<close>, is a parameter; digests are ASCII, on which
  \<^verbatim>\<open>secrets.compare_digest\<close> is equality.
\<close>

declare map_of_eq_Some_iff [simp del]

section \<open>The sealed payload\<close>

definition CURRENT_SCHEMA_VERSION :: string where
  "CURRENT_SCHEMA_VERSION = ''commitment/1''"

definition CANONICAL_FIELD_SET :: "string list" where
  "CANONICAL_FIELD_SET =
    [''schema_version'', ''step'', ''role'', ''sub_game_number'', ''position'', ''move'',
     ''intent'', ''hint'', ''scent_digest'', ''scent_grid'', ''barrier_placed'',
     ''capture_claim'', ''claim_response'', ''win_claim'', ''config_sha256'', ''timestamp'',
     ''nonce'']"

record payload =
  p_step :: int
  p_role :: string
  p_sub_game_number :: int
  p_position :: "int \<times> int"
  p_move :: "string option"
  p_intent :: string
  p_hint :: string
  p_scent_digest :: string
  p_scent_grid :: "real list list"
  p_timestamp :: string
  p_nonce :: string
  p_config_sha256 :: string
  p_barrier_placed :: "(int \<times> int) option"
  p_capture_claim :: "(int \<times> int) option"
  p_claim_response :: "bool option"
  p_win_claim :: bool
  p_schema_version :: string
  p_legacy_state :: "string option"

definition cell_json :: "int \<times> int \<Rightarrow> json" where
  "cell_json p = JList [JInt (fst p), JInt (snd p)]"

definition opt_json :: "('a \<Rightarrow> json) \<Rightarrow> 'a option \<Rightarrow> json" where
  "opt_json f x = (case x of None \<Rightarrow> JNull | Some y \<Rightarrow> f y)"

definition grid_json :: "real list list \<Rightarrow> json" where
  "grid_json g = JList (map (\<lambda>xs. JList (map (\<lambda>x. JFloat (Fin x)) xs)) g)"

definition LEGACY_SCHEMAS :: "string list" where
  "LEGACY_SCHEMAS = [''sealed-turn/1'', ''sealed-turn/2'']"

definition to_canonical_dict :: "payload \<Rightarrow> jobj" where
  "to_canonical_dict p =
     (if p_schema_version p \<in> set LEGACY_SCHEMAS then
        (let state = (case p_legacy_state p of
               Some s \<Rightarrow> s
             | None \<Rightarrow> ''pos='' @ str_of_int (fst (p_position p)) @ '','' @
                       str_of_int (snd (p_position p)) @ '';visited=1'')
         in [(''schema_version'', JStr (p_schema_version p)),
             (''step'', JInt (p_step p)),
             (''role'', JStr (p_role p)),
             (''sub_game_number'', JInt (p_sub_game_number p)),
             (''state'', JStr state),
             (''move'', opt_json JStr (p_move p)),
             (''intent'', JStr (p_intent p)),
             (''hint'', JStr (p_hint p)),
             (''scent_digest'', JStr (p_scent_digest p)),
             (''scent_grid'', grid_json (p_scent_grid p)),
             (''barrier_placed'', opt_json cell_json (p_barrier_placed p)),
             (''capture_claim'', opt_json cell_json (p_capture_claim p)),
             (''claim_response'', opt_json JBool (p_claim_response p)),
             (''win_claim'', JBool (p_win_claim p)),
             (''config_sha256'', JStr (p_config_sha256 p)),
             (''timestamp'', JStr (p_timestamp p)),
             (''nonce'', JStr (p_nonce p))])
      else
        [(''schema_version'', JStr (p_schema_version p)),
         (''step'', JInt (p_step p)),
         (''role'', JStr (p_role p)),
         (''sub_game_number'', JInt (p_sub_game_number p)),
         (''position'', cell_json (p_position p)),
         (''move'', opt_json JStr (p_move p)),
         (''intent'', JStr (p_intent p)),
         (''hint'', JStr (p_hint p)),
         (''scent_digest'', JStr (p_scent_digest p)),
         (''scent_grid'', grid_json (p_scent_grid p)),
         (''barrier_placed'', opt_json cell_json (p_barrier_placed p)),
         (''capture_claim'', opt_json cell_json (p_capture_claim p)),
         (''claim_response'', opt_json JBool (p_claim_response p)),
         (''win_claim'', JBool (p_win_claim p)),
         (''config_sha256'', JStr (p_config_sha256 p)),
         (''timestamp'', JStr (p_timestamp p)),
         (''nonce'', JStr (p_nonce p))])"

definition public_reveal_dict :: "payload \<Rightarrow> jobj" where
  "public_reveal_dict p =
     filter (\<lambda>(k, v). k \<noteq> ''intent'') (filter (\<lambda>(k, v). k \<noteq> ''nonce'') (to_canonical_dict p))"

section \<open>Commitments\<close>

type_synonym digest = "json \<Rightarrow> string"

definition commit_hash :: "digest \<Rightarrow> payload \<Rightarrow> string" where
  "commit_hash H p = H (JObj (to_canonical_dict p))"

record sealed_record =
  sr_payload :: payload
  sr_commit_hash :: string

definition recompute_matches :: "digest \<Rightarrow> sealed_record \<Rightarrow> bool" where
  "recompute_matches H r \<longleftrightarrow> commit_hash H (sr_payload r) = sr_commit_hash r"

definition seal :: "digest \<Rightarrow> payload \<Rightarrow> sealed_record" where
  "seal H p = \<lparr>sr_payload = p, sr_commit_hash = commit_hash H p\<rparr>"

section \<open>The order of commit, acknowledge, reveal\<close>

datatype phase = COMMITTED | ACKNOWLEDGED | REVEALED

fun phase_value :: "phase \<Rightarrow> string" where
  "phase_value COMMITTED = ''committed''"
| "phase_value ACKNOWLEDGED = ''acknowledged''"
| "phase_value REVEALED = ''revealed''"

record exchange =
  ex_phase :: "(int \<times> phase) list"
  ex_committed_hash :: "(int \<times> string) list"
  ex_records :: "(int \<times> sealed_record) list"

definition new_exchange :: exchange where
  "new_exchange = \<lparr>ex_phase = [], ex_committed_hash = [], ex_records = []\<rparr>"

definition ex_commit :: "int \<Rightarrow> string \<Rightarrow> (exchange, unit) eff" where
  "ex_commit step published_hash x =
     (case map_of (ex_committed_hash x) step of
        Some h \<Rightarrow>
          (if h \<noteq> published_hash
           then (x, Inl (SealExchangeError (''conflicting re-commit for step '' @ str_of_int step)))
           else (x, Inr ()))
      | None \<Rightarrow>
          (x\<lparr>ex_committed_hash := AList.update step published_hash (ex_committed_hash x),
             ex_phase := AList.update step COMMITTED (ex_phase x)\<rparr>, Inr ()))"

definition phase_text :: "phase option \<Rightarrow> string" where
  "phase_text p = (case p of None \<Rightarrow> ''None'' | Some q \<Rightarrow> phase_value q)"

definition ex_acknowledge :: "int \<Rightarrow> (exchange, unit) eff" where
  "ex_acknowledge step x =
     (if map_of (ex_phase x) step \<noteq> Some COMMITTED then
        (x, Inl (SealExchangeError (''cannot acknowledge step '' @ str_of_int step @ '' in phase '' @
                 phase_text (map_of (ex_phase x) step))))
      else (x\<lparr>ex_phase := AList.update step ACKNOWLEDGED (ex_phase x)\<rparr>, Inr ()))"

definition ex_reveal :: "digest \<Rightarrow> int \<Rightarrow> sealed_record \<Rightarrow> (exchange, unit) eff" where
  "ex_reveal H step r x =
     (let ph = map_of (ex_phase x) step
      in if ph = None \<or> ph = Some COMMITTED then
           (x, Inl (SealExchangeError (''reveal before acknowledgment for step '' @ str_of_int step)))
         else if ph = Some REVEALED then
           (x, Inl (SealExchangeError (''duplicate reveal for step '' @ str_of_int step)))
         else case map_of (ex_committed_hash x) step of
           None \<Rightarrow> (x, Inl (KeyError (str_of_int step)))
         | Some h \<Rightarrow>
             (if commit_hash H (sr_payload r) \<noteq> h then
                (x, Inl (SealExchangeError (''revealed payload does not match commitment at step '' @
                         str_of_int step)))
              else (x\<lparr>ex_phase := AList.update step REVEALED (ex_phase x),
                      ex_records := AList.update step r (ex_records x)\<rparr>, Inr ())))"

definition revealed_records :: "exchange \<Rightarrow> sealed_record list" where
  "revealed_records x = map (\<lambda>s. the (map_of (ex_records x) s)) (sort (map fst (ex_records x)))"

definition incomplete_steps :: "exchange \<Rightarrow> int list" where
  "incomplete_steps x = sort (map fst (filter (\<lambda>(s, p). p \<noteq> REVEALED) (ex_phase x)))"

section \<open>The audit\<close>

datatype audit_outcome = VERIFIED | TAMPER_FORFEIT

fun audit_outcome_value :: "audit_outcome \<Rightarrow> string" where
  "audit_outcome_value VERIFIED = ''verified''"
| "audit_outcome_value TAMPER_FORFEIT = ''tamper_forfeit''"

record audit_report =
  ar_outcome :: audit_outcome
  ar_mismatched_steps :: "int list"
  ar_reused_nonces :: "string list"
  ar_reason :: string

definition verified :: "audit_report \<Rightarrow> bool" where
  "verified r \<longleftrightarrow> ar_outcome r = VERIFIED"

definition verify_hash :: "digest \<Rightarrow> jobj \<Rightarrow> string \<Rightarrow> bool" where
  "verify_hash H payload_dict expected_hash \<longleftrightarrow> H (JObj payload_dict) = expected_hash"

definition steps_in_order :: "sealed_record list \<Rightarrow> int \<Rightarrow> bool" where
  "steps_in_order records start \<longleftrightarrow>
     (let steps = map (\<lambda>r. p_step (sr_payload r)) records
      in steps = [start .. start + int (length steps) - 1])"

definition ints_repr :: "int list \<Rightarrow> string" where
  "ints_repr xs = ''['' @ join '', '' (map str_of_int xs) @ '']''"

definition nonce_step :: "string set \<times> string list \<Rightarrow> sealed_record \<Rightarrow> string set \<times> string list" where
  "nonce_step acc r =
     (let nonce = p_nonce (sr_payload r); seen = fst acc; reused = snd acc
      in (insert nonce seen, if nonce \<in> seen then reused @ [nonce] else reused))"

definition nonce_scan :: "sealed_record list \<Rightarrow> string set \<times> string list" where
  "nonce_scan records = foldl nonce_step ({}, []) records"

definition audit_sealed_records :: "digest \<Rightarrow> sealed_record list \<Rightarrow> audit_report" where
  "audit_sealed_records H records =
     (let mismatched = map (\<lambda>r. p_step (sr_payload r))
            (filter (\<lambda>r. commit_hash H (sr_payload r) \<noteq> sr_commit_hash r) records);
          reused = snd (nonce_scan records)
      in if mismatched \<noteq> [] \<or> reused \<noteq> [] then
           (let reasons =
                (if mismatched \<noteq> [] then
                   [''hash mismatch at steps '' @ ints_repr (sorted_list_of_set (set mismatched))]
                 else []) @
                (if reused \<noteq> [] then [str_of_nat (length reused) @ '' reused nonce(s)''] else [])
            in \<lparr>ar_outcome = TAMPER_FORFEIT,
                ar_mismatched_steps = sorted_list_of_set (set mismatched),
                ar_reused_nonces = reused,
                ar_reason = join ''; '' reasons\<rparr>)
         else \<lparr>ar_outcome = VERIFIED, ar_mismatched_steps = [], ar_reused_nonces = [],
               ar_reason = ''all commitments recomputed and matched''\<rparr>)"

section \<open>The friendly-match variant\<close>

text \<open>The same canonical JSON, except that \<^verbatim>\<open>allow_nan=False\<close> rejects a non-finite float.\<close>

fun has_nonfinite :: "json \<Rightarrow> bool" where
  "has_nonfinite (JFloat f) = (case f of Fin _ \<Rightarrow> False | _ \<Rightarrow> True)"
| "has_nonfinite (JList xs) = list_ex has_nonfinite xs"
| "has_nonfinite (JObj d) = list_ex (\<lambda>(k, v). has_nonfinite v) d"
| "has_nonfinite _ = False"

definition canonical_json_bytes_friendly_external :: "(pyfloat \<Rightarrow> string) \<Rightarrow> json \<Rightarrow> string res" where
  "canonical_json_bytes_friendly_external fr value =
     (if has_nonfinite value then Inl (ValueError ''Out of range float values are not JSON compliant'')
      else Inr (canonical_json fr value))"

definition compute_commit_hash_friendly_external ::
    "(pyfloat \<Rightarrow> string) \<Rightarrow> (string \<Rightarrow> string) \<Rightarrow> jobj \<Rightarrow> string \<Rightarrow> string res" where
  "compute_commit_hash_friendly_external fr sha p nonce =
     (if jhas p ''nonce''
      then Inl (ValueError ''friendly-external payload must not itself contain a 'nonce' key'')
      else rbind (canonical_json_bytes_friendly_external fr (JObj p))
             (\<lambda>body. Inr (sha (body @ ''|'' @ nonce))))"

definition POSITION_DEFERRED_DROP_FIELDS :: "string list" where
  "POSITION_DEFERRED_DROP_FIELDS = [''move'', ''position'']"

definition position_deferred_reveal_dict :: "jobj \<Rightarrow> jobj res" where
  "position_deferred_reveal_dict d =
     (if jhas d ''nonce'' \<or> jhas d ''intent''
      then Inl (ValueError (''position_deferred_reveal_dict expects an already-public reveal dict '' @
        ''(no nonce/intent) -- pass payload.public_reveal_dict(), not to_canonical_dict()''))
      else Inr (filter (\<lambda>(k, v). k \<notin> set POSITION_DEFERRED_DROP_FIELDS) d))"

definition reveal_message_position_deferred :: "jobj \<Rightarrow> jobj res" where
  "reveal_message_position_deferred reveal_message =
     (case jget reveal_message ''reveal'' (JObj []) of
        JObj body \<Rightarrow>
          rbind (position_deferred_reveal_dict body) (\<lambda>d.
            Inr (AList.update ''reveal'' (JObj d) reveal_message))
      | _ \<Rightarrow> Inl TypeError)"

section \<open>Runs of an exchange\<close>

datatype exchange_op = OpCommit int string | OpAcknowledge int | OpReveal int sealed_record

fun exchange_step :: "digest \<Rightarrow> exchange \<Rightarrow> exchange_op \<Rightarrow> exchange" where
  "exchange_step H x (OpCommit s h) = fst (ex_commit s h x)"
| "exchange_step H x (OpAcknowledge s) = fst (ex_acknowledge s x)"
| "exchange_step H x (OpReveal s r) = fst (ex_reveal H s r x)"

lemmas exchange_defs = ex_commit_def ex_acknowledge_def ex_reveal_def

definition exchange_wf :: "digest \<Rightarrow> exchange \<Rightarrow> bool" where
  "exchange_wf H x \<longleftrightarrow>
     distinct (map fst (ex_phase x)) \<and> distinct (map fst (ex_records x)) \<and>
     dom (map_of (ex_phase x)) = dom (map_of (ex_committed_hash x)) \<and>
     (\<forall>s. map_of (ex_phase x) s = Some REVEALED \<longleftrightarrow> s \<in> dom (map_of (ex_records x))) \<and>
     (\<forall>s r. map_of (ex_records x) s = Some r \<longrightarrow>
        map_of (ex_committed_hash x) s = Some (commit_hash H (sr_payload r)))"

lemma exchange_wf_new: "exchange_wf H new_exchange"
  by (simp add: exchange_wf_def new_exchange_def)

lemma exchange_wf_step: "exchange_wf H x \<Longrightarrow> exchange_wf H (exchange_step H x op)"
proof (cases op)
  case (OpCommit s h)
  assume wf: "exchange_wf H x"
  show ?thesis
  proof (cases "map_of (ex_committed_hash x) s")
    case None
    with wf have ph: "map_of (ex_phase x) s = None" and rc: "map_of (ex_records x) s = None"
      unfolding exchange_wf_def by (metis domIff option.distinct(1))+
    have "exchange_step H x op =
        x\<lparr>ex_committed_hash := AList.update s h (ex_committed_hash x),
          ex_phase := AList.update s COMMITTED (ex_phase x)\<rparr>"
      using None by (simp add: OpCommit ex_commit_def)
    then show ?thesis
      using wf ph rc None unfolding exchange_wf_def
      by (simp add: update_conv' distinct_update domIff)
  next
    case (Some h')
    with wf show ?thesis by (simp add: OpCommit ex_commit_def)
  qed
next
  case (OpAcknowledge s)
  assume wf: "exchange_wf H x"
  show ?thesis
  proof (cases "map_of (ex_phase x) s = Some COMMITTED")
    case True
    with wf have "map_of (ex_records x) s = None" "s \<in> dom (map_of (ex_committed_hash x))"
      unfolding exchange_wf_def by (metis domIff option.inject phase.distinct(3), metis domI)
    with True wf show ?thesis
      by (auto simp: OpAcknowledge exchange_defs exchange_wf_def update_conv' distinct_update)
  next
    case False
    with wf show ?thesis by (simp add: OpAcknowledge exchange_defs)
  qed
next
  case (OpReveal s r)
  assume wf: "exchange_wf H x"
  then show ?thesis
    by (auto simp: OpReveal exchange_defs exchange_wf_def update_conv' distinct_update Let_def
        split: option.splits)
qed

interpretation exch: component "exchange_step H" "exchange_wf H"
  by unfold_locales (rule exchange_wf_step)

lemma committed_hash_stays:
  "map_of (ex_committed_hash x) s = Some h \<Longrightarrow>
     map_of (ex_committed_hash (exchange_step H x op)) s = Some h"
  by (cases op) (auto simp: exchange_defs update_conv' Let_def split: option.splits)

text \<open>What a phase says about the calls made so far.\<close>

definition phase_history :: "digest \<Rightarrow> exchange_op list \<Rightarrow> exchange \<Rightarrow> int \<Rightarrow> bool" where
  "phase_history H ops x s \<longleftrightarrow>
     (case map_of (ex_phase x) s of
        None \<Rightarrow> True
      | Some ph \<Rightarrow> (\<exists>h. map_of (ex_committed_hash x) s = Some h \<and>
          (case ph of
             COMMITTED \<Rightarrow> subseq [OpCommit s h] ops
           | ACKNOWLEDGED \<Rightarrow> subseq [OpCommit s h, OpAcknowledge s] ops
           | REVEALED \<Rightarrow> (\<exists>r. commit_hash H (sr_payload r) = h \<and>
               subseq [OpCommit s h, OpAcknowledge s, OpReveal s r] ops))))"

lemma subseq_snoc: "subseq xs ys \<Longrightarrow> subseq (xs @ [a]) (ys @ [a])"
  by (rule list_emb_append_mono) auto

lemma subseq_more: "subseq xs ys \<Longrightarrow> subseq xs (ys @ [a])"
  by (rule subseq_order.order_trans [OF _ subseq_rev_drop_many]) auto

lemma phase_history_run:
  "phase_history H ops (foldl (exchange_step H) new_exchange ops) s"
proof (induction ops rule: rev_induct)
  case Nil
  then show ?case by (simp add: phase_history_def new_exchange_def)
next
  case (snoc op ops)
  let ?x = "foldl (exchange_step H) new_exchange ops"
  have more: "phase_history H (ops @ [op]) ?x s"
    using snoc.IH unfolding phase_history_def
    by (auto intro: subseq_more split: option.splits phase.splits)
  have dom: "dom (map_of (ex_phase ?x)) = dom (map_of (ex_committed_hash ?x))"
    using exch.run_inv [OF exchange_wf_new] by (simp add: exchange_wf_def)
  show ?case
  proof (cases op)
    case (OpCommit s' h)
    then show ?thesis using more
      by (auto simp: phase_history_def exchange_defs update_conv' split: option.splits)
  next
    case (OpAcknowledge s')
    then show ?thesis using more snoc.IH subseq_snoc [of "[OpCommit s' h]" ops "OpAcknowledge s'" for h]
      by (auto simp: phase_history_def exchange_defs update_conv' split: option.splits)
  next
    case (OpReveal s' r)
    then show ?thesis
      using more snoc.IH subseq_snoc [of "[OpCommit s' h, OpAcknowledge s']" ops "OpReveal s' r" for h]
      by (auto simp: phase_history_def exchange_defs update_conv' Let_def split: option.splits phase.splits)
  qed
qed

section \<open>The audit in terms of its records\<close>

lemma nonce_scan_gen:
  "snd (foldl nonce_step acc rs) = [] \<longleftrightarrow>
     snd acc = [] \<and> distinct (map (\<lambda>r. p_nonce (sr_payload r)) rs) \<and>
     (\<forall>r \<in> set rs. p_nonce (sr_payload r) \<notin> fst acc)"
proof (induction rs arbitrary: acc)
  case Nil
  then show ?case by simp
next
  case (Cons r rs)
  have "fst (nonce_step acc r) = insert (p_nonce (sr_payload r)) (fst acc)"
    and "snd (nonce_step acc r) = [] \<longleftrightarrow> snd acc = [] \<and> p_nonce (sr_payload r) \<notin> fst acc"
    by (auto simp: nonce_step_def Let_def)
  then show ?case by (simp add: Cons.IH image_iff) metis
qed

lemma nonce_scan_Nil_iff:
  "snd (nonce_scan rs) = [] \<longleftrightarrow> distinct (map (\<lambda>r. p_nonce (sr_payload r)) rs)"
  by (simp add: nonce_scan_def nonce_scan_gen)

lemma verified_iff:
  "verified (audit_sealed_records H rs) \<longleftrightarrow>
     list_all (recompute_matches H) rs \<and> distinct (map (\<lambda>r. p_nonce (sr_payload r)) rs)"
  by (auto simp: verified_def audit_sealed_records_def Let_def recompute_matches_def list_all_iff
      nonce_scan_Nil_iff filter_empty_conv)

lemma recompute_matches_seal [simp]: "recompute_matches H (seal H p)"
  by (simp add: recompute_matches_def seal_def)

lemma to_canonical_dict_inject:
  assumes "to_canonical_dict p = to_canonical_dict q"
    and "p_schema_version p \<notin> set LEGACY_SCHEMAS" and "p_legacy_state p = p_legacy_state q"
  shows "p = q"
proof -
  have inj: "inj (map (map (\<lambda>x. JFloat (Fin x)) :: real list \<Rightarrow> json list))"
    by (intro inj_mapI injI) simp
  have grid: "grid_json a = grid_json b \<longleftrightarrow> a = b" for a b
  proof
    assume "grid_json a = grid_json b"
    then have "map (map (\<lambda>x. JFloat (Fin x))) a = map (map (\<lambda>x. JFloat (Fin x))) b"
      unfolding grid_json_def by (auto simp: list_eq_iff_nth_eq)
    with inj show "a = b" by (rule injD)
  qed simp
  have opts: "opt_json JStr x = opt_json JStr y \<longleftrightarrow> x = y" for x y
    by (auto simp: opt_json_def split: option.splits)
  have optb: "opt_json JBool x = opt_json JBool y \<longleftrightarrow> x = y" for x y
    by (auto simp: opt_json_def split: option.splits)
  have optc: "opt_json cell_json x = opt_json cell_json y \<longleftrightarrow> x = y" for x y
    by (auto simp: opt_json_def cell_json_def prod_eq_iff split: option.splits)
  have "p_schema_version p = p_schema_version q"
    using assms(1) by (auto simp: to_canonical_dict_def Let_def split: if_splits)
  with assms show ?thesis
    by (cases p; cases q) (simp add: to_canonical_dict_def Let_def grid opts optb optc, simp add: cell_json_def prod_eq_iff)
qed

definition sample_payload :: payload where
  "sample_payload =
     \<lparr>p_step = 0, p_role = ''thief'', p_sub_game_number = 1, p_position = (3, 4), p_move = Some ''N'',
      p_intent = ''truth'', p_hint = [], p_scent_digest = [], p_scent_grid = [], p_timestamp = [],
      p_nonce = ''n'', p_config_sha256 = [], p_barrier_placed = None, p_capture_claim = None,
      p_claim_response = None, p_win_claim = False, p_schema_version = CURRENT_SCHEMA_VERSION,
      p_legacy_state = None\<rparr>"

lemma sample_payload_schema:
  "p_schema_version sample_payload \<notin> set LEGACY_SCHEMAS" "p_legacy_state sample_payload = None"
  by (simp_all add: sample_payload_def CURRENT_SCHEMA_VERSION_def LEGACY_SCHEMAS_def)

section \<open>Properties\<close>

lemma audit_sealed_records_cases:
  "(verified (audit_sealed_records H rs) \<longleftrightarrow>
      list_all (recompute_matches H) rs \<and> distinct (map (\<lambda>r. p_nonce (sr_payload r)) rs)) \<and>
   set (ar_mismatched_steps (audit_sealed_records H rs)) =
     {p_step (sr_payload r) | r. r \<in> set rs \<and> \<not> recompute_matches H r}"
proof
  show "verified (audit_sealed_records H rs) \<longleftrightarrow>
      list_all (recompute_matches H) rs \<and> distinct (map (\<lambda>r. p_nonce (sr_payload r)) rs)"
    by (rule verified_iff)
  show "set (ar_mismatched_steps (audit_sealed_records H rs)) =
     {p_step (sr_payload r) | r. r \<in> set rs \<and> \<not> recompute_matches H r}"
    by (auto simp: audit_sealed_records_def Let_def recompute_matches_def filter_empty_conv)
qed

text \<open>
  C16. The final audit verifies exactly the lists of records in which every payload still
  hashes to its published commitment and no nonce occurs twice, and when it forfeits it names exactly the
  steps that no longer match.
\<close>

theorem audit_verdict:
  "(verified (audit_sealed_records H rs) \<longleftrightarrow>
      list_all (recompute_matches H) rs \<and> distinct (map (\<lambda>r. p_nonce (sr_payload r)) rs)) \<and>
   set (ar_mismatched_steps (audit_sealed_records H rs)) =
     {p_step (sr_payload r) | r. r \<in> set rs \<and> \<not> recompute_matches H r}"
  by (rule audit_sealed_records_cases)

text \<open>
  What a reveal shows: exactly the canonical fields other than the nonce and the intent,
  and nothing in it depends on those two.
\<close>

lemma reveal_hides_nonce_and_intent:
  "public_reveal_dict (p\<lparr>p_nonce := n, p_intent := i\<rparr>) = public_reveal_dict p \<and>
   \<not> jhas (public_reveal_dict p) ''nonce'' \<and> \<not> jhas (public_reveal_dict p) ''intent'' \<and>
   (p_schema_version p \<notin> set LEGACY_SCHEMAS \<longrightarrow>
      map fst (public_reveal_dict p) =
        filter (\<lambda>k. k \<noteq> ''nonce'' \<and> k \<noteq> ''intent'') CANONICAL_FIELD_SET)"
  by (simp add: public_reveal_dict_def to_canonical_dict_def Let_def CANONICAL_FIELD_SET_def
      split: option.splits)

text \<open>
  A commitment binds: if the digests of two current-schema payloads do not collide, a payload that
  is accepted against the commitment of another one is that payload, in every field.
\<close>

lemma commitment_binding:
  assumes "p_schema_version p \<notin> set LEGACY_SCHEMAS" and "p_legacy_state p = p_legacy_state q"
    and "H (JObj (to_canonical_dict p)) = H (JObj (to_canonical_dict q)) \<Longrightarrow>
           to_canonical_dict p = to_canonical_dict q"
    and "recompute_matches H \<lparr>sr_payload = p, sr_commit_hash = sr_commit_hash (seal H q)\<rparr>"
  shows "p = q"
  using assms by (intro to_canonical_dict_inject) (simp_all add: recompute_matches_def seal_def commit_hash_def)

text \<open>
  C17. Commit before acknowledge before reveal: whatever calls are made in whatever order, a
  step counts as revealed only if it was committed, then acknowledged, then revealed with a
  payload that hashes to the value committed first.
\<close>

theorem reveal_only_after_acknowledgment:
  assumes "map_of (ex_phase (foldl (exchange_step H) new_exchange ops)) s = Some REVEALED"
  shows "\<exists>h r. subseq [OpCommit s h, OpAcknowledge s, OpReveal s r] ops \<and>
           commit_hash H (sr_payload r) = h \<and>
           map_of (ex_committed_hash (foldl (exchange_step H) new_exchange ops)) s = Some h"
  using phase_history_run [of H ops s] assms by (auto simp: phase_history_def)

theorem reveal_only_after_acknowledgment_witness:
  "\<exists>h r. subseq [OpCommit 0 h, OpAcknowledge 0, OpReveal 0 r]
     [OpCommit 0 (commit_hash (\<lambda>_. ''d'') sample_payload), OpAcknowledge 0,
      OpReveal 0 (seal (\<lambda>_. ''d'') sample_payload)]"
proof -
  have "map_of (ex_phase (foldl (exchange_step (\<lambda>_. ''d'')) new_exchange
     [OpCommit 0 (commit_hash (\<lambda>_. ''d'') sample_payload), OpAcknowledge 0,
      OpReveal 0 (seal (\<lambda>_. ''d'') sample_payload)])) 0 = Some REVEALED"
    by (simp add: new_exchange_def exchange_defs seal_def commit_hash_def)
  from reveal_only_after_acknowledgment [OF this] show ?thesis by blast
qed

text \<open>
  The exchange keeps honest books: after any calls, every stored record hashes to the value
  committed for its step, and the incomplete steps are exactly those committed and not revealed.
\<close>

lemma exchange_books:
  "let x = foldl (exchange_step H) new_exchange ops in
     (map_option (\<lambda>r. commit_hash H (sr_payload r)) \<circ> map_of (ex_records x))
        \<subseteq>\<^sub>m map_of (ex_committed_hash x) \<and>
     set (incomplete_steps x) = dom (map_of (ex_committed_hash x)) - dom (map_of (ex_records x))"
proof -
  let ?x = "foldl (exchange_step H) new_exchange ops"
  have wf: "exchange_wf H ?x" by (rule exch.run_inv [OF exchange_wf_new])
  then have 1: "(map_option (\<lambda>r. commit_hash H (sr_payload r)) \<circ> map_of (ex_records ?x))
      \<subseteq>\<^sub>m map_of (ex_committed_hash ?x)"
    by (auto simp: exchange_wf_def map_le_def)
  have "s \<in> set (incomplete_steps ?x) \<longleftrightarrow>
      map_of (ex_phase ?x) s \<noteq> None \<and> map_of (ex_phase ?x) s \<noteq> Some REVEALED" for s
  proof -
    have "s \<in> set (incomplete_steps ?x) \<longleftrightarrow> (\<exists>p. (s, p) \<in> set (ex_phase ?x) \<and> p \<noteq> REVEALED)"
      by (force simp: incomplete_steps_def)
    moreover have "distinct (map fst (ex_phase ?x))" using wf by (simp add: exchange_wf_def)
    then have "(s, p) \<in> set (ex_phase ?x) \<longleftrightarrow> map_of (ex_phase ?x) s = Some p" for p
      by (simp add: map_of_eq_Some_iff)
    ultimately show ?thesis by auto
  qed
  moreover have "s \<in> dom (map_of (ex_committed_hash ?x)) \<longleftrightarrow> map_of (ex_phase ?x) s \<noteq> None"
    and "s \<in> dom (map_of (ex_records ?x)) \<longleftrightarrow> map_of (ex_phase ?x) s = Some REVEALED" for s
    using wf unfolding exchange_wf_def by (metis domIff)+
  ultimately have "set (incomplete_steps ?x) = dom (map_of (ex_committed_hash ?x)) - dom (map_of (ex_records ?x))"
    by (intro set_eqI) simp
  with 1 show ?thesis by simp
qed

end
