(* ===== verification/Strategy.thy ===== *)
theory Strategy
  imports Hints Timing "HOL-Library.Multiset"
begin

text \<open>
  Move selection: the decision input (\<^verbatim>\<open>strategy/decision.py\<close>), the baseline brain
  (\<^verbatim>\<open>strategy/baseline_thief_brain.py\<close>) and the entropy-escape brain with its utility
  (\<^verbatim>\<open>strategy/entropy_escape_utility.py\<close>, \<^verbatim>\<open>entropy_escape_config.py\<close>,
  \<^verbatim>\<open>entropy_escape_thief_brain.py\<close>). The draws of the random generator are arguments. The
  contract of a brain is the locale \<open>thief_brain\<close>, interpreted on both.
\<close>

section \<open>Inputs and outputs\<close>

record decision_input =
  legal_directions :: "direction list"
  di_position :: position
  di_visited :: "position set"
  di_board :: board
  di_belief :: belief
  di_step :: int
  di_deadline :: deadline

record decision =
  d_direction :: direction
  d_intent :: hint_intent

definition Decision :: "direction \<Rightarrow> hint_intent \<Rightarrow> decision" where
  "Decision d i = \<lparr>d_direction = d, d_intent = i\<rparr>"

definition honest :: "decision \<Rightarrow> bool" where
  "honest d \<longleftrightarrow> d_intent d = TRUTH"

lemma Decision_sel [simp]: "d_direction (Decision d i) = d" "d_intent (Decision d i) = i"
  by (simp_all add: Decision_def)

definition fallback :: "decision_input \<Rightarrow> decision" where
  "fallback ctx =
     Decision (hd (if legal_directions ctx = [] then [STAY] else legal_directions ctx)) TRUTH"

section \<open>The contract of a brain\<close>

text \<open>
  A brain may keep a memory. What the turn loop relies on is that it answers with one of the legal
  directions it was offered (there always is one).
\<close>

locale thief_brain =
  fixes decide :: "'mem \<Rightarrow> decision_input \<Rightarrow> 'mem \<times> decision"
  assumes decide_legal:
    "legal_directions ctx \<noteq> [] \<Longrightarrow> d_direction (snd (decide mem ctx)) \<in> set (legal_directions ctx)"
begin

lemma decide_applies:
  assumes "legal_directions ctx = legal_move_directions p b"
  shows "\<exists>q. apply_move p (d_direction (snd (decide mem ctx))) b = Inr q"
  using decide_legal [of ctx mem] assms by (auto simp: apply_move_def)

end

section \<open>The baseline brain\<close>

text \<open>
  \<^verbatim>\<open>random.shuffle\<close>: for each \<open>i\<close> from the last index down to 1, swap \<open>i\<close> with a drawn index at
  most \<open>i\<close>.
\<close>

definition swap_list :: "'a list \<Rightarrow> nat \<Rightarrow> nat \<Rightarrow> 'a list" where
  "swap_list xs i j = xs[i := xs ! j, j := xs ! i]"

definition shuffle :: "(nat \<Rightarrow> nat) \<Rightarrow> 'a list \<Rightarrow> 'a list" where
  "shuffle draws xs =
     foldl (\<lambda>xs i. swap_list xs i (draws i mod (i + 1))) xs (rev [1..<length xs])"

text \<open>\<^verbatim>\<open>max(xs, key=f)\<close>: the first element with the greatest key.\<close>

definition max_by :: "('a \<Rightarrow> 'k :: linorder) \<Rightarrow> 'a \<Rightarrow> 'a list \<Rightarrow> 'a" where
  "max_by f x xs = foldl (\<lambda>best y. if f y > f best then y else best) x xs"

definition baseline_score :: "decision_input \<Rightarrow> position \<Rightarrow> direction \<Rightarrow> int \<times> int \<times> int" where
  "baseline_score ctx target d =
     (let dest = apply_direction (di_position ctx) d;
          distance = \<bar>row dest - row target\<bar> + \<bar>col dest - col target\<bar>;
          unvisited = (if dest \<in> di_visited ctx then 0 else 1);
          mobility = int (length (legal_move_directions dest (di_board ctx)))
      in (distance, unvisited, mobility))"

text \<open>The generator is optional; \<open>draws\<close> holds the indices of this turn's shuffle.\<close>

definition baseline_decide :: "(nat \<Rightarrow> nat) option \<Rightarrow> decision_input \<Rightarrow> decision" where
  "baseline_decide draws ctx =
     (if legal_directions ctx = [] then Decision STAY TRUTH
      else let target = most_likely (di_belief ctx);
               candidates = (case draws of None \<Rightarrow> legal_directions ctx
                             | Some f \<Rightarrow> shuffle f (legal_directions ctx))
           in Decision (max_by (baseline_score ctx target) (hd candidates) (tl candidates)) TRUTH)"

lemma mset_swap_list: "i < length xs \<Longrightarrow> j < length xs \<Longrightarrow> mset (swap_list xs i j) = mset xs"
  by (simp add: swap_list_def mset_swap)

lemma mset_shuffle: "mset (shuffle draws xs) = mset xs"
proof -
  have "mset (foldl (\<lambda>xs i. swap_list xs i (draws i mod (i + 1))) ys is) = mset ys \<and>
      length (foldl (\<lambda>xs i. swap_list xs i (draws i mod (i + 1))) ys is) = length ys"
    if "\<forall>i \<in> set is. i < length ys" for ys :: "'a list" and "is"
    using that
  proof (induction "is" arbitrary: ys)
    case Nil
    then show ?case by simp
  next
    case (Cons i "is")
    have "draws i mod (i + 1) < length ys"
      using Cons.prems by (metis Suc_eq_plus1 Suc_leI le_less_trans less_Suc_eq_le list.set_intros(1)
          mod_less_divisor not_less_eq zero_less_Suc)
    moreover have "i < length ys" using Cons.prems by simp
    ultimately have "mset (swap_list ys i (draws i mod (i + 1))) = mset ys"
      by (simp add: mset_swap_list)
    moreover have "length (swap_list ys i (draws i mod (i + 1))) = length ys"
      by (simp add: swap_list_def)
    ultimately show ?case using Cons.IH Cons.prems by simp
  qed
  from this [of "rev [1..<length xs]" xs] show ?thesis by (simp add: shuffle_def)
qed

lemma max_by_mem: "max_by f x xs \<in> set (x # xs)"
  unfolding max_by_def by (induction xs arbitrary: x) auto

lemma max_by_max: "y \<in> set (x # xs) \<Longrightarrow> f y \<le> f (max_by f x xs)"
proof (induction xs arbitrary: x y)
  case Nil
  then show ?case by (simp add: max_by_def)
next
  case (Cons z xs)
  let ?b = "if f z > f x then z else x"
  have "f w \<le> f (max_by f ?b xs)" if "w = ?b \<or> w \<in> set xs" for w
    using that Cons.IH [of w ?b] by auto
  moreover have "f y \<le> f ?b \<or> y \<in> set xs" using Cons.prems by auto
  ultimately show ?case by (auto simp: max_by_def intro: order_trans)
qed

lemma set_shuffle [simp]: "set (shuffle draws xs) = set xs"
  by (metis mset_shuffle set_mset_mset)

lemma shuffle_Nil_iff [simp]: "shuffle draws xs = [] \<longleftrightarrow> xs = []"
  by (metis mset_shuffle mset_zero_iff)

lemma baseline_candidates:
  assumes "legal_directions ctx \<noteq> []"
  obtains c cs where
    "baseline_decide draws ctx = Decision (max_by (baseline_score ctx (most_likely (di_belief ctx))) c cs) TRUTH"
    and "set (c # cs) = set (legal_directions ctx)"
proof -
  let ?xs = "case draws of None \<Rightarrow> legal_directions ctx | Some f \<Rightarrow> shuffle f (legal_directions ctx)"
  have "?xs \<noteq> []" using assms by (cases draws) auto
  then obtain c cs where xs: "?xs = c # cs" by (cases ?xs) auto
  moreover have "set ?xs = set (legal_directions ctx)" by (cases draws) auto
  ultimately show ?thesis
    using assms by (intro that [of c cs]) (simp_all add: baseline_decide_def Let_def)
qed

interpretation baseline: thief_brain "\<lambda>mem ctx. ((), baseline_decide draws ctx)"
proof
  fix ctx :: decision_input and mem
  assume ne: "legal_directions ctx \<noteq> []"
  obtain c cs where
    "baseline_decide draws ctx = Decision (max_by (baseline_score ctx (most_likely (di_belief ctx))) c cs) TRUTH"
    and "set (c # cs) = set (legal_directions ctx)"
    by (rule baseline_candidates [OF ne])
  then show "d_direction (snd ((), baseline_decide draws ctx)) \<in> set (legal_directions ctx)"
    using max_by_mem [of "baseline_score ctx (most_likely (di_belief ctx))" c cs] by simp
qed

section \<open>The entropy-escape brain: utility\<close>

text \<open>
  Weights are finite numbers. The lookahead depth keeps its JSON type, because \<^verbatim>\<open>range\<close> accepts
  integers only.
\<close>

record weights =
  w_expected_distance :: real
  w_lookahead_distance :: real
  w_mobility :: real
  w_reachable_region :: real
  w_barrier_threat_penalty :: real
  w_revisit_penalty :: real
  w_straight_line_penalty :: real
  w_lookahead_depth :: json
  w_deception_risk_threshold :: real
  w_straight_line_window :: real

definition DEFAULT_WEIGHTS :: weights where
  "DEFAULT_WEIGHTS =
     \<lparr>w_expected_distance = 1, w_lookahead_distance = 0.8, w_mobility = 0.5,
      w_reachable_region = 0.4, w_barrier_threat_penalty = 1.2, w_revisit_penalty = 0.2,
      w_straight_line_penalty = 0.3, w_lookahead_depth = JInt 2,
      w_deception_risk_threshold = 0.35, w_straight_line_window = 3\<rparr>"

definition manhattan :: "position \<Rightarrow> position \<Rightarrow> int" where
  "manhattan a b = \<bar>row a - row b\<bar> + \<bar>col a - col b\<bar>"

definition neighbors_including_stay :: "board \<Rightarrow> position \<Rightarrow> position list" where
  "neighbors_including_stay b p =
     (if is_barrier b p then []
      else p # filter (\<lambda>c. \<not> is_barrier b c) (adjacent_cells b p))"

text \<open>\<^verbatim>\<open>range(max(0, depth))\<close>: a positive float, a string or None raises.\<close>

fun range_count :: "json \<Rightarrow> nat res" where
  "range_count (JInt i) = Inr (nat (max 0 i))"
| "range_count (JBool b) = Inr (if b then 1 else 0)"
| "range_count (JFloat (Fin x)) = (if x \<le> 0 then Inr 0 else Inl TypeError)"
| "range_count (JFloat NegInf) = Inr 0"
| "range_count (JFloat NaN) = Inr 0"
| "range_count _ = Inl TypeError"

fun transitions :: "nat \<Rightarrow> belief \<Rightarrow> (position \<Rightarrow> position list) \<Rightarrow> belief res" where
  "transitions 0 b nf = Inr b"
| "transitions (Suc k) b nf = rbind (apply_transition b nf) (\<lambda>b'. transitions k b' nf)"

definition project_belief :: "belief \<Rightarrow> board \<Rightarrow> json \<Rightarrow> belief res" where
  "project_belief b brd depth =
     rbind (range_count depth) (\<lambda>k. transitions k b (neighbors_including_stay brd))"

text \<open>One expansion of the flood fill: the neighbours not seen yet, in order.\<close>

definition expand ::
    "board \<Rightarrow> position \<Rightarrow> position list \<Rightarrow> position list \<Rightarrow> position list \<times> position list" where
  "expand b cell seen queue =
     foldl (\<lambda>(seen, queue) neighbor.
         if neighbor \<in> barriers b \<or> neighbor \<in> set seen then (seen, queue)
         else (seen @ [neighbor], queue @ [neighbor]))
       (seen, queue) (adjacent_cells b cell)"

lemma expand_gen:
  "\<exists>new. foldl (\<lambda>(seen, queue) neighbor.
         if neighbor \<in> barriers b \<or> neighbor \<in> set seen then (seen, queue)
         else (seen @ [neighbor], queue @ [neighbor])) (seen, queue) ns = (seen @ new, queue @ new) \<and>
     length new \<le> length ns \<and> set new \<subseteq> set ns - barriers b \<and> (distinct seen \<longrightarrow> distinct (seen @ new))"
proof (induction ns arbitrary: seen queue)
  case Nil
  then show ?case by simp
next
  case (Cons n ns)
  show ?case
  proof (cases "n \<in> barriers b \<or> n \<in> set seen")
    case True
    with Cons.IH [of seen queue] show ?thesis by fastforce
  next
    case False
    from Cons.IH [of "seen @ [n]" "queue @ [n]"] obtain new where
      "foldl (\<lambda>(seen, queue) neighbor.
         if neighbor \<in> barriers b \<or> neighbor \<in> set seen then (seen, queue)
         else (seen @ [neighbor], queue @ [neighbor])) (seen @ [n], queue @ [n]) ns =
         ((seen @ [n]) @ new, (queue @ [n]) @ new)"
      "length new \<le> length ns" "set new \<subseteq> set ns - barriers b"
      "distinct (seen @ [n]) \<longrightarrow> distinct ((seen @ [n]) @ new)" by blast
    with False show ?thesis by (intro exI [of _ "n # new"]) auto
  qed
qed

lemma expand_new:
  obtains new where "expand b cell seen queue = (seen @ new, queue @ new)"
    and "length new \<le> 4" and "set new \<subseteq> set (adjacent_cells b cell) - barriers b"
    and "distinct seen \<Longrightarrow> distinct (seen @ new)"
proof -
  have "length (adjacent_cells b cell) \<le> 4"
    unfolding adjacent_cells_def
    by (rule order_trans [OF length_filter_le]) (simp add: ORTHOGONAL_DIRECTIONS_def)
  with expand_gen [of b seen queue "adjacent_cells b cell"] that show ?thesis
    unfolding expand_def by fastforce
qed

function flood :: "board \<Rightarrow> int \<Rightarrow> position list \<Rightarrow> position list \<Rightarrow> position list" where
  "flood b limit seen [] = seen"
| "flood b limit seen (cell # queue) =
     (if int (length seen) < limit
      then (case expand b cell seen queue of (seen', queue') \<Rightarrow> flood b limit seen' queue')
      else seen)"
  by pat_completeness auto
termination
proof (relation "measures [\<lambda>(b, limit, seen, queue). nat (limit - int (length seen)),
    \<lambda>(b, limit, seen, queue). length queue]")
  fix b limit seen cell queue seen' queue'
  assume lt: "int (length seen) < limit" and eq: "(seen', queue') = expand b cell seen queue"
  obtain new where "expand b cell seen queue = (seen @ new, queue @ new)"
    by (rule expand_new)
  with eq have "seen' = seen @ new" "queue' = queue @ new" by auto
  with lt show "((b, limit, seen', queue'), (b, limit, seen, cell # queue))
      \<in> measures [\<lambda>(b, limit, seen, queue). nat (limit - int (length seen)),
          \<lambda>(b, limit, seen, queue). length queue]"
    by (cases new) auto
qed simp

definition reachable_area :: "board \<Rightarrow> position \<Rightarrow> int \<Rightarrow> int" where
  "reachable_area b start limit =
     (if is_barrier b start then 0 else int (length (flood b limit [start] [start])))"

definition barrier_threat :: "position \<Rightarrow> board \<Rightarrow> belief \<Rightarrow> real res" where
  "barrier_threat cell b bel =
     rbind (py_nth (top_k bel 1) 0) (\<lambda>(likely_cell, _).
       let proximity = 1 / (1 + of_int (manhattan cell likely_cell));
           open_neighbors = length (filter (\<lambda>c. \<not> is_barrier b c) (adjacent_cells b cell));
           chokepoint = 1 / (1 + real open_neighbors)
       in Inr (proximity * chokepoint))"

definition score_move ::
    "position \<Rightarrow> position \<Rightarrow> belief \<Rightarrow> belief \<Rightarrow> board \<Rightarrow> position set \<Rightarrow> direction list
       \<Rightarrow> weights \<Rightarrow> real res" where
  "score_move origin destination bel projected_belief b visited recent_directions w =
     (let dist = (\<lambda>p q. real_of_int (manhattan p q));
          origin_ed = expected_distance bel origin dist;
          dest_ed = expected_distance bel destination dist;
          score1 = w_expected_distance w * (dest_ed - origin_ed);
          projected_ed = expected_distance projected_belief destination dist;
          score2 = score1 + w_lookahead_distance w * (projected_ed - origin_ed);
          score3 = score2 + w_mobility w *
            real (length (filter (\<lambda>c. \<not> is_barrier b c) (adjacent_cells b destination)));
          score4 = score3 + w_reachable_region w * (of_int (reachable_area b destination 30) / 30)
      in rbind (barrier_threat destination b bel) (\<lambda>threat.
           let score5 = score4 - w_barrier_threat_penalty w * threat;
               score6 = (if destination \<in> visited then score5 - w_revisit_penalty w else score5);
               score7 = (if real (length recent_directions) \<ge> w_straight_line_window w \<and>
                            card (set recent_directions) = 1
                         then score6 - w_straight_line_penalty w else score6)
           in Inr score7))"

definition capture_risk :: "position \<Rightarrow> belief \<Rightarrow> real res" where
  "capture_risk destination bel = probability_at bel destination"

section \<open>The entropy-escape brain: decision\<close>

definition HISTORY_LEN :: nat where
  "HISTORY_LEN = 4"

text \<open>
  The loop over the legal directions; \<open>noise i\<close> is the \<open>i\<close>-th draw in \<open>[0, 1)\<close> of this turn and
  \<open>None\<close> the initial score of minus infinity.
\<close>

definition better_move ::
    "weights \<Rightarrow> (nat \<Rightarrow> real) \<Rightarrow> decision_input \<Rightarrow> belief \<Rightarrow> direction list
       \<Rightarrow> real option \<times> direction \<Rightarrow> nat \<times> direction \<Rightarrow> (real option \<times> direction) res" where
  "better_move w noise ctx projected recent best x =
     rbind (score_move (di_position ctx) (apply_direction (di_position ctx) (snd x)) (di_belief ctx)
         projected (di_board ctx) (di_visited ctx) recent w)
       (\<lambda>s0. let s = s0 + noise (fst x) / 10 ^ 9
             in Inr (if (case fst best of None \<Rightarrow> True | Some bs \<Rightarrow> s > bs)
                     then (Some s, snd x) else best))"

definition entropy_decide_core ::
    "weights \<Rightarrow> (nat \<Rightarrow> real) \<Rightarrow> direction list \<Rightarrow> decision_input \<Rightarrow> decision res" where
  "entropy_decide_core w noise recent ctx =
     (if legal_directions ctx = [] then Inr (Decision STAY TRUTH)
      else rbind (project_belief (di_belief ctx) (di_board ctx) (w_lookahead_depth w)) (\<lambda>projected.
        rbind (rfold (better_move w noise ctx projected recent) (None, hd (legal_directions ctx))
                 (List.enumerate 0 (legal_directions ctx))) (\<lambda>(_, best_direction).
        rbind (capture_risk (apply_direction (di_position ctx) best_direction) (di_belief ctx)) (\<lambda>risk.
          Inr (Decision best_direction
                 (if risk \<ge> w_deception_risk_threshold w then LIE else TRUTH))))))"

text \<open>\<^verbatim>\<open>deque(maxlen=4).append\<close>.\<close>

definition remember :: "direction list \<Rightarrow> direction \<Rightarrow> direction list" where
  "remember recent d =
     (let xs = recent @ [d] in drop (length xs - HISTORY_LEN) xs)"

definition entropy_decide ::
    "weights \<Rightarrow> (nat \<Rightarrow> real) \<Rightarrow> direction list \<Rightarrow> decision_input \<Rightarrow> direction list \<times> decision" where
  "entropy_decide w noise recent ctx =
     (let decision = (case entropy_decide_core w noise recent ctx of
            Inr d \<Rightarrow> d | Inl _ \<Rightarrow> fallback ctx)
      in (remember recent (d_direction decision), decision))"

lemma better_move_dir:
  "rfold (better_move w noise ctx projected recent) (best, d0) xs = Inr (best', d) \<Longrightarrow>
     d = d0 \<or> d \<in> snd ` set xs"
proof (induction xs arbitrary: best d0)
  case Nil
  then show ?case by simp
next
  case (Cons x xs)
  from Cons.prems obtain b1 d1 where
    "better_move w noise ctx projected recent (best, d0) x = Inr (b1, d1)"
    and rest: "rfold (better_move w noise ctx projected recent) (b1, d1) xs = Inr (best', d)"
    by (auto simp: res_simps)
  then have "d1 = d0 \<or> d1 = snd x"
    by (auto simp: better_move_def res_simps Let_def split: if_splits)
  with Cons.IH [OF rest] show ?case by auto
qed

lemma fallback_legal:
  "legal_directions ctx \<noteq> [] \<Longrightarrow> d_direction (fallback ctx) \<in> set (legal_directions ctx)"
  by (simp add: fallback_def)

interpretation entropy: thief_brain "entropy_decide w noise"
proof
  fix ctx :: decision_input and recent
  assume ne: "legal_directions ctx \<noteq> []"
  show "d_direction (snd (entropy_decide w noise recent ctx)) \<in> set (legal_directions ctx)"
  proof (cases "entropy_decide_core w noise recent ctx")
    case (Inl e)
    with fallback_legal [OF ne] show ?thesis by (simp add: entropy_decide_def Let_def)
  next
    case (Inr d)
    with ne obtain projected best' dir where
      "rfold (better_move w noise ctx projected recent) (None, hd (legal_directions ctx))
         (List.enumerate 0 (legal_directions ctx)) = Inr (best', dir)" and "d_direction d = dir"
      by (auto simp: entropy_decide_core_def res_simps)
    then have "d_direction d \<in> set (legal_directions ctx)"
      using better_move_dir [of w noise ctx projected recent None] ne
      by (metis (no_types, lifting) hd_in_set list.set_map map_snd_enumerate)
    with Inr show ?thesis by (simp add: entropy_decide_def Let_def)
  qed
qed

section \<open>The flood fill is bounded\<close>

lemma flood_bounds:
  "int (length seen) \<le> limit + 3 \<Longrightarrow>
     length seen \<le> length (flood b limit seen queue) \<and> int (length (flood b limit seen queue)) \<le> limit + 3"
proof (induction b limit seen queue rule: flood.induct)
  case (1 b limit seen)
  then show ?case by simp
next
  case (2 b limit seen cell queue)
  obtain new where new: "expand b cell seen queue = (seen @ new, queue @ new)" "length new \<le> 4"
    by (rule expand_new)
  show ?case
  proof (cases "int (length seen) < limit")
    case True
    with new(2) have "int (length (seen @ new)) \<le> limit + 3" by simp
    from "2.IH" [OF True new(1) [symmetric] this] show ?thesis
      using True new(1) by simp
  next
    case False
    with "2.prems" show ?thesis by simp
  qed
qed

section \<open>Properties\<close>

text \<open>
  C23. Both brains only ever choose a direction they were offered, whatever the belief, the
  weights, the draws and the memory are, even when their scoring raises; so the move they choose can be
  applied.
\<close>

theorem brains_choose_legal_moves:
  assumes "legal_directions ctx = legal_move_directions p b"
  shows "(\<exists>q. apply_move p (d_direction (baseline_decide draws ctx)) b = Inr q) \<and>
         (\<exists>q. apply_move p (d_direction (snd (entropy_decide w noise recent ctx))) b = Inr q)"
  using baseline.decide_applies [OF assms, of draws] entropy.decide_applies [OF assms] by simp

theorem brains_choose_legal_moves_witness:
  "\<exists>q. apply_move (Pos 0 0) (d_direction (snd (entropy_decide DEFAULT_WEIGHTS (\<lambda>_. 0) []
     \<lparr>legal_directions = legal_move_directions (Pos 0 0) \<lparr>board_size = 7, barriers = {Pos 0 1}\<rparr>,
      di_position = Pos 0 0, di_visited = {}, di_board = \<lparr>board_size = 7, barriers = {Pos 0 1}\<rparr>,
      di_belief = \<lparr>b_size = 7, b_grid = []\<rparr>, di_step = 0,
      di_deadline = \<lparr>dl_timeout = 30, dl_start = None\<rparr>\<rparr>)))
     \<lparr>board_size = 7, barriers = {Pos 0 1}\<rparr> = Inr q"
  using brains_choose_legal_moves [of "\<lparr>legal_directions = legal_move_directions (Pos 0 0)
      \<lparr>board_size = 7, barriers = {Pos 0 1}\<rparr>,
      di_position = Pos 0 0, di_visited = {}, di_board = \<lparr>board_size = 7, barriers = {Pos 0 1}\<rparr>,
      di_belief = \<lparr>b_size = 7, b_grid = []\<rparr>, di_step = 0,
      di_deadline = \<lparr>dl_timeout = 30, dl_start = None\<rparr>\<rparr>" "Pos 0 0"
      "\<lparr>board_size = 7, barriers = {Pos 0 1}\<rparr>" None DEFAULT_WEIGHTS "\<lambda>_. 0" "[]"]
  by auto

text \<open>
  The flood fill terminates and its cost is bounded: between one and \<open>limit + 3\<close> cells are
  counted for a free start cell, none for a barrier.
\<close>

lemma reachable_area_bounded:
  assumes "1 \<le> limit"
  shows "if is_barrier b start then reachable_area b start limit = 0
         else 1 \<le> reachable_area b start limit \<and> reachable_area b start limit \<le> limit + 3"
  using flood_bounds [of "[start]" limit b "[start]"] assms by (auto simp: reachable_area_def)

end
