(* ===== verification/Config.thy ===== *)
theory Config
  imports PyJson Geometry
begin

text \<open>
  Loading and validating the three configuration files: \<^verbatim>\<open>shared/config_sections.py\<close>,
  \<^verbatim>\<open>config_validation.py\<close>, \<^verbatim>\<open>config_models.py\<close>, \<^verbatim>\<open>private_config.py\<close>,
  \<^verbatim>\<open>rate_limits_model.py\<close>, the parsed part of \<^verbatim>\<open>config_loader.py\<close>, and the scores of
  \<^verbatim>\<open>domain/scoring.py\<close>. The dataclasses do not check types at run time, so a section is
  the dict of its constructor's keyword arguments, with JSON values. Error messages keep their fixed part.
\<close>

section \<open>Sections\<close>

definition BoardAndAgents_fields :: "string list" where
  "BoardAndAgents_fields =
     [''grid_size'', ''num_agents'', ''thief_start'', ''cop_start'', ''axis_origin_corner'',
      ''axis_start_index'']"

definition World_fields :: "string list" where
  "World_fields = [''map_area'', ''hint_max_words'']"

definition MovementAndBarriers_fields :: "string list" where
  "MovementAndBarriers_fields = [''move_set'', ''max_barriers'', ''max_moves'', ''survival_threshold'']"

definition Scoring_fields :: "string list" where
  "Scoring_fields =
     [''capture_cop'', ''capture_thief'', ''survival_cop'', ''survival_thief'', ''tie_score'',
      ''technical_loss'']"

definition Pheromones_fields :: "string list" where
  "Pheromones_fields = [''pheromone_center_intensity'', ''pheromone_decay'', ''pheromone_grid_size'']"

definition Pheromones_optional :: "(string \<times> json) list" where
  "Pheromones_optional = [(''pheromone_min_center_intensity'', JNull)]"

definition NetworkAndLeague_fields :: "string list" where
  "NetworkAndLeague_fields =
     [''response_timeout_sec'', ''watchdog_timeout_sec'', ''num_games'', ''diversity_reward'',
      ''min_games_to_pass'', ''max_games_per_team'', ''token_budget_per_series'']"

definition RateLimiterGatekeeper_fields :: "string list" where
  "RateLimiterGatekeeper_fields =
     [''requests_per_minute'', ''concurrent_requests'', ''retry_backoff_sec'', ''max_retries'',
      ''queue_depth'']"

text \<open>
  \<^verbatim>\<open>Section(**kwargs)\<close>: a keyword that is not a field, or a field without a default that is
  not given, is a \<^verbatim>\<open>TypeError\<close>. Attribute access is \<open>attr\<close>.
\<close>

definition construct :: "string list \<Rightarrow> (string \<times> json) list \<Rightarrow> jobj \<Rightarrow> jobj res" where
  "construct names optional kwargs =
     (if list_all (\<lambda>(k, _). k \<in> set names \<or> k \<in> set (map fst optional)) kwargs \<and>
         list_all (\<lambda>f. jhas kwargs f) names
      then Inr (map (\<lambda>f. (f, jget kwargs f JNull)) names @
                map (\<lambda>(f, dflt). (f, jget kwargs f dflt)) optional)
      else Inl TypeError)"

definition attr :: "jobj \<Rightarrow> string \<Rightarrow> json" where
  "attr s k = jget s k JNull"

section \<open>Validation\<close>

definition is_int :: "json \<Rightarrow> bool" where
  "is_int v = (case v of JInt _ \<Rightarrow> True | JBool _ \<Rightarrow> True | _ \<Rightarrow> False)"

definition cfg_err :: "string \<Rightarrow> py_exc" where
  "cfg_err what = ConfigError what"

definition validate_board_and_agents :: "jobj \<Rightarrow> unit res" where
  "validate_board_and_agents s =
     rbind (if \<not> is_int (attr s ''grid_size'') then Inr True else lt_int (attr s ''grid_size'') 7)
       (\<lambda>bad. if bad then Inl (cfg_err ''grid_size must be an int >= 7 (minimum)'')
         else if \<not> json_eq (attr s ''num_agents'') (JInt 2)
         then Inl (cfg_err ''num_agents is constant=2'') else Inr ())"

definition EXPECTED_MOVE_SET :: "string list" where
  "EXPECTED_MOVE_SET = [''N'', ''S'', ''E'', ''W'', ''STAY'']"

text \<open>A check \<^verbatim>\<open>if value < bound: raise ConfigError\<close>.\<close>

definition at_least :: "json \<Rightarrow> int \<Rightarrow> string \<Rightarrow> unit res" where
  "at_least v bound what = rbind (lt_int v bound) (\<lambda>bad. if bad then Inl (cfg_err what) else Inr ())"

text \<open>\<^verbatim>\<open>set(move_set)\<close> needs hashable elements; only strings can equal the expected ones.\<close>

definition is_expected_move_set :: "json list \<Rightarrow> bool" where
  "is_expected_move_set ms \<longleftrightarrow>
     list_all (\<lambda>v. case v of JStr x \<Rightarrow> x \<in> set EXPECTED_MOVE_SET | _ \<Rightarrow> False) ms \<and>
     list_all (\<lambda>x. JStr x \<in> set ms) EXPECTED_MOVE_SET"

definition validate_movement_and_barriers :: "json list \<Rightarrow> jobj \<Rightarrow> unit res" where
  "validate_movement_and_barriers move_set s =
     (if \<not> list_all hashable move_set then Inl TypeError
      else if \<not> is_expected_move_set move_set then Inl (cfg_err ''move_set is constant'')
      else rbind (at_least (attr s ''max_barriers'') 14 ''max_barriers must be >= 14 (minimum)'') (\<lambda>_.
           rbind (at_least (attr s ''max_moves'') 35 ''max_moves must be >= 35 (minimum)'') (\<lambda>_.
           at_least (attr s ''survival_threshold'') 35 ''survival_threshold must be >= 35 (minimum)'')))"

text \<open>A loop over a dict of expected constants, and one over a dict of minimums.\<close>

fun check_constants :: "string \<Rightarrow> (string \<times> int) list \<Rightarrow> jobj \<Rightarrow> unit res" where
  "check_constants sect [] s = Inr ()"
| "check_constants sect ((k, v) # kvs) s =
     (if \<not> json_eq (attr s k) (JInt v) then Inl (cfg_err (sect @ '' is constant: '' @ k))
      else check_constants sect kvs s)"

fun check_minimums :: "string \<Rightarrow> (string \<times> int) list \<Rightarrow> jobj \<Rightarrow> unit res" where
  "check_minimums sect [] s = Inr ()"
| "check_minimums sect ((k, v) # kvs) s =
     rbind (at_least (attr s k) v (sect @ '' minimum: '' @ k)) (\<lambda>_. check_minimums sect kvs s)"

definition SCORING_CONSTANTS :: "(string \<times> int) list" where
  "SCORING_CONSTANTS =
     [(''capture_cop'', 20), (''capture_thief'', 5), (''survival_cop'', 5),
      (''survival_thief'', 10), (''tie_score'', 2), (''technical_loss'', 0)]"

definition validate_scoring :: "jobj \<Rightarrow> unit res" where
  "validate_scoring s = check_constants ''scoring'' SCORING_CONSTANTS s"

definition validate_pheromones :: "jobj \<Rightarrow> unit res" where
  "validate_pheromones s =
     (if \<not> json_eq (attr s ''pheromone_center_intensity'') (JFloat (Fin 0.9))
      then Inl (cfg_err ''pheromone_center_intensity is constant=0.9'')
      else if \<not> json_eq (attr s ''pheromone_decay'') (JFloat (Fin 0.10))
      then Inl (cfg_err ''pheromone_decay is constant=0.10'')
      else if \<not> json_eq (attr s ''pheromone_grid_size'') (JInt 5)
      then Inl (cfg_err ''pheromone_grid_size is constant=5'')
      else Inr ())"

definition validate_network_and_league :: "jobj \<Rightarrow> unit res" where
  "validate_network_and_league s =
     rbind (if \<not> is_int (attr s ''num_games'') then Inr True else lt_int (attr s ''num_games'') 1)
       (\<lambda>bad. if bad then Inl (cfg_err ''num_games must be a positive int'')
         else check_constants ''network''
           [(''diversity_reward'', 10), (''min_games_to_pass'', 2), (''max_games_per_team'', 10)] s)"

definition RATE_LIMIT_MINIMUMS :: "(string \<times> int) list" where
  "RATE_LIMIT_MINIMUMS =
     [(''requests_per_minute'', 30), (''concurrent_requests'', 2), (''retry_backoff_sec'', 5),
      (''max_retries'', 3), (''queue_depth'', 100)]"

definition validate_rate_limiter_gatekeeper :: "jobj \<Rightarrow> unit res" where
  "validate_rate_limiter_gatekeeper s =
     check_minimums ''rate_limiter_gatekeeper'' RATE_LIMIT_MINIMUMS s"

definition LEAGUE_NUM_GAMES :: int where
  "LEAGUE_NUM_GAMES = 6"

definition is_league_series_ready :: "jobj \<Rightarrow> bool" where
  "is_league_series_ready s = json_eq (attr s ''num_games'') (JInt LEAGUE_NUM_GAMES)"

section \<open>The shared configuration\<close>

definition SHARED_TABLE_KEYS :: "string list" where
  "SHARED_TABLE_KEYS =
     [''board_and_agents'', ''world'', ''movement_and_barriers'', ''scoring'', ''pheromones'',
      ''network_and_league'', ''rate_limiter_gatekeeper'']"

definition REQUIRED_KEYS :: "string list" where
  "REQUIRED_KEYS = [''schema_version'', ''agreed_between''] @ SHARED_TABLE_KEYS"

definition clean :: "jobj \<Rightarrow> jobj" where
  "clean section = filter (\<lambda>(k, v). take 1 k \<noteq> ''_'') section"

definition require_section :: "jobj \<Rightarrow> string \<Rightarrow> jobj res" where
  "require_section data key =
     (case map_of data key of
        None \<Rightarrow> Inl (cfg_err (''missing required shared config section: '' @ key))
      | Some (JObj v) \<Rightarrow> Inr (clean v)
      | Some _ \<Rightarrow> Inl (cfg_err (''shared config section must be an object: '' @ key)))"

text \<open>
  The optional extension must be a finite number, not a bool, and not negative. An integer too
  large for a float makes \<^verbatim>\<open>math.isfinite\<close> raise.
\<close>

definition FLOAT_LIMIT :: int where
  "FLOAT_LIMIT = 2 ^ 1024 - 2 ^ 970"

definition extension_ok :: "json \<Rightarrow> bool res" where
  "extension_ok v =
     (case v of
        JInt i \<Rightarrow> (if \<bar>i\<bar> \<ge> FLOAT_LIMIT then Inl OverflowError else Inr (i \<ge> 0))
      | JFloat (Fin x) \<Rightarrow> Inr (x \<ge> 0)
      | _ \<Rightarrow> Inr False)"

definition extract_pheromones :: "jobj \<Rightarrow> jobj res" where
  "extract_pheromones data =
     rbind (require_section data ''pheromones'') (\<lambda>section.
       case map_of section ''pheromone_min_center_intensity'' of
         None \<Rightarrow> Inr section
       | Some v \<Rightarrow> rbind (extension_ok v) (\<lambda>ok. if ok then Inr section
           else Inl (cfg_err ''pheromone_min_center_intensity must be a finite non-negative number'')))"

text \<open>\<^verbatim>\<open>tuple(x)\<close>: lists, strings and dicts can be iterated.\<close>

fun py_tuple :: "json \<Rightarrow> json list res" where
  "py_tuple (JList xs) = Inr xs"
| "py_tuple (JStr s) = Inr (map (\<lambda>c. JStr [c]) s)"
| "py_tuple (JObj d) = Inr (map (\<lambda>(k, _). JStr k) d)"
| "py_tuple _ = Inl TypeError"

record shared_config =
  sc_schema_version :: json
  sc_agreed_between :: "json list"
  sc_thief_start :: "json list"
  sc_cop_start :: "json list"
  sc_board :: jobj
  sc_world :: jobj
  sc_move_set :: "json list"
  sc_movement :: jobj
  sc_scoring :: jobj
  sc_pheromones :: jobj
  sc_network :: jobj
  sc_rate_limits :: jobj

definition config_from_dict :: "jobj \<Rightarrow> shared_config res" where
  "config_from_dict data =
     (if \<not> list_all (jhas data) REQUIRED_KEYS
      then Inl (cfg_err ''missing required shared config keys'')
      else
        rbind (require_section data ''board_and_agents'') (\<lambda>b0.
        rbind (construct BoardAndAgents_fields [] b0) (\<lambda>b.
        rbind (require_section data ''world'') (\<lambda>w0.
        rbind (construct World_fields [] w0) (\<lambda>w.
        rbind (require_section data ''movement_and_barriers'') (\<lambda>m0.
        rbind (construct MovementAndBarriers_fields [] m0) (\<lambda>m.
        rbind (require_section data ''scoring'') (\<lambda>s0.
        rbind (construct Scoring_fields [] s0) (\<lambda>s.
        rbind (extract_pheromones data) (\<lambda>p0.
        rbind (construct Pheromones_fields Pheromones_optional p0) (\<lambda>p.
        rbind (require_section data ''network_and_league'') (\<lambda>n0.
        rbind (construct NetworkAndLeague_fields [] n0) (\<lambda>n.
        rbind (require_section data ''rate_limiter_gatekeeper'') (\<lambda>r0.
        rbind (construct RateLimiterGatekeeper_fields [] r0) (\<lambda>r.
        rbind (py_tuple (attr b ''thief_start'')) (\<lambda>thief_start.
        rbind (py_tuple (attr b ''cop_start'')) (\<lambda>cop_start.
        rbind (py_tuple (attr m ''move_set'')) (\<lambda>move_set.
        rbind (validate_board_and_agents b) (\<lambda>_.
        rbind (validate_movement_and_barriers move_set m) (\<lambda>_.
        rbind (validate_scoring s) (\<lambda>_.
        rbind (validate_pheromones p) (\<lambda>_.
        rbind (validate_network_and_league n) (\<lambda>_.
        rbind (validate_rate_limiter_gatekeeper r) (\<lambda>_.
        rbind (py_tuple (attr data ''agreed_between'')) (\<lambda>agreed.
          Inr \<lparr>sc_schema_version = attr data ''schema_version'', sc_agreed_between = agreed,
               sc_thief_start = thief_start, sc_cop_start = cop_start,
               sc_board = b, sc_world = w, sc_move_set = move_set, sc_movement = m,
               sc_scoring = s, sc_pheromones = p, sc_network = n, sc_rate_limits = r\<rparr>)))))))))))))))))))))))))"

section \<open>The private configuration and the rate limits\<close>

definition assert_no_shared_table_override :: "jobj \<Rightarrow> unit res" where
  "assert_no_shared_table_override private_data =
     (if list_ex (jhas private_data) SHARED_TABLE_KEYS
      then Inl (PrivateOverrideError ''private config attempts to override binding shared field(s)'')
      else Inr ())"

definition RATE_LIMITS_REQUIRED :: "string list" where
  "RATE_LIMITS_REQUIRED =
     [''requests_per_minute'', ''concurrent_requests'', ''retry_backoff_sec'', ''max_retries'',
      ''queue_depth'']"

definition rate_limits_from_dict :: "jobj \<Rightarrow> jobj res" where
  "rate_limits_from_dict data =
     (if \<not> list_all (jhas data) RATE_LIMITS_REQUIRED
      then Inl (cfg_err ''rate_limits.json missing required keys'')
      else Inr (map (\<lambda>k. (k, attr data k)) RATE_LIMITS_REQUIRED))"

text \<open>\<^verbatim>\<open>load_rate_limits\<close> after the file was parsed: comments and the mail section are dropped.\<close>

definition load_rate_limits :: "json \<Rightarrow> jobj res" where
  "load_rate_limits parsed =
     rbind (obj_or_raise parsed) (\<lambda>data.
       rate_limits_from_dict (filter (\<lambda>(k, v). take 1 k \<noteq> ''_'' \<and> k \<noteq> ''gmail'') data))"

definition load_shared_config :: "json \<Rightarrow> shared_config res" where
  "load_shared_config parsed =
     (case parsed of JObj data \<Rightarrow> config_from_dict data
      | _ \<Rightarrow> Inl (cfg_err ''shared config must be a JSON object''))"

section \<open>Scores\<close>

record scoring =
  capture_cop :: int
  capture_thief :: int
  survival_cop :: int
  survival_thief :: int
  tie_score :: int
  technical_loss :: int

definition score_sub_game :: "sub_game_result \<Rightarrow> scoring \<Rightarrow> bool \<Rightarrow> int \<times> int" where
  "score_sub_game r s tie =
     (if tie then (tie_score s, tie_score s)
      else case r of
        CAPTURE \<Rightarrow> (capture_cop s, capture_thief s)
      | SURVIVAL \<Rightarrow> (survival_cop s, survival_thief s)
      | TECHNICAL_LOSS \<Rightarrow> (technical_loss s, technical_loss s))"

section \<open>What a loaded configuration guarantees\<close>

lemma check_constants_Inr:
  "check_constants sect kvs s = Inr u \<longleftrightarrow> list_all (\<lambda>(k, v). json_eq (attr s k) (JInt v)) kvs"
  by (induction sect kvs s rule: check_constants.induct) auto

lemma at_least_Inr: "at_least v n what = Inr u \<longleftrightarrow> lt_int v n = Inr False"
  by (auto simp: at_least_def res_simps)

lemma check_minimums_Inr:
  "check_minimums sect kvs s = Inr u \<longleftrightarrow> list_all (\<lambda>(k, v). lt_int (attr s k) v = Inr False) kvs"
  by (induction sect kvs s rule: check_minimums.induct) (auto simp: res_simps at_least_Inr)

lemma validate_board_Inr:
  "validate_board_and_agents s = Inr u \<Longrightarrow> \<exists>n \<ge> 7. attr s ''grid_size'' = JInt n"
  by (cases "attr s ''grid_size''")
    (auto simp: validate_board_and_agents_def is_int_def lt_int_def split: if_splits)

definition binding_config :: "shared_config \<Rightarrow> bool" where
  "binding_config c \<longleftrightarrow>
     (\<exists>n \<ge> 7. attr (sc_board c) ''grid_size'' = JInt n) \<and>
     json_eq (attr (sc_pheromones c) ''pheromone_decay'') (JFloat (Fin 0.10)) \<and>
     lt_int (attr (sc_movement c) ''survival_threshold'') 35 = Inr False \<and>
     list_all (\<lambda>(k, v). json_eq (attr (sc_scoring c) k) (JInt v)) SCORING_CONSTANTS \<and>
     list_all (\<lambda>(k, v). lt_int (attr (sc_rate_limits c) k) v = Inr False) RATE_LIMIT_MINIMUMS \<and>
     is_expected_move_set (sc_move_set c)"

definition sample_config :: jobj where
  "sample_config =
     [(''schema_version'', JStr ''1.0''), (''agreed_between'', JList [JStr ''a'', JStr ''b'']),
      (''board_and_agents'', JObj [(''grid_size'', JInt 7), (''num_agents'', JInt 2),
         (''thief_start'', JList [JInt 6, JInt 6]), (''cop_start'', JList [JInt 0, JInt 0]),
         (''axis_origin_corner'', JStr ''top_left''), (''axis_start_index'', JInt 0)]),
      (''world'', JObj [(''map_area'', JStr ''x''), (''hint_max_words'', JInt 15)]),
      (''movement_and_barriers'', JObj [(''move_set'', JList (map JStr [''N'', ''S'', ''E'', ''W'', ''STAY''])),
         (''max_barriers'', JInt 14), (''max_moves'', JInt 35), (''survival_threshold'', JInt 35)]),
      (''scoring'', JObj [(''_note'', JStr ''t''), (''capture_cop'', JInt 20), (''capture_thief'', JInt 5),
         (''survival_cop'', JInt 5), (''survival_thief'', JInt 10), (''tie_score'', JInt 2),
         (''technical_loss'', JInt 0)]),
      (''pheromones'', JObj [(''pheromone_center_intensity'', JFloat (Fin 0.9)),
         (''pheromone_decay'', JFloat (Fin 0.10)), (''pheromone_grid_size'', JInt 5)]),
      (''network_and_league'', JObj [(''response_timeout_sec'', JInt 30), (''watchdog_timeout_sec'', JInt 60),
         (''num_games'', JInt 6), (''diversity_reward'', JInt 10), (''min_games_to_pass'', JInt 2),
         (''max_games_per_team'', JInt 10), (''token_budget_per_series'', JInt 0)]),
      (''rate_limiter_gatekeeper'', JObj [(''requests_per_minute'', JInt 30), (''concurrent_requests'', JInt 2),
         (''retry_backoff_sec'', JInt 5), (''max_retries'', JInt 3), (''queue_depth'', JInt 100)])]"

section \<open>Properties\<close>

lemma config_binding:
  assumes "config_from_dict data = Inr c"
  shows "binding_config c"
  using assms
  by (auto simp: config_from_dict_def binding_config_def res_simps check_minimums_Inr at_least_Inr
      validate_movement_and_barriers_def validate_scoring_def check_constants_Inr
      validate_rate_limiter_gatekeeper_def validate_pheromones_def
      dest!: validate_board_Inr split: if_splits)



end
