(* ===== verification/RateLimit.thy ===== *)
theory RateLimit
  imports Prelude
begin

text \<open>
  The three rate limiters: the incoming gatekeeper (\<^verbatim>\<open>services/incoming_gatekeeper.py\<close>) with
  its middleware (\<^verbatim>\<open>infrastructure/mcp_rate_limit_middleware.py\<close>), the outbound pacer
  (\<^verbatim>\<open>infrastructure/outbound_pacer.py\<close>) and the mail gatekeeper
  (\<^verbatim>\<open>infrastructure/gmail_gatekeeper.py\<close>). Clock reads are arguments. The contract of a
  sliding-window limiter is the locale \<open>sliding_window\<close>, interpreted on the first two.
\<close>

record rate_config =
  requests_per_minute :: int
  concurrent_requests :: int
  retry_backoff_sec :: int
  max_retries :: int
  queue_depth :: int

section \<open>Sliding windows\<close>

text \<open>\<^verbatim>\<open>while recent and now - recent[0] > 60.0: recent.popleft()\<close>\<close>

definition prune :: "real \<Rightarrow> real list \<Rightarrow> real list" where
  "prune now recent = dropWhile (\<lambda>t. now - t > 60) recent"

lemma prune_sorted:
  "sorted xs \<Longrightarrow> prune now xs = filter (\<lambda>t. now - t \<le> 60) xs"
  unfolding prune_def
proof (induction xs)
  case Nil
  then show ?case by simp
next
  case (Cons x xs)
  show ?case
  proof (cases "now - x > 60")
    case True
    with Cons show ?thesis by simp
  next
    case False
    with Cons.prems have "\<forall>y \<in> set xs. now - y \<le> 60" by force
    then have "filter (\<lambda>t. now - t \<le> 60) xs = xs" by (simp add: filter_id_conv)
    with False show ?thesis by simp
  qed
qed

text \<open>
  A limiter admits some of its operations. An operation may read the clock twice: when it
  prunes and checks, and when it records the admission. The law: it records only after
  finding fewer than \<open>rpm\<close> admissions left after pruning, and otherwise at most prunes.
\<close>

locale sliding_window =
  fixes step :: "'s \<Rightarrow> 'op \<Rightarrow> 's \<times> real option"
    and recent :: "'s \<Rightarrow> real list"
    and clock :: "'op \<Rightarrow> (real \<times> real) option"
    and rpm :: int
  assumes admitted: "step s x = (s', Some t) \<Longrightarrow>
      \<exists>c. clock x = Some (c, t) \<and> recent s' = prune c (recent s) @ [t] \<and>
          int (length (prune c (recent s))) < rpm"
    and not_admitted: "step s x = (s', None) \<Longrightarrow>
      recent s' = recent s \<or> (\<exists>c t. clock x = Some (c, t) \<and> recent s' = prune c (recent s))"
begin

fun admissions :: "'s \<Rightarrow> 'op list \<Rightarrow> real list" where
  "admissions s [] = []"
| "admissions s (x # xs) =
     (case step s x of (s', None) \<Rightarrow> admissions s' xs | (s', Some t) \<Rightarrow> t # admissions s' xs)"

definition reads :: "'op list \<Rightarrow> real list" where
  "reads xs = concat (map (\<lambda>x. case clock x of None \<Rightarrow> [] | Some (c, t) \<Rightarrow> [c, t]) xs)"

text \<open>
  What a state knows of the admissions so far: exactly those not older than 60 seconds at some
  past read of the clock.
\<close>

definition knows :: "real \<Rightarrow> real list \<Rightarrow> 's \<Rightarrow> bool" where
  "knows now adm s \<longleftrightarrow> sorted adm \<and> (\<forall>a \<in> set adm. a \<le> now) \<and>
     (\<exists>c \<le> now. recent s = filter (\<lambda>a. c - a \<le> 60) adm)"

definition spaced :: "real list \<Rightarrow> bool" where
  "spaced adm \<longleftrightarrow> (\<forall>i. int i + rpm < int (length adm) \<longrightarrow> adm ! (i + nat rpm) - adm ! i > 60)"

lemma prune_filter:
  assumes "sorted adm" and "c' \<le> c"
  shows "prune c (filter (\<lambda>a. c' - a \<le> 60) adm) = filter (\<lambda>a. c - a \<le> 60) adm"
proof -
  have "sorted (filter (\<lambda>a. c' - a \<le> 60) adm)" using assms(1) by (rule sorted_wrt_filter)
  then have "prune c (filter (\<lambda>a. c' - a \<le> 60) adm) =
      filter (\<lambda>a. c - a \<le> 60) (filter (\<lambda>a. c' - a \<le> 60) adm)" by (rule prune_sorted)
  also have "\<dots> = filter (\<lambda>a. c - a \<le> 60) adm"
    using assms(2) by (auto intro!: filter_cong simp: filter_filter)
  finally show ?thesis .
qed

lemma spaced_snoc:
  assumes "0 \<le> rpm" and "spaced adm" and "sorted adm" and "c \<le> t"
    and "int (length (filter (\<lambda>a. c - a \<le> 60) adm)) < rpm"
  shows "spaced (adm @ [t])"
  unfolding spaced_def
proof (intro allI impI)
  fix i assume i: "int i + rpm < int (length (adm @ [t]))"
  show "(adm @ [t]) ! (i + nat rpm) - (adm @ [t]) ! i > 60"
  proof (cases "int i + rpm < int (length adm)")
    case True
    with assms(1,2) show ?thesis by (auto simp: spaced_def nth_append)
  next
    case False
    with i assms(1) have n: "i + nat rpm = length adm" by simp
    have "0 < rpm" using assms(5) by linarith
    with n have il: "i < length adm" by linarith
    have "t - adm ! i > 60"
    proof (rule ccontr)
      assume "\<not> t - adm ! i > 60"
      then have "c - adm ! j \<le> 60" if "i \<le> j" "j < length adm" for j
        using sorted_nth_mono [OF assms(3) that] assms(4) by linarith
      then have "filter (\<lambda>a. c - a \<le> 60) (drop i adm) = drop i adm"
        by (auto simp: filter_id_conv in_set_conv_nth)
      then have "length adm - i \<le> length (filter (\<lambda>a. c - a \<le> 60) adm)"
        by (metis append_take_drop_id filter_append le_add2 length_append length_drop)
      with assms(1,5) n show False by linarith
    qed
    with n il show ?thesis by (simp add: nth_append)
  qed
qed

lemma knows_step:
  assumes k: "knows now adm s" and sp: "spaced adm" and rpm: "0 \<le> rpm"
    and st: "step s x = (s', r)" and times: "sorted (now # reads [x])"
  shows "knows (last (now # reads [x])) (adm @ (case r of None \<Rightarrow> [] | Some t \<Rightarrow> [t])) s' \<and>
         spaced (adm @ (case r of None \<Rightarrow> [] | Some t \<Rightarrow> [t]))"
proof -
  from k obtain c0 where so: "sorted adm" and le: "\<forall>a \<in> set adm. a \<le> now" and c0: "c0 \<le> now"
    and rec: "recent s = filter (\<lambda>a. c0 - a \<le> 60) adm" unfolding knows_def by blast
  show ?thesis
  proof (cases r)
    case None
    from not_admitted [OF st [unfolded None]] show ?thesis
    proof
      assume same: "recent s' = recent s"
      have "now \<le> last (now # reads [x])" using times by (cases "reads [x]") auto
      with so le c0 rec same sp None show ?thesis
        unfolding knows_def by (auto intro: order_trans intro!: exI [of _ c0])
    next
      assume "\<exists>c t. clock x = Some (c, t) \<and> recent s' = prune c (recent s)"
      then obtain c t where ct: "clock x = Some (c, t)" "recent s' = prune c (recent s)" by blast
      with times have "now \<le> c" "c \<le> t" by (auto simp: reads_def)
      with ct prune_filter [OF so, of c0 c] c0 rec so le sp None show ?thesis
        unfolding knows_def by (auto simp: reads_def intro!: exI [of _ c])
    qed
  next
    case (Some t)
    from admitted [OF st [unfolded Some]] obtain c where c: "clock x = Some (c, t)"
      "recent s' = prune c (recent s) @ [t]" "int (length (prune c (recent s))) < rpm" by blast
    with times have ct: "now \<le> c" "c \<le> t" by (auto simp: reads_def)
    have pr: "prune c (recent s) = filter (\<lambda>a. c - a \<le> 60) adm"
      using prune_filter [OF so, of c0 c] c0 ct rec by simp
    have "spaced (adm @ [t])"
      using spaced_snoc [OF rpm sp so ct(2)] c(3) pr by simp
    moreover have "knows t (adm @ [t]) s'"
      unfolding knows_def using so le ct c pr by (auto simp: sorted_append intro!: exI [of _ c])
    ultimately show ?thesis using Some c(1) by (simp add: reads_def)
  qed
qed

text \<open>The window law: no \<open>rpm + 1\<close> admissions ever fall within 60 seconds.\<close>

lemma window:
  assumes "0 \<le> rpm" and "recent s = []" and "sorted (reads xs)"
  shows "spaced (admissions s xs)"
proof -
  have "spaced (adm @ admissions s xs)"
    if "knows now adm s" and "spaced adm" and "sorted (now # reads xs)" for now adm s xs
    using that
  proof (induction xs arbitrary: now adm s)
    case Nil
    then show ?case by simp
  next
    case (Cons x xs)
    obtain s' r where st: "step s x = (s', r)" by fastforce
    have rd: "reads (x # xs) = reads [x] @ reads xs" by (simp add: reads_def)
    with Cons.prems(3) have t1: "sorted (now # reads [x])" by (auto simp: sorted_append)
    have t2: "sorted (last (now # reads [x]) # reads xs)"
      using Cons.prems(3) unfolding rd by (auto simp: sorted_append)
    let ?new = "case r of None \<Rightarrow> [] | Some t \<Rightarrow> [t]"
    from knows_step [OF Cons.prems(1,2) assms(1) st t1]
    have "knows (last (now # reads [x])) (adm @ ?new) s'" and "spaced (adm @ ?new)" by auto
    from Cons.IH [OF this t2] st show ?case by (cases r) simp_all
  qed
  moreover have "knows (Min (set (0 # reads xs))) [] s"
    unfolding knows_def assms(2) by (intro conjI exI [of _ "Min (set (0 # reads xs))"]) auto
  moreover have "sorted (Min (set (0 # reads xs)) # reads xs)"
    using assms(3) by auto
  moreover have "spaced []" using assms(1) by (simp add: spaced_def)
  ultimately show ?thesis by fastforce
qed

end

section \<open>The incoming gatekeeper\<close>

text \<open>
  \<open>gk_active\<close> counts the tasks that hold the semaphore; \<open>gk_queue_depth\<close> those inside \<^verbatim>\<open>slot\<close>,
  waiting or active.
\<close>

record gatekeeper =
  gk_config :: rate_config
  gk_recent :: "real list"
  gk_queue_depth :: int
  gk_active :: int

definition new_gatekeeper :: "rate_config \<Rightarrow> gatekeeper" where
  "new_gatekeeper cfg = \<lparr>gk_config = cfg, gk_recent = [], gk_queue_depth = 0, gk_active = 0\<rparr>"

definition within_rate :: "gatekeeper \<Rightarrow> real \<Rightarrow> gatekeeper \<times> bool" where
  "within_rate g now =
     (let r = prune now (gk_recent g)
      in (g\<lparr>gk_recent := r\<rparr>, int (length r) < requests_per_minute (gk_config g)))"

text \<open>
  \<^verbatim>\<open>slot()\<close> is entered (the checks and the bookkeeping before the semaphore), the semaphore
  is acquired when it is free, and the slot is left through the \<^verbatim>\<open>finally\<close> clause. The second clock read
  is the recorded time.
\<close>

definition slot_enter :: "real \<Rightarrow> real \<Rightarrow> (gatekeeper, unit) eff" where
  "slot_enter now1 now2 g =
     (if gk_queue_depth g \<ge> queue_depth (gk_config g)
      then (g, Inl (OverloadedError ''queue_depth_exceeded''))
      else case within_rate g now1 of
        (g1, False) \<Rightarrow> (g1, Inl (OverloadedError ''rate_limit_exceeded''))
      | (g1, True) \<Rightarrow>
          (g1\<lparr>gk_queue_depth := gk_queue_depth g1 + 1, gk_recent := gk_recent g1 @ [now2]\<rparr>, Inr ()))"

definition slot_acquire :: "gatekeeper \<Rightarrow> gatekeeper option" where
  "slot_acquire g =
     (if gk_active g < concurrent_requests (gk_config g) \<and> gk_active g < gk_queue_depth g
      then Some (g\<lparr>gk_active := gk_active g + 1\<rparr>) else None)"

text \<open>A task leaves holding the semaphore, or cancelled while still waiting for it.\<close>

definition slot_leave :: "bool \<Rightarrow> gatekeeper \<Rightarrow> gatekeeper" where
  "slot_leave holding g =
     g\<lparr>gk_queue_depth := gk_queue_depth g - 1,
       gk_active := (if holding then gk_active g - 1 else gk_active g)\<rparr>"

datatype slot_op = Enter real real | Acquire | Leave bool

text \<open>
  Only a task inside the slot can leave it: one that holds the semaphore if some does, one that waits
  if some waits.
\<close>

fun gatekeeper_step :: "gatekeeper \<Rightarrow> slot_op \<Rightarrow> gatekeeper \<times> real option" where
  "gatekeeper_step g (Enter c t) =
     (case slot_enter c t g of (g', Inr _) \<Rightarrow> (g', Some t) | (g', Inl _) \<Rightarrow> (g', None))"
| "gatekeeper_step g Acquire = ((case slot_acquire g of Some g' \<Rightarrow> g' | None \<Rightarrow> g), None)"
| "gatekeeper_step g (Leave holding) =
     ((if (if holding then 0 < gk_active g else gk_active g < gk_queue_depth g)
       then slot_leave holding g else g), None)"

fun slot_clock :: "slot_op \<Rightarrow> (real \<times> real) option" where
  "slot_clock (Enter c t) = Some (c, t)"
| "slot_clock _ = None"

definition gatekeeper_wf :: "rate_config \<Rightarrow> gatekeeper \<Rightarrow> bool" where
  "gatekeeper_wf cfg g \<longleftrightarrow> gk_config g = cfg \<and> 0 \<le> gk_active g \<and>
     gk_active g \<le> gk_queue_depth g \<and> gk_queue_depth g \<le> max 0 (queue_depth cfg) \<and>
     gk_active g \<le> max 0 (concurrent_requests cfg)"

lemma gatekeeper_wf_new: "gatekeeper_wf cfg (new_gatekeeper cfg)"
  by (simp add: gatekeeper_wf_def new_gatekeeper_def)

lemma gatekeeper_wf_step: "gatekeeper_wf cfg g \<Longrightarrow> gatekeeper_wf cfg (fst (gatekeeper_step g x))"
  by (cases x)
    (auto simp: gatekeeper_wf_def slot_enter_def within_rate_def slot_acquire_def slot_leave_def Let_def
      split: bool.splits)

interpretation gk: component "\<lambda>g x. fst (gatekeeper_step g x)" "gatekeeper_wf cfg"
  by unfold_locales (rule gatekeeper_wf_step)

text \<open>
  A gatekeeper keeps its configuration, so its window contract is stated for the states with
  that configuration: the step forgets foreign ones.
\<close>

definition gatekeeper_at :: "rate_config \<Rightarrow> gatekeeper \<Rightarrow> slot_op \<Rightarrow> gatekeeper \<times> real option" where
  "gatekeeper_at cfg g x = gatekeeper_step (g\<lparr>gk_config := cfg\<rparr>) x"

interpretation gkw: sliding_window "gatekeeper_at cfg" gk_recent slot_clock "requests_per_minute cfg"
proof
  fix g x g' t
  assume "gatekeeper_at cfg g x = (g', Some t)"
  then show "\<exists>c. slot_clock x = Some (c, t) \<and> gk_recent g' = prune c (gk_recent g) @ [t] \<and>
      int (length (prune c (gk_recent g))) < requests_per_minute cfg"
    by (cases x) (auto simp: gatekeeper_at_def slot_enter_def within_rate_def Let_def
        split: bool.splits sum.splits prod.splits if_splits)
next
  fix g x g'
  assume "gatekeeper_at cfg g x = (g', None)"
  then show "gk_recent g' = gk_recent g \<or>
      (\<exists>c t. slot_clock x = Some (c, t) \<and> gk_recent g' = prune c (gk_recent g))"
    by (cases x) (auto simp: gatekeeper_at_def slot_enter_def within_rate_def slot_acquire_def
        slot_leave_def Let_def split: bool.splits sum.splits prod.splits if_splits option.splits)
qed

section \<open>The middleware\<close>

definition OVERLOAD_ERROR_CODE :: int where
  "OVERLOAD_ERROR_CODE = -32001"

definition UNMETERED_TOOLS :: "string list" where
  "UNMETERED_TOOLS = [''health'']"

record overload_error =
  oe_code :: int
  oe_message :: string
  oe_reason :: string
  oe_retry_after_seconds :: real

definition overload_error_of :: "string \<Rightarrow> real \<Rightarrow> overload_error" where
  "overload_error_of why retry_after_seconds =
     \<lparr>oe_code = OVERLOAD_ERROR_CODE, oe_message = ''overloaded: '' @ why, oe_reason = why,
      oe_retry_after_seconds = retry_after_seconds\<rparr>"

text \<open>
  The tool body is a parameter. It runs only after its slot was granted; a rejected call
  becomes an \<open>overload_error\<close>.
\<close>

definition on_call_tool ::
    "string \<Rightarrow> (unit \<Rightarrow> 'a) \<Rightarrow> real \<Rightarrow> real \<Rightarrow> gatekeeper \<Rightarrow> gatekeeper \<times> (overload_error + 'a)" where
  "on_call_tool tool_name body now1 now2 g =
     (if tool_name \<in> set UNMETERED_TOOLS then (g, Inr (body ()))
      else case slot_enter now1 now2 g of
        (g', Inr _) \<Rightarrow> (g', Inr (body ()))
      | (g', Inl (OverloadedError why)) \<Rightarrow>
          (g', Inl (overload_error_of why (of_int (retry_backoff_sec (gk_config g)))))
      | (g', Inl _) \<Rightarrow> (g', Inr (body ())))"

section \<open>The outbound pacer\<close>

record pacer =
  pc_config :: rate_config
  pc_recent :: "real list"

datatype pace_result = Granted | WaitFor real

text \<open>One pass of the loop body under the lock.\<close>

definition pace_once :: "real \<Rightarrow> pacer \<Rightarrow> pacer \<times> pace_result res" where
  "pace_once now p =
     (let r = prune now (pc_recent p)
      in if int (length r) < requests_per_minute (pc_config p)
         then (p\<lparr>pc_recent := r @ [now]\<rparr>, Inr Granted)
         else (p\<lparr>pc_recent := r\<rparr>,
               case r of [] \<Rightarrow> Inl IndexError | t0 # _ \<Rightarrow> Inr (WaitFor (max (60 - (now - t0)) 0.01))))"

text \<open>
  \<^verbatim>\<open>_await_rate_slot\<close> for one caller whose sleeps end on time: the instant of the grant. The fuel
  bounds the passes.
\<close>

fun await_rate_slot :: "nat \<Rightarrow> real \<Rightarrow> pacer \<Rightarrow> (pacer \<times> real) res option" where
  "await_rate_slot 0 now p = None"
| "await_rate_slot (Suc n) now p =
     (case pace_once now p of
        (p', Inr Granted) \<Rightarrow> Some (Inr (p', now))
      | (p', Inr (WaitFor d)) \<Rightarrow> await_rate_slot n (now + d) p'
      | (p', Inl e) \<Rightarrow> Some (Inl e))"

definition pacer_step :: "rate_config \<Rightarrow> pacer \<Rightarrow> real \<Rightarrow> pacer \<times> real option" where
  "pacer_step cfg p now =
     (case pace_once now (p\<lparr>pc_config := cfg\<rparr>) of
        (p', Inr Granted) \<Rightarrow> (p', Some now) | (p', _) \<Rightarrow> (p', None))"

interpretation pcw: sliding_window "pacer_step cfg" pc_recent "\<lambda>now. Some (now, now)"
  "requests_per_minute cfg"
proof
  fix p x p' t
  assume "pacer_step cfg p x = (p', Some t)"
  then show "\<exists>c. Some (x, x) = Some (c, t) \<and> pc_recent p' = prune c (pc_recent p) @ [t] \<and>
      int (length (prune c (pc_recent p))) < requests_per_minute cfg"
    by (auto simp: pacer_step_def pace_once_def Let_def
        split: if_splits sum.splits pace_result.splits list.splits)
next
  fix p x p'
  assume "pacer_step cfg p x = (p', None)"
  then show "pc_recent p' = pc_recent p \<or>
      (\<exists>c t. Some (x, x) = Some (c, t) \<and> pc_recent p' = prune c (pc_recent p))"
    by (auto simp: pacer_step_def pace_once_def Let_def
        split: if_splits sum.splits pace_result.splits list.splits)
qed

section \<open>The mail gatekeeper\<close>

datatype send_outcome = Sent | RateLimited | TimedOut | SendRaises py_exc

record gatekeeper_result =
  gr_ok :: bool
  gr_attempts :: int
  gr_duplicate :: bool
  gr_error :: "string option"

definition GatekeeperResult :: "bool \<Rightarrow> int \<Rightarrow> bool \<Rightarrow> string option \<Rightarrow> gatekeeper_result" where
  "GatekeeperResult ok attempts duplicate error =
     \<lparr>gr_ok = ok, gr_attempts = attempts, gr_duplicate = duplicate, gr_error = error\<rparr>"

record mail_gatekeeper =
  mg_config :: rate_config
  mg_sent_keys :: "string list"
  mg_recent :: "real list"
  mg_queue_depth :: int

text \<open>
  The attempts of one submission: \<open>clock k\<close> is the time of the \<open>k\<close>-th attempt and \<open>send k\<close> how the
  injected send function ends. The loop makes at most \<open>max_retries + 1\<close> passes, which is the fuel.
\<close>

fun attempt_send ::
    "nat \<Rightarrow> int \<Rightarrow> string \<Rightarrow> (int \<Rightarrow> real) \<Rightarrow> (int \<Rightarrow> send_outcome)
       \<Rightarrow> (mail_gatekeeper, gatekeeper_result) eff" where
  "attempt_send 0 attempt key clock send g =
     (g, Inr (GatekeeperResult False attempt False (Some ''max_retries_exceeded'')))"
| "attempt_send (Suc fuel) attempt key clock send g =
     (if \<not> attempt \<le> max_retries (mg_config g)
      then (g, Inr (GatekeeperResult False attempt False (Some ''max_retries_exceeded'')))
      else let k = attempt + 1; g1 = g\<lparr>mg_recent := mg_recent g @ [clock k]\<rparr> in
        case send k of
          RateLimited \<Rightarrow>
            (if k > max_retries (mg_config g)
             then (g1, Inr (GatekeeperResult False k False (Some ''429_retries_exhausted'')))
             else attempt_send fuel k key clock send g1)
        | TimedOut \<Rightarrow> (g1, Inr (GatekeeperResult False k False (Some ''timeout'')))
        | SendRaises e \<Rightarrow> (g1, Inl e)
        | Sent \<Rightarrow>
            (g1\<lparr>mg_sent_keys := List.insert key (mg_sent_keys g1)\<rparr>,
             Inr (GatekeeperResult True k False None)))"

definition mail_within_rate :: "mail_gatekeeper \<Rightarrow> real \<Rightarrow> mail_gatekeeper \<times> bool" where
  "mail_within_rate g now =
     (let r = prune now (mg_recent g)
      in (g\<lparr>mg_recent := r\<rparr>, int (length r) < requests_per_minute (mg_config g)))"

definition mail_submit ::
    "string \<Rightarrow> real \<Rightarrow> (int \<Rightarrow> real) \<Rightarrow> (int \<Rightarrow> send_outcome) \<Rightarrow> (mail_gatekeeper, gatekeeper_result) eff" where
  "mail_submit key now clock send g =
     (if key \<in> set (mg_sent_keys g) then (g, Inr (GatekeeperResult True 0 True None))
      else if mg_queue_depth g \<ge> queue_depth (mg_config g)
      then (g, Inr (GatekeeperResult False 0 False (Some ''queue_depth_exceeded'')))
      else case mail_within_rate g now of
        (g1, False) \<Rightarrow> (g1, Inr (GatekeeperResult False 0 False (Some ''rate_limit_exceeded'')))
      | (g1, True) \<Rightarrow>
          (case attempt_send (nat (max_retries (mg_config g1) + 1)) 0 key clock send
                  (g1\<lparr>mg_queue_depth := mg_queue_depth g1 + 1\<rparr>) of
             (g2, r) \<Rightarrow> (g2\<lparr>mg_queue_depth := mg_queue_depth g2 - 1\<rparr>, r)))"

lemma attempt_send_spec:
  assumes "attempt_send fuel attempt key clock send g = (g', r)"
    and "0 \<le> attempt" and "attempt \<le> max_retries (mg_config g) + 1"
  shows "mg_config g' = mg_config g \<and> mg_queue_depth g' = mg_queue_depth g \<and>
     set (mg_sent_keys g) \<subseteq> set (mg_sent_keys g') \<and>
     (\<exists>new. mg_recent g' = mg_recent g @ new \<and> int (length new) \<le> max_retries (mg_config g) + 1 - attempt) \<and>
     (\<forall>res. r = Inr res \<longrightarrow> gr_attempts res \<le> max_retries (mg_config g) + 1 \<and>
        (gr_ok res \<longrightarrow> key \<in> set (mg_sent_keys g')))"
  using assms
proof (induction fuel attempt key clock send g arbitrary: g' r rule: attempt_send.induct)
  case (1 attempt key clock send g)
  then show ?case by (auto simp: GatekeeperResult_def)
next
  case (2 fuel attempt key clock send g)
  show ?case
  proof (cases "attempt \<le> max_retries (mg_config g)")
    case False
    with "2.prems" show ?thesis by (auto simp: GatekeeperResult_def)
  next
    case True
    let ?g1 = "g\<lparr>mg_recent := mg_recent g @ [clock (attempt + 1)]\<rparr>"
    show ?thesis
    proof (cases "send (attempt + 1) = RateLimited \<and> \<not> attempt + 1 > max_retries (mg_config g)")
      case rl: True
      with "2.prems"(1) True have eq: "attempt_send fuel (attempt + 1) key clock send ?g1 = (g', r)"
        by (simp add: Let_def)
      have "0 \<le> attempt + 1" "attempt + 1 \<le> max_retries (mg_config ?g1) + 1"
        using "2.prems"(2) True by auto
      with "2.IH" [of "attempt + 1" ?g1 g' r] rl True eq
      obtain new where new: "mg_recent g' = mg_recent ?g1 @ new"
          "int (length new) \<le> max_retries (mg_config ?g1) + 1 - (attempt + 1)"
        and rest: "mg_config g' = mg_config ?g1" "mg_queue_depth g' = mg_queue_depth ?g1"
          "set (mg_sent_keys ?g1) \<subseteq> set (mg_sent_keys g')"
          "\<forall>res. r = Inr res \<longrightarrow> gr_attempts res \<le> max_retries (mg_config ?g1) + 1 \<and>
             (gr_ok res \<longrightarrow> key \<in> set (mg_sent_keys g'))"
        by fastforce
      have "mg_recent g' = mg_recent g @ (clock (attempt + 1) # new)" using new(1) by simp
      moreover have "int (length (clock (attempt + 1) # new)) \<le> max_retries (mg_config g) + 1 - attempt"
        using new(2) by simp
      ultimately show ?thesis using rest by (intro conjI exI [of _ "clock (attempt + 1) # new"]) simp_all
    next
      case False
      with "2.prems" True show ?thesis
        by (auto simp: Let_def GatekeeperResult_def split: send_outcome.splits if_splits)
    qed
  qed
qed

section \<open>Runs\<close>

fun gatekeeper_admitted :: "gatekeeper \<Rightarrow> slot_op list \<Rightarrow> real list" where
  "gatekeeper_admitted g [] = []"
| "gatekeeper_admitted g (x # xs) =
     (case gatekeeper_step g x of
        (g', None) \<Rightarrow> gatekeeper_admitted g' xs | (g', Some t) \<Rightarrow> t # gatekeeper_admitted g' xs)"

definition slot_reads :: "slot_op list \<Rightarrow> real list" where
  "slot_reads xs = concat (map (\<lambda>x. case x of Enter c t \<Rightarrow> [c, t] | _ \<Rightarrow> []) xs)"

lemma gatekeeper_step_config: "gk_config (fst (gatekeeper_step g x)) = gk_config g"
  by (cases x) (auto simp: slot_enter_def within_rate_def slot_acquire_def slot_leave_def Let_def
      split: bool.splits)

lemma gatekeeper_admitted_eq:
  "gk_config g = cfg \<Longrightarrow> gatekeeper_admitted g xs = gkw.admissions cfg g xs"
proof (induction xs arbitrary: g)
  case Nil
  then show ?case by simp
next
  case (Cons x xs)
  have "g\<lparr>gk_config := cfg\<rparr> = g" using Cons.prems by simp
  then have at: "gatekeeper_at cfg g x = gatekeeper_step g x" by (simp add: gatekeeper_at_def)
  have "gk_config (fst (gatekeeper_step g x)) = cfg"
    using Cons.prems by (simp add: gatekeeper_step_config)
  with Cons.IH show ?case
    by (cases "gatekeeper_step g x") (simp add: at split: option.splits)
qed

lemma slot_reads_eq: "slot_reads xs = gkw.reads xs"
  unfolding slot_reads_def gkw.reads_def
  by (intro arg_cong [of _ _ concat] map_cong) (auto split: slot_op.splits)

section \<open>Properties\<close>

text \<open>
  C28. The advertised rate holds: on a clock that does not run backwards, whatever calls arrive, finish or are
  cancelled in between, any \<open>rpm + 1\<close> consecutive admissions of the incoming gatekeeper span
  more than 60 seconds.
\<close>

theorem gatekeeper_rate:
  assumes "0 \<le> requests_per_minute cfg" and "sorted (slot_reads xs)"
    and "i + nat (requests_per_minute cfg) < length (gatekeeper_admitted (new_gatekeeper cfg) xs)"
  shows "gatekeeper_admitted (new_gatekeeper cfg) xs ! (i + nat (requests_per_minute cfg)) -
         gatekeeper_admitted (new_gatekeeper cfg) xs ! i > 60"
proof -
  have eq: "gatekeeper_admitted (new_gatekeeper cfg) xs = gkw.admissions cfg (new_gatekeeper cfg) xs"
    by (rule gatekeeper_admitted_eq) (simp add: new_gatekeeper_def)
  have "gkw.spaced cfg (gkw.admissions cfg (new_gatekeeper cfg) xs)"
    using assms(1,2) by (intro gkw.window) (simp_all add: new_gatekeeper_def slot_reads_eq)
  with assms(1,3) show ?thesis unfolding eq gkw.spaced_def by simp
qed

theorem gatekeeper_rate_witness:
  "gatekeeper_admitted (new_gatekeeper \<lparr>requests_per_minute = 2, concurrent_requests = 2,
     retry_backoff_sec = 5, max_retries = 3, queue_depth = 100\<rparr>)
     [Enter 0 0, Enter 10 10, Leave False, Enter 50 50, Enter 61 61] ! 2 > 60"
proof -
  let ?cfg = "\<lparr>requests_per_minute = 2, concurrent_requests = 2, retry_backoff_sec = 5,
    max_retries = 3, queue_depth = 100\<rparr>"
  let ?xs = "[Enter 0 0, Enter 10 10, Leave False, Enter 50 50, Enter 61 61]"
  have a: "gatekeeper_admitted (new_gatekeeper ?cfg) ?xs = [0, 10, 61]"
    by (simp add: new_gatekeeper_def slot_enter_def within_rate_def prune_def slot_leave_def)
  have "sorted (slot_reads ?xs)" by (simp add: slot_reads_def)
  from gatekeeper_rate [of ?cfg ?xs 0, OF _ this, unfolded a] show ?thesis unfolding a by simp
qed

text \<open>
  The pacer's wait is bounded: with a full but legal window it grants the slot within three
  passes and 60.01 seconds, never before the call.
\<close>

lemma pacer_wait_bounded:
  assumes "1 \<le> requests_per_minute (pc_config p)"
    and "int (length (pc_recent p)) \<le> requests_per_minute (pc_config p)"
    and "list_all (\<lambda>a. a \<le> now) (pc_recent p)"
  shows "\<exists>p' t. await_rate_slot 3 now p = Some (Inr (p', t)) \<and> now \<le> t \<and> t \<le> now + 60.01"
proof -
  let ?rpm = "requests_per_minute (pc_config p)"
  let ?r = "prune now (pc_recent p)"
  have len: "int (length ?r) \<le> ?rpm"
    using assms(2) length_dropWhile_le [of "\<lambda>t. now - t > 60" "pc_recent p"] by (simp add: prune_def)
  show ?thesis
  proof (cases "int (length ?r) < ?rpm")
    case True
    then show ?thesis by (simp add: numeral_3_eq_3 pace_once_def)
  next
    case False
    with assms(1) obtain t0 rs where r: "?r = t0 # rs" by (cases ?r) auto
    then have t0: "now - t0 \<le> 60" unfolding prune_def by (metis hd_dropWhile list.discI list.sel(1) not_less)
    have "t0 \<in> set (pc_recent p)" using r by (metis list.set_intros(1) prune_def set_dropWhileD)
    with assms(3) have "t0 \<le> now" by (simp add: list_all_iff)
    have rs: "int (length rs) < ?rpm" using len r by simp
    define d where "d = max (60 - (now - t0)) (0.01 :: real)"
    have d: "0 \<le> d" "d \<le> 60" using t0 \<open>t0 \<le> now\<close> by (auto simp: d_def)
    have free: "int (length (prune c (t0 # rs))) < ?rpm" if "c - t0 > 60" for c
      using that rs length_dropWhile_le [of "\<lambda>t. c - t > 60" rs] by (simp add: prune_def)
    have pass1: "pace_once now p = (p\<lparr>pc_recent := t0 # rs\<rparr>, Inr (WaitFor d))"
      using False r by (simp add: pace_once_def d_def)
    show ?thesis
    proof (cases "now + d - t0 > 60")
      case True
      from free [OF True] have "snd (pace_once (now + d) (p\<lparr>pc_recent := t0 # rs\<rparr>)) = Inr Granted"
        by (simp add: pace_once_def)
      with pass1 d show ?thesis
        by (cases "pace_once (now + d) (p\<lparr>pc_recent := t0 # rs\<rparr>)") (simp add: numeral_3_eq_3)
    next
      case no: False
      then have eq: "now + d - t0 = 60" by (auto simp: d_def)
      define e where "e = (0.01 :: real)"
      have "prune (now + d) (t0 # rs) = t0 # rs" using no by (simp add: prune_def)
      then have pass2: "pace_once (now + d) (p\<lparr>pc_recent := t0 # rs\<rparr>) =
          (p\<lparr>pc_recent := t0 # rs\<rparr>, Inr (WaitFor e))"
        using False r len eq by (simp add: pace_once_def e_def)
      have "now + d + e - t0 > 60" using eq by (simp add: e_def)
      from free [OF this] have "snd (pace_once (now + d + e) (p\<lparr>pc_recent := t0 # rs\<rparr>)) = Inr Granted"
        by (simp add: pace_once_def)
      moreover have "0 \<le> e" "d + e \<le> 60.01" using d by (simp_all add: e_def)
      ultimately show ?thesis using pass1 pass2 d
        by (cases "pace_once (now + d + e) (p\<lparr>pc_recent := t0 # rs\<rparr>)") (simp add: numeral_3_eq_3)
    qed
  qed
qed

text \<open>
  A mail submission makes at most \<open>max_retries + 1\<close> attempts, always gives its place in the
  queue back, even when the send function raises, and a key that was sent is never sent again.
\<close>

lemma mail_submit_bounded:
  assumes "0 \<le> max_retries (mg_config g)" and "mail_submit key now clock send g = (g', r)"
  shows "mg_queue_depth g' = mg_queue_depth g \<and>
         length (mg_recent g') \<le> length (mg_recent g) + nat (max_retries (mg_config g) + 1) \<and>
         (case r of Inl e \<Rightarrow> True | Inr res \<Rightarrow> gr_attempts res \<le> max_retries (mg_config g) + 1 \<and>
            (\<not> gr_ok res \<or> mail_submit key later clock2 send2 g' = (g', Inr (GatekeeperResult True 0 True None))))"
proof -
  have pl: "length (prune now (mg_recent g)) \<le> length (mg_recent g)"
    by (simp add: prune_def length_dropWhile_le)
  consider "key \<in> set (mg_sent_keys g)"
    | "key \<notin> set (mg_sent_keys g)" "mg_queue_depth g \<ge> queue_depth (mg_config g) \<or>
        \<not> int (length (prune now (mg_recent g))) < requests_per_minute (mg_config g)"
    | "key \<notin> set (mg_sent_keys g)" "\<not> mg_queue_depth g \<ge> queue_depth (mg_config g)"
        "int (length (prune now (mg_recent g))) < requests_per_minute (mg_config g)" by blast
  then show ?thesis
  proof cases
    case 1
    with assms show ?thesis by (auto simp: mail_submit_def GatekeeperResult_def)
  next
    case 2
    with assms pl show ?thesis
      by (auto simp: mail_submit_def mail_within_rate_def Let_def GatekeeperResult_def split: if_splits)
  next
    case 3
    let ?g1 = "g\<lparr>mg_recent := prune now (mg_recent g), mg_queue_depth := mg_queue_depth g + 1\<rparr>"
    obtain g2 where at: "attempt_send (nat (max_retries (mg_config g) + 1)) 0 key clock send ?g1 = (g2, r)"
      and g': "g' = g2\<lparr>mg_queue_depth := mg_queue_depth g2 - 1\<rparr>"
      using 3 assms(2) by (auto simp: mail_submit_def mail_within_rate_def Let_def split: prod.splits)
    from attempt_send_spec [OF at] assms(1) pl show ?thesis
      by (cases r) (auto simp: g' mail_submit_def)
  qed
qed

end
