(* ===== verification/Inbox.thy ===== *)
theory Inbox
  imports PyJson "HOL-Library.AList" "HOL-Library.Multiset"
begin

text \<open>
  The bounded, duplicate-aware inbox (\<^verbatim>\<open>infrastructure/inbox.py\<close>) and the gateway that polls it
  for the opponent's reveal (\<^verbatim>\<open>services/gateway.py\<close>). What a client needs from a queue is the
  locale \<open>message_queue\<close>, interpreted on the inbox.
\<close>

section \<open>The contract of a queue\<close>

text \<open>The first element satisfying a predicate, and the rest in its order.\<close>

fun extract_first :: "('m \<Rightarrow> bool) \<Rightarrow> 'm list \<Rightarrow> 'm option \<times> 'm list" where
  "extract_first p [] = (None, [])"
| "extract_first p (x # xs) =
     (if p x then (Some x, xs)
      else case extract_first p xs of (m, ys) \<Rightarrow> (m, x # ys))"

lemma extract_first_None_iff: "fst (extract_first p xs) = None \<longleftrightarrow> (\<forall>x \<in> set xs. \<not> p x)"
  by (induction xs) (auto split: prod.splits)

lemma extract_first_None: "extract_first p xs = (None, ys) \<Longrightarrow> ys = xs"
  by (induction xs arbitrary: ys) (auto split: if_splits prod.splits)

lemma extract_first_id: "\<forall>x \<in> set xs. \<not> p x \<Longrightarrow> extract_first p xs = (None, xs)"
  by (induction xs) auto

lemma extract_first_Some:
  "extract_first p xs = (Some m, ys) \<Longrightarrow>
     \<exists>us vs. xs = us @ m # vs \<and> ys = us @ vs \<and> p m \<and> (\<forall>u \<in> set us. \<not> p u)"
proof (induction xs arbitrary: ys)
  case Nil
  then show ?case by simp
next
  case (Cons x xs)
  show ?case
  proof (cases "p x")
    case True
    with Cons.prems show ?thesis by (intro exI [of _ "[]"] exI [of _ xs]) auto
  next
    case False
    with Cons.prems obtain zs where zs: "extract_first p xs = (Some m, zs)" "ys = x # zs"
      by (auto split: prod.splits)
    from Cons.IH [OF zs(1)] obtain us vs where
      "xs = us @ m # vs \<and> zs = us @ vs \<and> p m \<and> (\<forall>u \<in> set us. \<not> p u)" by blast
    with False zs(2) show ?thesis by (intro exI [of _ "x # us"] exI [of _ vs]) auto
  qed
qed

locale message_queue =
  fixes put :: "'m \<Rightarrow> 'q \<Rightarrow> 'q option"
    and pop :: "('m \<Rightarrow> bool) \<Rightarrow> 'q \<Rightarrow> 'm option \<times> 'q"
    and contents :: "'q \<Rightarrow> 'm list"
  assumes put_contents: "put m q = Some q' \<Longrightarrow> contents q' = contents q @ [m]"
    and pop_contents: "pop p q = (r, q') \<Longrightarrow> (r, contents q') = extract_first p (contents q)"
begin

lemma pop_some:
  assumes "pop p q = (Some m, q')"
  shows "p m \<and> mset (contents q) = add_mset m (mset (contents q'))"
  using extract_first_Some [OF pop_contents [OF assms, symmetric]] by auto

lemma pop_none:
  assumes "pop p q = (None, q')"
  shows "contents q' = contents q \<and> (\<forall>m \<in> set (contents q). \<not> p m)"
  using pop_contents [OF assms] extract_first_None extract_first_None_iff by (metis fst_conv)

text \<open>A message that was put and that nothing before it matches is the one popped.\<close>

lemma put_pop:
  assumes "put m q = Some q1" and "p m" and "\<forall>x \<in> set (contents q). \<not> p x"
  shows "\<exists>q2. pop p q1 = (Some m, q2) \<and> contents q2 = contents q"
proof -
  have "extract_first p (xs @ [m]) = (Some m, xs)" if "\<forall>x \<in> set xs. \<not> p x" for xs
    using that assms(2) by (induction xs) auto
  then show ?thesis
    using pop_contents [of p q1] put_contents [OF assms(1)] assms(3)
    by (cases "pop p q1") auto
qed

end

section \<open>The inbox\<close>

text \<open>
  A correlation id is whatever JSON value the envelope carries; a dict lookup compares with
  \<^verbatim>\<open>==\<close> and needs a hashable key. A capacity of zero or less is no bound.
\<close>

record inbox =
  ib_capacity :: int
  ib_queue :: "(string \<times> json) list"
  ib_by_correlation :: "(json \<times> json) list"
  ib_by_key :: "(string \<times> json) list"

definition new_inbox :: "int \<Rightarrow> inbox" where
  "new_inbox capacity =
     \<lparr>ib_capacity = capacity, ib_queue = [], ib_by_correlation = [], ib_by_key = []\<rparr>"

definition inbox_size :: "inbox \<Rightarrow> int" where
  "inbox_size b = int (length (ib_queue b))"

definition dict_get :: "json \<Rightarrow> (json \<times> json) list \<Rightarrow> json option res" where
  "dict_get k d =
     (if hashable k then Inr (map_option snd (List.find (\<lambda>(k', _). json_eq k' k) d)) else Inl TypeError)"

definition dict_set :: "json \<Rightarrow> json \<Rightarrow> (json \<times> json) list \<Rightarrow> (json \<times> json) list" where
  "dict_set k v d =
     (if list_ex (\<lambda>(k', _). json_eq k' k) d
      then map (\<lambda>(k', v'). if json_eq k' k then (k', v) else (k', v')) d else d @ [(k, v)])"

definition is_duplicate_conflict :: "inbox \<Rightarrow> string \<Rightarrow> json \<Rightarrow> bool" where
  "is_duplicate_conflict b key message =
     (case map_of (ib_by_key b) key of None \<Rightarrow> False | Some previous \<Rightarrow> \<not> json_eq previous message)"

definition is_idempotent_replay :: "inbox \<Rightarrow> string \<Rightarrow> json \<Rightarrow> bool" where
  "is_idempotent_replay b key message =
     (case map_of (ib_by_key b) key of None \<Rightarrow> is_null message | Some previous \<Rightarrow> json_eq previous message)"

definition correlation_conflict :: "inbox \<Rightarrow> json \<Rightarrow> json \<Rightarrow> bool res" where
  "correlation_conflict b correlation_id message =
     rbind (dict_get correlation_id (ib_by_correlation b)) (\<lambda>previous.
       Inr (case previous of None \<Rightarrow> False | Some pm \<Rightarrow> \<not> json_eq pm message))"

text \<open>The queue is written before the two dicts: an unhashable correlation id raises last.\<close>

definition ib_enqueue :: "string \<Rightarrow> json \<Rightarrow> json \<Rightarrow> (inbox, unit) eff" where
  "ib_enqueue key message correlation_id b =
     (if 0 < ib_capacity b \<and> ib_capacity b \<le> inbox_size b then (b, Inl InboxFullError)
      else let b1 = b\<lparr>ib_queue := ib_queue b @ [(key, message)],
                      ib_by_key := AList.update key message (ib_by_key b)\<rparr>
           in if \<not> truthy correlation_id then (b1, Inr ())
              else if \<not> hashable correlation_id then (b1, Inl TypeError)
              else (b1\<lparr>ib_by_correlation := dict_set correlation_id message (ib_by_correlation b1)\<rparr>,
                    Inr ()))"

definition drain :: "inbox \<Rightarrow> inbox \<times> (string \<times> json) list" where
  "drain b = (b\<lparr>ib_queue := []\<rparr>, ib_queue b)"

text \<open>
  The loop over the drained items puts back every item but the first match. While it runs no
  other thread enqueues, so putting back cannot find the queue full.
\<close>

definition pop_loop ::
    "(json \<Rightarrow> bool) \<Rightarrow> json option \<times> (string \<times> json) list \<Rightarrow> string \<times> json
       \<Rightarrow> json option \<times> (string \<times> json) list" where
  "pop_loop predicate acc item =
     (if fst acc = None \<and> predicate (snd item) then (Some (snd item), snd acc)
      else (fst acc, snd acc @ [item]))"

definition pop_matching :: "(json \<Rightarrow> bool) \<Rightarrow> inbox \<Rightarrow> inbox \<times> json option" where
  "pop_matching predicate b =
     (case drain b of (b0, items) \<Rightarrow>
       (case foldl (pop_loop predicate) (None, []) items of
          (match, queue) \<Rightarrow> (b0\<lparr>ib_queue := queue\<rparr>, match)))"

lemma pop_loop_Some: "foldl (pop_loop p) (Some m, q) xs = (Some m, q @ xs)"
  by (induction xs arbitrary: q) (auto simp: pop_loop_def)

lemma pop_loop_extract:
  "foldl (pop_loop p) (None, q) xs =
     (case extract_first (p \<circ> snd) xs of (r, ys) \<Rightarrow> (map_option snd r, q @ ys))"
proof (induction xs arbitrary: q)
  case Nil
  then show ?case by simp
next
  case (Cons x xs)
  show ?case
  proof (cases "p (snd x)")
    case True
    then show ?thesis by (simp add: pop_loop_def pop_loop_Some [of p "snd x", unfolded pop_loop_def])
  next
    case False
    then have "pop_loop p (None, q) x = (None, q @ [x])" by (simp add: pop_loop_def)
    with False Cons.IH [of "q @ [x]"] show ?thesis by (simp split: prod.splits)
  qed
qed

lemma extract_first_map:
  "extract_first p (map f xs) =
     (case extract_first (p \<circ> f) xs of (r, ys) \<Rightarrow> (map_option f r, map f ys))"
  by (induction xs) (auto split: prod.splits)

lemma pop_matching_extract:
  "pop_matching p b =
     (case extract_first (p \<circ> snd) (ib_queue b) of (r, ys) \<Rightarrow> (b\<lparr>ib_queue := ys\<rparr>, map_option snd r))"
  by (simp add: pop_matching_def drain_def pop_loop_extract split: prod.splits)

definition inbox_contents :: "inbox \<Rightarrow> json list" where
  "inbox_contents b = map snd (ib_queue b)"

text \<open>The inbox is a queue of messages: the key under which one is put does not matter.\<close>

interpretation ibq: message_queue
  "\<lambda>m b. case ib_enqueue key m (JStr []) b of (b', Inr _) \<Rightarrow> Some b' | (b', Inl _) \<Rightarrow> None"
  "\<lambda>p b. case pop_matching p b of (b', r) \<Rightarrow> (r, b')"
  inbox_contents
proof
  fix m b b'
  assume "(case ib_enqueue key m (JStr []) b of (b', Inr _) \<Rightarrow> Some b' | (b', Inl _) \<Rightarrow> None) = Some b'"
  then show "inbox_contents b' = inbox_contents b @ [m]"
    by (auto simp: ib_enqueue_def inbox_contents_def Let_def split: if_splits)
next
  fix p b r b'
  assume "(case pop_matching p b of (b', r) \<Rightarrow> (r, b')) = (r, b')"
  then show "(r, inbox_contents b') = extract_first p (inbox_contents b)"
    by (auto simp: pop_matching_extract inbox_contents_def extract_first_map split: prod.splits)
qed

definition inbox_ok :: "inbox \<Rightarrow> bool" where
  "inbox_ok b \<longleftrightarrow> ib_capacity b \<le> 0 \<or> inbox_size b \<le> ib_capacity b"

lemma inbox_ok_enqueue: "inbox_ok b \<Longrightarrow> inbox_ok (fst (ib_enqueue k m c b))"
  by (auto simp: inbox_ok_def ib_enqueue_def inbox_size_def Let_def)

lemma extract_first_length: "extract_first p xs = (r, ys) \<Longrightarrow> length ys \<le> length xs"
  by (induction xs arbitrary: r ys) (auto split: if_splits prod.splits)

lemma inbox_ok_pop: "inbox_ok b \<Longrightarrow> inbox_ok (fst (pop_matching p b))"
  by (fastforce simp: inbox_ok_def inbox_size_def pop_matching_extract split: prod.splits
      dest: extract_first_length)

datatype inbox_op = Put string json json | Pop "json \<Rightarrow> bool" | Drain

fun inbox_step :: "inbox \<Rightarrow> inbox_op \<Rightarrow> inbox" where
  "inbox_step b (Put k m c) = fst (ib_enqueue k m c b)"
| "inbox_step b (Pop p) = fst (pop_matching p b)"
| "inbox_step b Drain = fst (drain b)"

interpretation ib: component inbox_step inbox_ok
proof
  fix b x
  show "inbox_ok b \<Longrightarrow> inbox_ok (inbox_step b x)"
    by (cases x) (simp_all add: inbox_ok_enqueue inbox_ok_pop, auto simp: drain_def inbox_ok_def inbox_size_def)
qed

lemma inbox_step_capacity: "ib_capacity (inbox_step b x) = ib_capacity b"
  by (cases x) (auto simp: ib_enqueue_def Let_def pop_matching_extract drain_def split: prod.splits)

lemma run_capacity: "ib_capacity (foldl inbox_step b xs) = ib_capacity b"
  by (induction xs arbitrary: b) (simp_all add: inbox_step_capacity)

section \<open>The gateway\<close>

text \<open>
  Accepted turn messages are dicts with a dict envelope (the router checks it), so a
  message of another shape matches nothing.
\<close>

definition envelope_of :: "json \<Rightarrow> jobj option" where
  "envelope_of m =
     (case m of JObj d \<Rightarrow> (case jget d ''envelope'' (JObj []) of JObj e \<Rightarrow> Some e | _ \<Rightarrow> None) | _ \<Rightarrow> None)"

definition message_type_is :: "json \<Rightarrow> string \<Rightarrow> bool" where
  "message_type_is m t =
     (case m of JObj d \<Rightarrow> json_eq (jget d ''message_type'' JNull) (JStr t) | _ \<Rightarrow> False)"

definition is_matching_reveal :: "json \<Rightarrow> json \<Rightarrow> json \<Rightarrow> bool" where
  "is_matching_reveal sub_game_number step m =
     (case envelope_of m of
        None \<Rightarrow> False
      | Some env \<Rightarrow> message_type_is m ''reveal'' \<and>
          json_eq (jget env ''sub_game_number'' JNull) sub_game_number \<and>
          json_eq (jget env ''step'' JNull) step)"

definition is_matching_commitment :: "jobj \<Rightarrow> json \<Rightarrow> bool" where
  "is_matching_commitment env m =
     (case envelope_of m of
        None \<Rightarrow> False
      | Some other \<Rightarrow> message_type_is m ''commitment'' \<and>
          json_eq (jget other ''sub_game_number'' JNull) (jget env ''sub_game_number'' JNull) \<and>
          json_eq (jget other ''step'' JNull) (jget env ''step'' JNull) \<and>
          json_eq (jget other ''sender'' JNull) (jget env ''sender'' JNull))"

definition prune_consumed_commitment :: "json \<Rightarrow> inbox \<Rightarrow> inbox" where
  "prune_consumed_commitment reveal_message b =
     (case envelope_of reveal_message of
        None \<Rightarrow> b | Some env \<Rightarrow> fst (pop_matching (is_matching_commitment env) b))"

text \<open>
  The poll loop: \<open>arrive n\<close> is what the server thread does to the inbox during the sleep that leaves
  \<open>n\<close> polls.
\<close>

fun await_opponent_reveal ::
    "nat \<Rightarrow> (nat \<Rightarrow> inbox \<Rightarrow> inbox) \<Rightarrow> json \<Rightarrow> json \<Rightarrow> inbox \<Rightarrow> inbox \<times> json option" where
  "await_opponent_reveal 0 arrive sub_game step b = (b, None)"
| "await_opponent_reveal (Suc n) arrive sub_game step b =
     (case pop_matching (is_matching_reveal sub_game step) b of
        (b1, Some m) \<Rightarrow>
          (prune_consumed_commitment m b1,
           Some (case m of JObj d \<Rightarrow> jget d ''reveal'' (JObj []) | _ \<Rightarrow> JObj []))
      | (b1, None) \<Rightarrow> await_opponent_reveal n arrive sub_game step (arrive n b1))"

definition NO_OPPONENT_REVEAL :: jobj where
  "NO_OPPONENT_REVEAL =
     [(''ok'', JBool False), (''error_code'', JStr ''NO_OPPONENT_REVEAL''),
      (''reason'', JStr ''no opponent reveal received within poll budget'')]"

text \<open>\<open>call\<close> is the outcome of the HTTP tool call: the opponent's ack, or an exception.\<close>

definition deliver_turn ::
    "nat \<Rightarrow> (nat \<Rightarrow> inbox \<Rightarrow> inbox) \<Rightarrow> (jobj \<Rightarrow> jobj res) \<Rightarrow> jobj \<Rightarrow> (inbox, jobj) eff" where
  "deliver_turn max_polls arrive call message b =
     (case call message of
        Inl e \<Rightarrow> (b, Inl e)
      | Inr ack \<Rightarrow>
          if \<not> json_eq (jget message ''message_type'' JNull) (JStr ''reveal'') \<or>
             \<not> truthy (jget ack ''ok'' JNull)
          then (b, Inr ack)
          else case rbind (jindex message ''envelope'') (\<lambda>e. rbind (obj_or_raise e) (\<lambda>env.
                      rbind (jindex env ''sub_game_number'') (\<lambda>sg.
                      rbind (jindex env ''step'') (\<lambda>st. Inr (sg, st))))) of
              Inl e \<Rightarrow> (b, Inl e)
            | Inr (sg, st) \<Rightarrow>
                (case await_opponent_reveal max_polls arrive sg st b of
                   (b', None) \<Rightarrow> (b', Inr NO_OPPONENT_REVEAL)
                 | (b', Some turn) \<Rightarrow> (b', Inr (AList.update ''opponent_turn'' turn ack))))"

section \<open>Properties\<close>

text \<open>
  The inbox is bounded and loses nothing: whatever is enqueued, popped and drained, it never
  holds more than its capacity; and popping removes exactly the first matching message and
  keeps all others in order.
\<close>

lemma inbox_bounded:
  assumes "0 < capacity"
  shows "inbox_size (foldl inbox_step (new_inbox capacity) ops) \<le> capacity"
proof -
  have "inbox_ok (foldl inbox_step (new_inbox capacity) ops)"
    using assms by (intro ib.run_inv) (simp add: inbox_ok_def new_inbox_def inbox_size_def)
  with assms show ?thesis by (simp add: inbox_ok_def run_capacity new_inbox_def)
qed

text \<open>
  The gateway's poll loop returns only a reveal the opponent sent for this sub-game and step, it is bounded by
  its poll budget, and while it waits it takes nothing else out of the inbox.
\<close>

lemma await_returns_matching_reveal:
  "case await_opponent_reveal n (\<lambda>_. id) sub_game step b of
     (b', None) \<Rightarrow> b' = b \<and> (n = 0 \<or> list_all (\<lambda>m. \<not> is_matching_reveal sub_game step m) (inbox_contents b))
   | (b', Some turn) \<Rightarrow>
       \<exists>m d. m \<in> set (inbox_contents b) \<and> is_matching_reveal sub_game step m \<and>
         m = JObj d \<and> turn = jget d ''reveal'' (JObj [])"
proof (induction n)
  case 0
  then show ?case by simp
next
  case (Suc n)
  obtain b1 r where p: "pop_matching (is_matching_reveal sub_game step) b = (b1, r)" by fastforce
  then have q: "(case pop_matching (is_matching_reveal sub_game step) b of (b', r) \<Rightarrow> (r, b')) = (r, b1)"
    by simp
  show ?case
  proof (cases r)
    case None
    from ibq.pop_none [OF q [unfolded None]]
    have none: "\<forall>m \<in> set (inbox_contents b). \<not> is_matching_reveal sub_game step m" by simp
    have "extract_first (is_matching_reveal sub_game step \<circ> snd) (ib_queue b) = (None, ib_queue b)"
      using none by (intro extract_first_id) (simp add: inbox_contents_def)
    then have "b1 = b" using p by (simp add: pop_matching_extract)
    with Suc.IH none p None show ?thesis by (auto simp: list_all_iff split: prod.splits option.splits)
  next
    case (Some m)
    from ibq.pop_some [OF q [unfolded Some]]
    have "is_matching_reveal sub_game step m" and "m \<in># mset (inbox_contents b)" by auto
    moreover from this obtain d where "m = JObj d"
      by (cases m) (auto simp: is_matching_reveal_def envelope_of_def)
    ultimately show ?thesis using p Some by auto
  qed
qed

end
