(* ===== verification/Router.thy ===== *)
theory Router
  imports Inbox StateMachine Geometry
begin

text \<open>
  What a peer does with an incoming message: the structural checks of
  \<^verbatim>\<open>protocol/turn_message.py\<close>, the ordering guard of \<^verbatim>\<open>infrastructure/sequence.py\<close>, the router
  of \<^verbatim>\<open>infrastructure/turn_router.py\<close> and the tools of \<^verbatim>\<open>infrastructure/game_tools.py\<close>. \<open>rp\<close> is the
  runtime's \<^verbatim>\<open>repr\<close> of a value.
\<close>

section \<open>Structure\<close>

definition MESSAGE_TYPES :: "string list" where
  "MESSAGE_TYPES =
    [''commitment'', ''commit_ack'', ''reveal'', ''hint'', ''scent'', ''barrier'',
     ''capture_claim'', ''capture_response'']"

definition REQUIRED_FIELDS :: "(string \<times> string list) list" where
  "REQUIRED_FIELDS =
    [(''commitment'', [''commit_hash'']),
     (''commit_ack'', [''commit_hash'']),
     (''reveal'', [''reveal'']),
     (''hint'', [''hint_text'', ''hint_intent'']),
     (''scent'', [''grid_size'', ''grid'']),
     (''barrier'', [''cell_row'', ''cell_col'']),
     (''capture_claim'', [''claimed_row'', ''claimed_col'']),
     (''capture_response'', [''caught''])]"

definition ENVELOPE_FIELDS :: "string list" where
  "ENVELOPE_FIELDS = [''game_uid'', ''sub_game_number'', ''step'', ''sender'']"

definition first_missing :: "string list \<Rightarrow> jobj \<Rightarrow> string option" where
  "first_missing names d = List.find (\<lambda>f. \<not> jhas d f) names"

text \<open>\<^verbatim>\<open>x in frozenset\<close> hashes \<open>x\<close>.\<close>

definition message_type_of :: "jobj \<Rightarrow> string option res" where
  "message_type_of message =
     (let t = jget message ''message_type'' JNull
      in if \<not> hashable t then Inl TypeError
         else Inr (case t of JStr s \<Rightarrow> if s \<in> set MESSAGE_TYPES then Some s else None | _ \<Rightarrow> None))"

definition structural_reason :: "(json \<Rightarrow> string) \<Rightarrow> json \<Rightarrow> string option res" where
  "structural_reason rp m =
     (case m of
        JObj message \<Rightarrow>
          (case jget message ''envelope'' JNull of
             JObj envelope \<Rightarrow>
               (case first_missing ENVELOPE_FIELDS envelope of
                  Some f \<Rightarrow> Inr (Some (''envelope missing required field: '' @ f))
                | None \<Rightarrow> rbind (message_type_of message) (\<lambda>mt.
                    case mt of
                      None \<Rightarrow> Inr (Some (''unknown message_type: '' @ rp (jget message ''message_type'' JNull)))
                    | Some t \<Rightarrow>
                        (case first_missing (the (map_of REQUIRED_FIELDS t)) message of
                           Some f \<Rightarrow> Inr (Some (t @ '' message missing field: '' @ f))
                         | None \<Rightarrow>
                             if t = ''hint'' \<and> jget message ''hint_intent'' JNull \<notin> {JStr ''truth'', JStr ''lie''}
                             then Inr (Some (''hint_intent must be 'truth' or 'lie'' @ [CHR 0x27]))
                             else if t = ''reveal'' \<and> as_obj (jget message ''reveal'' JNull) = None
                             then Inr (Some ''reveal field must be an object'')
                             else Inr None)))
           | _ \<Rightarrow> Inr (Some ''missing or non-object envelope''))
      | _ \<Rightarrow> Inr (Some ''message must be a JSON object''))"

section \<open>Sequence\<close>

definition AUX_TYPES :: "string list" where
  "AUX_TYPES =
    [''hint'', ''scent'', ''barrier'', ''capture_claim'', ''capture_response'', ''commit_ack'']"

definition CORE_PHASE_INDEX :: "(string \<times> int) list" where
  "CORE_PHASE_INDEX = [(''commitment'', 0), (''reveal'', 1)]"

record cursor =
  cur_step :: int
  cur_phase :: int

definition fresh_cursor :: cursor where
  "fresh_cursor = \<lparr>cur_step = 0, cur_phase = -1\<rparr>"

text \<open>The dict of cursors, keyed by the sub-game number as it came in.\<close>

type_synonym tracker = "(json \<times> cursor) list"

definition cursor_of :: "tracker \<Rightarrow> json \<Rightarrow> cursor" where
  "cursor_of cs sub_game =
     (case List.find (\<lambda>(k, _). json_eq k sub_game) cs of Some (_, c) \<Rightarrow> c | None \<Rightarrow> fresh_cursor)"

definition set_cursor :: "json \<Rightarrow> cursor \<Rightarrow> tracker \<Rightarrow> tracker" where
  "set_cursor sub_game c cs =
     (if list_ex (\<lambda>(k, _). json_eq k sub_game) cs
      then map (\<lambda>(k, c'). if json_eq k sub_game then (k, c) else (k, c')) cs
      else cs @ [(sub_game, c)])"

text \<open>The cursor's new value on acceptance, or the reason of the rejection.\<close>

definition check_core :: "(json \<Rightarrow> string) \<Rightarrow> cursor \<Rightarrow> json \<Rightarrow> string \<Rightarrow> (string + cursor) res" where
  "check_core rp c step message_type =
     rbind (lt_int step (cur_step c)) (\<lambda>stale.
     if stale then
       Inr (Inl (''stale step '' @ py_str rp step @ '' < active '' @ str_of_int (cur_step c)))
     else rbind (gt_int step (cur_step c)) (\<lambda>ahead.
     if ahead then
       Inr (Inl (''skipped to step '' @ py_str rp step @ ''; active step is '' @ str_of_int (cur_step c)))
     else case map_of CORE_PHASE_INDEX message_type of
       None \<Rightarrow> Inl (KeyError message_type)
     | Some ph \<Rightarrow>
         if message_type = ''commitment'' then
           (if cur_phase c \<noteq> -1 then
              Inr (Inl (''commitment out of order at step '' @ py_str rp step @ '' (phase '' @
                        str_of_int (cur_phase c) @ '')''))
            else Inr (Inr (c\<lparr>cur_phase := 0\<rparr>)))
         else if cur_phase c < ph - 1 then
           Inr (Inl (message_type @ '' before its predecessor at step '' @ py_str rp step))
         else if message_type = ''reveal'' then
           Inr (Inr \<lparr>cur_step = cur_step c + 1, cur_phase = -1\<rparr>)
         else Inr (Inr (c\<lparr>cur_phase := ph\<rparr>))))"

definition check_and_advance ::
    "(json \<Rightarrow> string) \<Rightarrow> json \<Rightarrow> json \<Rightarrow> string \<Rightarrow> (tracker, string option) eff" where
  "check_and_advance rp sub_game step message_type cs =
     (if \<not> hashable sub_game then (cs, Inl TypeError)
      else let c = cursor_of cs sub_game; cs1 = set_cursor sub_game c cs in
        if message_type \<in> set AUX_TYPES then
          (cs1, Inr (if \<not> json_eq step (JInt (cur_step c))
             then Some (''auxiliary '' @ message_type @ '' for step '' @ py_str rp step @
                        '' != active '' @ str_of_int (cur_step c))
             else None))
        else case check_core rp c step message_type of
            Inl e \<Rightarrow> (cs1, Inl e)
          | Inr (Inl why) \<Rightarrow> (cs1, Inr (Some why))
          | Inr (Inr c') \<Rightarrow> (set_cursor sub_game c' cs1, Inr None))"

section \<open>The router\<close>

record router =
  expected_game_uid :: string
  expected_sender :: role
  expected_config_sha256 :: string
  turn_inbox :: inbox
  audit_inbox :: inbox
  control_inbox :: inbox
  sequence :: tracker
  rt_machine :: "peer_state option"

definition new_router :: "string \<Rightarrow> role \<Rightarrow> string \<Rightarrow> peer_state option \<Rightarrow> router" where
  "new_router uid sender sha m =
     \<lparr>expected_game_uid = uid, expected_sender = sender, expected_config_sha256 = sha,
      turn_inbox = new_inbox 100, audit_inbox = new_inbox 100, control_inbox = new_inbox 100,
      sequence = [], rt_machine = m\<rparr>"

definition DEAD_STATES :: "peer_state list" where
  "DEAD_STATES = [ERROR, SERIES_COMPLETE, QUIT]"

definition DEAD_STATES_FOR_AUDIT :: "peer_state list" where
  "DEAD_STATES_FOR_AUDIT = [ERROR, QUIT]"

definition reject :: "string \<Rightarrow> string \<Rightarrow> jobj" where
  "reject why code = [(''ok'', JBool False), (''error_code'', JStr code), (''reason'', JStr why)]"

definition ack_ok :: jobj where
  "ack_ok = [(''ok'', JBool True)]"

definition ack_idempotent :: jobj where
  "ack_idempotent = [(''ok'', JBool True), (''idempotent'', JBool True)]"

text \<open>
  \<^verbatim>\<open>_log\<close> only writes a line, but it calls \<^verbatim>\<open>envelope.get\<close>: an envelope that is not a dict makes
  it raise.
\<close>

definition log_call :: "json \<Rightarrow> unit res" where
  "log_call m =
     (case m of JObj d \<Rightarrow> (case jget d ''envelope'' (JObj []) of JObj _ \<Rightarrow> Inr () | _ \<Rightarrow> Inl AttributeError)
      | _ \<Rightarrow> Inr ())"

definition binding_reason ::
    "(json \<Rightarrow> string) \<Rightarrow> router \<Rightarrow> jobj \<Rightarrow> jobj \<Rightarrow> peer_state list \<Rightarrow> (string \<times> string) option" where
  "binding_reason rp r envelope message dead_states =
     (if \<not> json_eq (jget envelope ''sender'' JNull) (JStr (role_value (expected_sender r)))
      then Some (''sender '' @ rp (jget envelope ''sender'' JNull) @ '' != expected'', ''WRONG_ROLE'')
      else if \<not> json_eq (jget envelope ''game_uid'' JNull) (JStr (expected_game_uid r))
      then Some (''game_uid mismatch'', ''WRONG_GAME'')
      else if \<not> is_null (jget message ''config_sha256'' JNull) \<and>
              \<not> json_eq (jget message ''config_sha256'' JNull) (JStr (expected_config_sha256 r))
      then Some (''config_sha256 mismatch'', ''CONFIG_MISMATCH'')
      else case rt_machine r of
        Some st \<Rightarrow> (if st \<in> set dead_states
                    then Some (''peer is in terminal state '' @ state_value st, ''LIFECYCLE'') else None)
      | None \<Rightarrow> None)"

definition turn_key :: "(json \<Rightarrow> string) \<Rightarrow> json \<Rightarrow> json \<Rightarrow> string \<Rightarrow> string" where
  "turn_key rp sub_game step mtype = py_str rp sub_game @ '':'' @ py_str rp step @ '':'' @ mtype"

text \<open>The part of \<^verbatim>\<open>_handle_turn\<close> after the checks that need no state.\<close>

definition admit_turn ::
    "(json \<Rightarrow> string) \<Rightarrow> jobj \<Rightarrow> json \<Rightarrow> json \<Rightarrow> string \<Rightarrow> json \<Rightarrow> (router, jobj) eff" where
  "admit_turn rp message sub_game step mtype correlation_id r =
     (let key = turn_key rp sub_game step mtype; m = JObj message in
      if is_idempotent_replay (turn_inbox r) key m then (r, Inr ack_idempotent)
      else case (if is_duplicate_conflict (turn_inbox r) key m then Inr True
                 else correlation_conflict (turn_inbox r) correlation_id m) of
        Inl e \<Rightarrow> (r, Inl e)
      | Inr True \<Rightarrow> (r, Inr (reject ''conflicting duplicate for this logical key'' ''CONFLICTING_DUPLICATE''))
      | Inr False \<Rightarrow>
          (case check_and_advance rp sub_game step mtype (sequence r) of
             (cs, Inl e) \<Rightarrow> (r\<lparr>sequence := cs\<rparr>, Inl e)
           | (cs, Inr (Some why)) \<Rightarrow> (r\<lparr>sequence := cs\<rparr>, Inr (reject why ''SEQUENCE''))
           | (cs, Inr None) \<Rightarrow>
               (case ib_enqueue key m correlation_id (turn_inbox r) of
                  (b, Inl InboxFullError) \<Rightarrow>
                    (r\<lparr>sequence := cs, turn_inbox := b\<rparr>,
                     Inr (reject (''inbox at capacity ('' @ str_of_int (ib_capacity b) @ '')'') ''BACKPRESSURE''))
                | (b, Inl e) \<Rightarrow> (r\<lparr>sequence := cs, turn_inbox := b\<rparr>, Inl e)
                | (b, Inr _) \<Rightarrow> (r\<lparr>sequence := cs, turn_inbox := b\<rparr>, Inr ack_ok))))"

definition handle_turn_core :: "(json \<Rightarrow> string) \<Rightarrow> json \<Rightarrow> (router, jobj) eff" where
  "handle_turn_core rp m r =
     (case structural_reason rp m of
        Inl e \<Rightarrow> (r, Inl e)
      | Inr (Some why) \<Rightarrow> (r, Inr (reject why ''MALFORMED''))
      | Inr None \<Rightarrow>
          (case m of
             JObj message \<Rightarrow>
               (case jget message ''envelope'' JNull of
                  JObj envelope \<Rightarrow>
                    (case binding_reason rp r envelope message DEAD_STATES of
                       Some (why, code) \<Rightarrow> (r, Inr (reject why code))
                     | None \<Rightarrow>
                         (case jget message ''message_type'' JNull of
                            JStr mtype \<Rightarrow>
                              admit_turn rp message (jget envelope ''sub_game_number'' JNull)
                                (jget envelope ''step'' JNull) mtype
                                (jget envelope ''correlation_id'' (JStr [])) r
                          | _ \<Rightarrow> (r, Inl TypeError)))
                | _ \<Rightarrow> (r, Inl TypeError))
           | _ \<Rightarrow> (r, Inl TypeError)))"

definition logged :: "json \<Rightarrow> (router, jobj) eff \<Rightarrow> (router, jobj) eff" where
  "logged m h r =
     (case h r of
        (r', Inl e) \<Rightarrow> (r', Inl e)
      | (r', Inr ack) \<Rightarrow> (r', rbind (log_call m) (\<lambda>_. Inr ack)))"

definition handle_turn :: "(json \<Rightarrow> string) \<Rightarrow> json \<Rightarrow> (router, jobj) eff" where
  "handle_turn rp m = logged m (handle_turn_core rp m)"

definition AUDIT_TYPES :: "string list" where
  "AUDIT_TYPES = [''audit'', ''audit_ack'', ''final_result'', ''result_agreement'']"

definition handle_audit_core :: "(json \<Rightarrow> string) \<Rightarrow> json \<Rightarrow> (router, jobj) eff" where
  "handle_audit_core rp m r =
     (case m of
        JObj message \<Rightarrow>
          (case jget message ''envelope'' JNull of
             JObj envelope \<Rightarrow>
               (case jget message ''message_type'' JNull of
                  JStr mtype \<Rightarrow>
                    (if mtype \<notin> set AUDIT_TYPES
                     then (r, Inr (reject ''unknown audit message_type'' ''MALFORMED''))
                     else case binding_reason rp r envelope message
                           (if mtype = ''result_agreement'' then DEAD_STATES_FOR_AUDIT else DEAD_STATES) of
                         Some (why, code) \<Rightarrow> (r, Inr (reject why code))
                       | None \<Rightarrow>
                           (let key = ''audit:'' @ py_str rp (jget envelope ''sub_game_number'' JNull) @ '':'' @ mtype in
                            if is_idempotent_replay (audit_inbox r) key m then (r, Inr ack_idempotent)
                            else if is_duplicate_conflict (audit_inbox r) key m
                            then (r, Inr (reject ''conflicting duplicate for this logical key''
                                    ''CONFLICTING_DUPLICATE''))
                            else case ib_enqueue key m (jget envelope ''correlation_id'' (JStr []))
                                   (audit_inbox r) of
                                (b, Inl InboxFullError) \<Rightarrow>
                                  (r\<lparr>audit_inbox := b\<rparr>,
                                   Inr (reject (''inbox at capacity ('' @ str_of_int (ib_capacity b) @ '')'')
                                     ''BACKPRESSURE''))
                              | (b, Inl e) \<Rightarrow> (r\<lparr>audit_inbox := b\<rparr>, Inl e)
                              | (b, Inr _) \<Rightarrow> (r\<lparr>audit_inbox := b\<rparr>, Inr ack_ok)))
                | _ \<Rightarrow> (r, Inr (reject ''unknown audit message_type'' ''MALFORMED'')))
           | _ \<Rightarrow> (r, Inr (reject ''missing envelope'' ''MALFORMED'')))
      | _ \<Rightarrow> (r, Inr (reject ''missing envelope'' ''MALFORMED'')))"

definition handle_audit :: "(json \<Rightarrow> string) \<Rightarrow> json \<Rightarrow> (router, jobj) eff" where
  "handle_audit rp m = logged m (handle_audit_core rp m)"

definition CONTROL_KINDS :: "string list" where
  "CONTROL_KINDS = [''enable'', ''status'', ''restart'', ''quit'']"

definition handle_control_core :: "(json \<Rightarrow> string) \<Rightarrow> json \<Rightarrow> (router, jobj) eff" where
  "handle_control_core rp m r =
     (case m of
        JObj message \<Rightarrow>
          (if \<not> jhas message ''kind'' then (r, Inr (reject (''control message missing 'kind'' @ [CHR 0x27]) ''MALFORMED''))
           else case jget message ''kind'' JNull of
             JStr kind \<Rightarrow>
               (if kind \<notin> set CONTROL_KINDS
                then (r, Inr (reject (''invalid control kind '' @ rp (JStr kind)) ''MALFORMED''))
                else case ib_enqueue (''control:'' @ kind) m (JStr []) (control_inbox r) of
                    (b, Inl e) \<Rightarrow> (r\<lparr>control_inbox := b\<rparr>, Inl e)
                  | (b, Inr _) \<Rightarrow> (r\<lparr>control_inbox := b\<rparr>, Inr [(''ok'', JBool True), (''ignored'', JBool True)]))
           | k \<Rightarrow> (r, Inr (reject (''invalid control kind '' @ rp k) ''MALFORMED'')))
      | _ \<Rightarrow> (r, Inr (reject (''control message missing 'kind'' @ [CHR 0x27]) ''MALFORMED'')))"

definition handle_control :: "(json \<Rightarrow> string) \<Rightarrow> json \<Rightarrow> (router, jobj) eff" where
  "handle_control rp m = logged m (handle_control_core rp m)"

text \<open>
  The four tools registered on the server, and the router that \<^verbatim>\<open>build_game_server\<close> wires: it
  expects the opponent as the sender.
\<close>

datatype tool = receive_turn | receive_move | submit_audit | receive_control

fun call_tool :: "(json \<Rightarrow> string) \<Rightarrow> tool \<Rightarrow> json \<Rightarrow> (router, jobj) eff" where
  "call_tool rp receive_turn m = handle_turn rp m"
| "call_tool rp receive_move m = handle_turn rp m"
| "call_tool rp submit_audit m = handle_audit rp m"
| "call_tool rp receive_control m = handle_control rp m"

definition build_game_server :: "role \<Rightarrow> string \<Rightarrow> string \<Rightarrow> peer_state option \<Rightarrow> router" where
  "build_game_server me uid sha m = new_router uid (opponent me) sha m"

section \<open>The order of the core messages\<close>

lemma json_eq_two_ints: "json_eq k (JInt a) \<Longrightarrow> json_eq k (JInt b) \<longleftrightarrow> a = b"
proof (cases k)
  case (JFloat f)
  then show "json_eq k (JInt a) \<Longrightarrow> ?thesis" by (cases f) auto
qed auto

lemma find_cursor_map:
  "List.find (\<lambda>(k, _). json_eq k (JInt b)) (map (\<lambda>(k, c'). if json_eq k (JInt a) then (k, c) else (k, c')) cs) =
     map_option (\<lambda>(k, c'). (k, if a = b then c else c')) (List.find (\<lambda>(k, _). json_eq k (JInt b)) cs)"
proof (induction cs)
  case Nil
  then show ?case by simp
next
  case (Cons x cs)
  obtain k c' where x: "x = (k, c')" by (cases x)
  show ?case
    using Cons.IH json_eq_two_ints [of k a b] json_eq_two_ints [of k b a] unfolding x
    by (cases "json_eq k (JInt b)"; cases "json_eq k (JInt a)") (simp_all del: json_eq.simps)
qed

lemma find_cursor_snoc:
  "List.find P (xs @ [x]) =
     (case List.find P xs of Some y \<Rightarrow> Some y | None \<Rightarrow> if P x then Some x else None)"
  by (induction xs) auto

lemma find_cursor_ex: "list_ex P xs \<longleftrightarrow> List.find P xs \<noteq> None"
  by (induction xs) auto

lemma cursor_of_set:
  "cursor_of (set_cursor (JInt a) c cs) (JInt b) = (if a = b then c else cursor_of cs (JInt b))"
proof (cases "list_ex (\<lambda>(k, _). json_eq k (JInt a)) cs")
  case True
  then obtain k c0 where "a = b \<Longrightarrow> List.find (\<lambda>(k, _). json_eq k (JInt b)) cs = Some (k, c0)"
    by (auto simp: find_cursor_ex simp del: json_eq.simps)
  with True show ?thesis
    by (auto simp: cursor_of_def set_cursor_def find_cursor_map simp del: json_eq.simps split: option.splits)
next
  case False
  then have "List.find (\<lambda>(k, _). json_eq k (JInt a)) cs = None"
    unfolding find_cursor_ex by (rule notnotD)
  with False show ?thesis
    by (auto simp: cursor_of_def set_cursor_def find_cursor_snoc split: option.splits)
qed

text \<open>
  The messages of any number of sub-games, interleaved: the core messages accepted for one of
  them.
\<close>

type_synonym turn_call = "int \<times> json \<times> string"

definition tracker_step :: "(json \<Rightarrow> string) \<Rightarrow> tracker \<Rightarrow> turn_call \<Rightarrow> tracker" where
  "tracker_step rp cs x = (case x of (sg, st, t) \<Rightarrow> fst (check_and_advance rp (JInt sg) st t cs))"

definition tracker_accepts :: "(json \<Rightarrow> string) \<Rightarrow> tracker \<Rightarrow> turn_call \<Rightarrow> bool" where
  "tracker_accepts rp cs x = (case x of (sg, st, t) \<Rightarrow> snd (check_and_advance rp (JInt sg) st t cs) = Inr None)"

fun accepted_core :: "(json \<Rightarrow> string) \<Rightarrow> int \<Rightarrow> tracker \<Rightarrow> turn_call list \<Rightarrow> (json \<times> string) list" where
  "accepted_core rp sg cs [] = []"
| "accepted_core rp sg cs (x # xs) =
     (if tracker_accepts rp cs x \<and> fst x = sg \<and> snd (snd x) \<in> fst ` set CORE_PHASE_INDEX
      then [snd x] else []) @ accepted_core rp sg (tracker_step rp cs x) xs"

definition at_position :: "cursor \<Rightarrow> nat \<Rightarrow> bool" where
  "at_position c n \<longleftrightarrow> cur_step c = int (n div 2) \<and> cur_phase c = (if even n then -1 else 0)"

definition expected_core :: "nat \<Rightarrow> json \<times> string \<Rightarrow> bool" where
  "expected_core n x \<longleftrightarrow> snd x = (if even n then ''commitment'' else ''reveal'') \<and>
     lt_int (fst x) (int (n div 2)) = Inr False \<and> gt_int (fst x) (int (n div 2)) = Inr False"

lemma check_core_accepts:
  assumes "check_core rp c st t = Inr (Inr c')" and "at_position c n"
  shows "expected_core n (st, t) \<and> at_position c' (Suc n)"
proof -
  have n: "cur_step c = int (n div 2)" "cur_phase c = (if even n then -1 else 0)"
    using assms(2) by (auto simp: at_position_def)
  have cmp: "lt_int st (int (n div 2)) = Inr False" "gt_int st (int (n div 2)) = Inr False"
    using assms(1) by (auto simp: check_core_def res_simps n(1) split: if_splits)
  from assms(1) cmp n show ?thesis
    by (auto simp: check_core_def CORE_PHASE_INDEX_def at_position_def expected_core_def
        split: if_splits elim: evenE oddE)
qed

lemma tracker_step_other:
  "fst x \<noteq> sg \<Longrightarrow> cursor_of (tracker_step rp cs x) (JInt sg) = cursor_of cs (JInt sg)"
  by (cases x) (auto simp: tracker_step_def check_and_advance_def Let_def cursor_of_set
      split: sum.splits)

lemma tracker_step_core:
  assumes "at_position (cursor_of cs (JInt sg)) n"
  shows "if tracker_accepts rp cs (sg, st, t) \<and> t \<in> fst ` set CORE_PHASE_INDEX
    then expected_core n (st, t) \<and> at_position (cursor_of (tracker_step rp cs (sg, st, t)) (JInt sg)) (Suc n)
    else at_position (cursor_of (tracker_step rp cs (sg, st, t)) (JInt sg)) n"
proof (cases "t \<in> set AUX_TYPES")
  case True
  then have "t \<notin> fst ` set CORE_PHASE_INDEX" by (auto simp: AUX_TYPES_def CORE_PHASE_INDEX_def)
  with True assms show ?thesis
    by (simp add: tracker_step_def check_and_advance_def Let_def cursor_of_set)
next
  case False
  show ?thesis
  proof (cases "\<exists>c'. check_core rp (cursor_of cs (JInt sg)) st t = Inr (Inr c')")
    case True
    then obtain c' where c': "check_core rp (cursor_of cs (JInt sg)) st t = Inr (Inr c')" by blast
    then have "map_of CORE_PHASE_INDEX t \<noteq> None"
      by (auto simp: check_core_def res_simps split: if_splits option.splits)
    then have "t \<in> fst ` set CORE_PHASE_INDEX" by (simp add: map_of_eq_None_iff)
    with check_core_accepts [OF c' assms] c' False show ?thesis
      by (simp add: tracker_accepts_def tracker_step_def check_and_advance_def Let_def cursor_of_set)
  next
    case no: False
    with False assms show ?thesis
      by (auto simp: tracker_accepts_def tracker_step_def check_and_advance_def Let_def cursor_of_set
          split: sum.splits)
  qed
qed

lemma accepted_core_order:
  "at_position (cursor_of cs (JInt sg)) n \<Longrightarrow>
     list_all (\<lambda>(i, x). expected_core i x) (List.enumerate n (accepted_core rp sg cs xs))"
proof (induction xs arbitrary: cs n)
  case Nil
  then show ?case by simp
next
  case (Cons x xs)
  obtain g st t where x: "x = (g, st, t)" by (cases x) auto
  show ?case
  proof (cases "g = sg")
    case False
    with Cons show ?thesis by (simp add: x tracker_step_other)
  next
    case True
    with tracker_step_core [OF Cons.prems, of rp st t] Cons.IH show ?thesis
      by (simp add: x split: if_splits)
  qed
qed

section \<open>What a call changes\<close>

lemma binding_reason_frame [simp]:
  "binding_reason rp (r\<lparr>sequence := cs, turn_inbox := b\<rparr>) env message ds =
     binding_reason rp r env message ds"
  by (simp add: binding_reason_def cong: if_cong)

lemma admit_turn_effect:
  assumes "admit_turn rp message sg st t cid r = (r', Inr ack)"
  shows "(ack = ack_ok \<and> inbox_contents (turn_inbox r') = inbox_contents (turn_inbox r) @ [JObj message]) \<or>
         (ack \<noteq> ack_ok \<and> turn_inbox r' = turn_inbox r)"
  using assms
  by (auto simp: admit_turn_def Let_def ib_enqueue_def inbox_contents_def ack_ok_def reject_def ack_idempotent_def
      split: if_splits sum.splits prod.splits bool.splits option.splits py_exc.splits)

text \<open>What backpressure leaves behind: the message is not recorded, but the cursor has moved.\<close>

lemma admit_backpressure:
  assumes "admit_turn rp message (JInt sg) st ''commitment'' cid r = (r1, Inr ack)"
    and "jget ack ''error_code'' JNull = JStr ''BACKPRESSURE''"
  shows "\<exists>cs. r1 = r\<lparr>sequence := cs\<rparr> \<and>
    (\<exists>why. snd (check_and_advance rp (JInt sg) st ''commitment'' cs) = Inr (Some why)) \<and>
    \<not> is_idempotent_replay (turn_inbox r) (turn_key rp (JInt sg) st ''commitment'') (JObj message) \<and>
    \<not> is_duplicate_conflict (turn_inbox r) (turn_key rp (JInt sg) st ''commitment'') (JObj message) \<and>
    correlation_conflict (turn_inbox r) cid (JObj message) = Inr False"
proof -
  from assms obtain cs where cs: "check_and_advance rp (JInt sg) st ''commitment'' (sequence r) = (cs, Inr None)"
    and r1: "r1 = r\<lparr>sequence := cs\<rparr>"
    and rest: "\<not> is_idempotent_replay (turn_inbox r) (turn_key rp (JInt sg) st ''commitment'') (JObj message)"
      "\<not> is_duplicate_conflict (turn_inbox r) (turn_key rp (JInt sg) st ''commitment'') (JObj message)"
      "correlation_conflict (turn_inbox r) cid (JObj message) = Inr False"
    by (auto simp: admit_turn_def Let_def ib_enqueue_def ack_idempotent_def ack_ok_def reject_def
        split: if_splits sum.splits prod.splits bool.splits option.splits py_exc.splits)
  let ?c = "cursor_of (sequence r) (JInt sg)"
  have aux: "''commitment'' \<notin> set AUX_TYPES" by (simp add: AUX_TYPES_def)
  with cs obtain c' where c': "check_core rp ?c st ''commitment'' = Inr (Inr c')"
    "cs = set_cursor (JInt sg) c' (set_cursor (JInt sg) ?c (sequence r))"
    by (auto simp: check_and_advance_def Let_def split: sum.splits)
  then have "c' = ?c\<lparr>cur_phase := 0\<rparr>" and "lt_int st (cur_step ?c) = Inr False"
    and "gt_int st (cur_step ?c) = Inr False"
    by (auto simp: check_core_def res_simps CORE_PHASE_INDEX_def split: if_splits)
  then have "\<exists>why. check_core rp c' st ''commitment'' = Inr (Inl why)"
    by (simp add: check_core_def CORE_PHASE_INDEX_def)
  then have "\<exists>why. snd (check_and_advance rp (JInt sg) st ''commitment'' cs) = Inr (Some why)"
    using aux c'(2) by (auto simp: check_and_advance_def Let_def cursor_of_set)
  with r1 rest show ?thesis by blast
qed

lemma turn_steps:
  "handle_turn rp m r = (r', Inr ack) \<longleftrightarrow> handle_turn_core rp m r = (r', Inr ack) \<and> log_call m = Inr ()"
  by (auto simp: handle_turn_def logged_def res_simps split: prod.splits sum.splits)

lemma handle_turn_core_cases:
  assumes "handle_turn_core rp m r = (r', Inr ack)"
  shows "(r' = r \<and> (\<exists>why code. ack = reject why code \<and>
            code \<in> {''MALFORMED'', ''WRONG_ROLE'', ''WRONG_GAME'', ''CONFIG_MISMATCH'', ''LIFECYCLE''})) \<or>
    (\<exists>message env t. m = JObj message \<and> structural_reason rp m = Inr None \<and>
       jget message ''envelope'' JNull = JObj env \<and> jget message ''message_type'' JNull = JStr t \<and>
       binding_reason rp r env message DEAD_STATES = None \<and>
       admit_turn rp message (jget env ''sub_game_number'' JNull) (jget env ''step'' JNull) t
         (jget env ''correlation_id'' (JStr [])) r = (r', Inr ack))"
proof -
  have codes: "code \<in> {''WRONG_ROLE'', ''WRONG_GAME'', ''CONFIG_MISMATCH'', ''LIFECYCLE''}"
    if "binding_reason rp r env message ds = Some (why, code)" for env message ds why code
    using that by (auto simp: binding_reason_def split: if_splits option.splits)
  show ?thesis
    using assms codes unfolding handle_turn_core_def
    by (fastforce split: sum.splits option.splits json.splits prod.splits)
qed

section \<open>Properties\<close>

text \<open>
  C19. Per sub-game the core messages are accepted strictly in order: whatever arrives, in whatever interleaving of
  sub-games, the n-th accepted one is a commitment for even n and a reveal for odd n, and
  its step is neither below nor above \<open>n div 2\<close>.
\<close>

theorem core_messages_in_order:
  "list_all (\<lambda>(n, x). expected_core n x) (List.enumerate 0 (accepted_core rp sg [] xs))"
  by (rule accepted_core_order) (simp add: at_position_def cursor_of_def fresh_cursor_def)

text \<open>
  What a turn message can do: it is acknowledged plainly exactly when it was appended to the turn inbox,
  every other answer leaves that inbox alone, and a message that is malformed, misdirected or arrives in a
  dead lifecycle state changes nothing at all.
\<close>

lemma handle_turn_effect:
  assumes "handle_turn rp m r = (r', Inr ack)"
  shows "if ack = ack_ok then inbox_contents (turn_inbox r') = inbox_contents (turn_inbox r) @ [m] \<and>
             structural_reason rp m = Inr None \<and>
             (\<forall>s. rt_machine r = Some s \<longrightarrow> s \<notin> set DEAD_STATES)
         else turn_inbox r' = turn_inbox r \<and>
             (jget ack ''error_code'' JNull \<in> JStr ` {''MALFORMED'', ''WRONG_ROLE'', ''WRONG_GAME'',
                ''CONFIG_MISMATCH'', ''LIFECYCLE''} \<longrightarrow> r' = r)"
proof -
  have core: "handle_turn_core rp m r = (r', Inr ack)" using assms by (simp add: turn_steps)
  have codes: "jget ack ''error_code'' JNull \<notin> JStr ` {''MALFORMED'', ''WRONG_ROLE'', ''WRONG_GAME'',
      ''CONFIG_MISMATCH'', ''LIFECYCLE''}"
    if "admit_turn rp message sg st t cid r = (r', Inr ack)" for message sg st t cid
    using that
    by (auto simp: admit_turn_def Let_def reject_def ack_idempotent_def ack_ok_def
        split: if_splits sum.splits prod.splits bool.splits option.splits py_exc.splits)
  from handle_turn_core_cases [OF core] show ?thesis
  proof
    assume "r' = r \<and> (\<exists>why code. ack = reject why code \<and>
        code \<in> {''MALFORMED'', ''WRONG_ROLE'', ''WRONG_GAME'', ''CONFIG_MISMATCH'', ''LIFECYCLE''})"
    then show ?thesis by (auto simp: reject_def ack_ok_def)
  next
    assume "\<exists>message env t. m = JObj message \<and> structural_reason rp m = Inr None \<and>
       jget message ''envelope'' JNull = JObj env \<and> jget message ''message_type'' JNull = JStr t \<and>
       binding_reason rp r env message DEAD_STATES = None \<and>
       admit_turn rp message (jget env ''sub_game_number'' JNull) (jget env ''step'' JNull) t
         (jget env ''correlation_id'' (JStr [])) r = (r', Inr ack)"
    then obtain message env t where m: "m = JObj message" "structural_reason rp m = Inr None"
      and b: "binding_reason rp r env message DEAD_STATES = None"
      and a: "admit_turn rp message (jget env ''sub_game_number'' JNull) (jget env ''step'' JNull) t
         (jget env ''correlation_id'' (JStr [])) r = (r', Inr ack)" by blast
    have "\<forall>s. rt_machine r = Some s \<longrightarrow> s \<notin> set DEAD_STATES"
      using b by (auto simp: binding_reason_def split: if_splits)
    with admit_turn_effect [OF a] codes [OF a] m show ?thesis by auto
  qed
qed

definition sample_commitment :: json where
  "sample_commitment =
     JObj [(''envelope'', JObj [(''game_uid'', JStr ''g''), (''sub_game_number'', JInt 1),
              (''step'', JInt 0), (''sender'', JStr ''police'')]),
           (''message_type'', JStr ''commitment''), (''commit_hash'', JStr ''h'')]"

lemmas turn_eval = handle_turn_def logged_def handle_turn_core_def structural_reason_def first_missing_def
  ENVELOPE_FIELDS_def message_type_of_def MESSAGE_TYPES_def REQUIRED_FIELDS_def binding_reason_def
  admit_turn_def is_idempotent_replay_def is_duplicate_conflict_def correlation_conflict_def dict_get_def
  check_and_advance_def AUX_TYPES_def check_core_def CORE_PHASE_INDEX_def cursor_of_def set_cursor_def
  fresh_cursor_def ib_enqueue_def inbox_size_def log_call_def new_router_def new_inbox_def turn_key_def

text \<open>
  C36. A commitment refused for backpressure is lost for good: the sequence cursor advanced before the
  inbox was found full, so the same message, sent again after the inbox was drained, is
  rejected as out of sequence.
\<close>

theorem backpressure_loses_commitment:
  assumes "handle_turn rp (JObj message) r = (r1, Inr ack)"
    and "jget ack ''error_code'' JNull = JStr ''BACKPRESSURE''"
    and "jget message ''message_type'' JNull = JStr ''commitment''"
    and "jget message ''envelope'' JNull = JObj env"
    and "jget env ''sub_game_number'' JNull = JInt sg"
  shows "\<exists>r2 why. handle_turn rp (JObj message) (r1\<lparr>turn_inbox := fst (drain (turn_inbox r1))\<rparr>) =
           (r2, Inr (reject why ''SEQUENCE''))"
proof -
  have core: "handle_turn_core rp (JObj message) r = (r1, Inr ack)" and log: "log_call (JObj message) = Inr ()"
    using assms(1) by (simp_all add: turn_steps)
  from handle_turn_core_cases [OF core] assms(2-5)
  have st: "structural_reason rp (JObj message) = Inr None"
    and b: "binding_reason rp r env message DEAD_STATES = None"
    and a: "admit_turn rp message (JInt sg) (jget env ''step'' JNull) ''commitment''
         (jget env ''correlation_id'' (JStr [])) r = (r1, Inr ack)"
    by (auto simp: reject_def)
  from admit_backpressure [OF a assms(2)] obtain cs why where r1: "r1 = r\<lparr>sequence := cs\<rparr>"
    and chk: "snd (check_and_advance rp (JInt sg) (jget env ''step'' JNull) ''commitment'' cs) = Inr (Some why)"
    and rest: "\<not> is_idempotent_replay (turn_inbox r) (turn_key rp (JInt sg) (jget env ''step'' JNull) ''commitment'') (JObj message)"
      "\<not> is_duplicate_conflict (turn_inbox r) (turn_key rp (JInt sg) (jget env ''step'' JNull) ''commitment'') (JObj message)"
      "correlation_conflict (turn_inbox r) (jget env ''correlation_id'' (JStr [])) (JObj message) = Inr False"
    by blast
  let ?r = "r1\<lparr>turn_inbox := fst (drain (turn_inbox r1))\<rparr>"
  have "binding_reason rp ?r env message DEAD_STATES = None"
    using b by (simp only: r1 binding_reason_frame)
  moreover have "\<exists>r2. admit_turn rp message (JInt sg) (jget env ''step'' JNull) ''commitment''
      (jget env ''correlation_id'' (JStr [])) ?r = (r2, Inr (reject why ''SEQUENCE''))"
    using rest chk
    by (cases "check_and_advance rp (JInt sg) (jget env ''step'' JNull) ''commitment'' cs")
      (simp add: r1 admit_turn_def Let_def drain_def is_idempotent_replay_def is_duplicate_conflict_def
        correlation_conflict_def)
  ultimately show ?thesis
    using st log assms(3-5) unfolding turn_steps by (auto simp: handle_turn_core_def)
qed

theorem backpressure_loses_commitment_witness:
  "\<exists>r1 ack r2 why. handle_turn (\<lambda>_. []) sample_commitment
       (new_router ''g'' POLICE ''c'' None \<lparr>turn_inbox := (new_inbox 1)\<lparr>ib_queue := [(''k'', JNull)]\<rparr>\<rparr>) = (r1, Inr ack) \<and>
     handle_turn (\<lambda>_. []) sample_commitment (r1\<lparr>turn_inbox := fst (drain (turn_inbox r1))\<rparr>) =
       (r2, Inr (reject why ''SEQUENCE''))"
proof -
  let ?r = "new_router ''g'' POLICE ''c'' None \<lparr>turn_inbox := (new_inbox 1)\<lparr>ib_queue := [(''k'', JNull)]\<rparr>\<rparr>"
  obtain r1 ack where h: "handle_turn (\<lambda>_. []) sample_commitment ?r = (r1, Inr ack)"
    and e: "jget ack ''error_code'' JNull = JStr ''BACKPRESSURE''"
    by (simp add: turn_eval sample_commitment_def Let_def reject_def)
  from backpressure_loses_commitment [OF h [unfolded sample_commitment_def] e] h show ?thesis
    unfolding sample_commitment_def by auto
qed

text \<open>
  A message whose envelope is not an object is answered with an exception, not with the
  MALFORMED acknowledgment that was computed for it: the log line dereferences the envelope.
\<close>

lemma non_object_envelope_raises:
  assumes "jhas message ''envelope''" and "as_obj (jget message ''envelope'' JNull) = None"
  shows "structural_reason rp (JObj message) = Inr (Some ''missing or non-object envelope'') \<and>
         handle_turn rp (JObj message) r = (r, Inl AttributeError) \<and>
         handle_audit rp (JObj message) r = (r, Inl AttributeError)"
proof -
  obtain v where v: "map_of message ''envelope'' = Some v" using assms(1) by (auto simp: jhas_def)
  then have get: "jget message ''envelope'' x = v" for x by (simp add: jget_def)
  with assms(2) have "as_obj v = None" by simp
  then show ?thesis
    by (cases v) (simp_all add: structural_reason_def handle_turn_def handle_audit_def logged_def
        handle_turn_core_def handle_audit_core_def log_call_def get)
qed

end
