(* ===== verification/GuiModel.thy ===== *)
theory GuiModel
  imports Belief
begin

text \<open>
  What the turn loop publishes and what the live view makes of it: the event types
  (\<^verbatim>\<open>services/gui_events.py\<close>), the queue between the two threads (\<^verbatim>\<open>gui/event_queue.py\<close>), the
  belief snapshot of \<^verbatim>\<open>services/turn_gui_publish.py\<close> and the reducer of
  \<^verbatim>\<open>gui/view_model.py\<close>. A field typed as a literal keeps its string. The set of barriers is published
  in an unspecified order, so it stays a set. \<^verbatim>\<open>round(x, 8)\<close> is a parameter.
\<close>

section \<open>Events\<close>

record belief_snapshot =
  bs_grid_size :: int
  bs_heatmap :: "real list list"
  bs_entropy_bits :: real
  bs_top_k :: "(int \<times> int \<times> real) list"

record decision_event =
  de_sub_game_number :: int
  de_step :: int
  de_own_position_before :: "int \<times> int"
  de_own_position_after :: "int \<times> int"
  de_own_visited_count :: int
  de_action_selected :: string
  de_belief :: belief_snapshot
  de_outgoing_hint_text :: string
  de_strategy_class :: string
  de_decision_latency :: real

record exchange_event =
  xe_sub_game_number :: int
  xe_step :: int
  xe_commit_sent :: bool
  xe_ack_received :: bool
  xe_reveal_sent :: bool
  xe_reveal_received :: bool
  xe_last_message_type :: string
  xe_received_hint_text :: string
  xe_barriers :: "(int \<times> int) set"
  xe_config_sha256_prefix :: string
  xe_machine_state :: string

record result_event =
  re_sub_game_number :: int
  re_result :: string
  re_reason :: string
  re_steps :: int
  re_police_score :: "int option"
  re_thief_score :: "int option"
  re_machine_state :: string

datatype gui_event =
    ConnectionEvent string string
  | StateMachineEvent string int
  | TurnDecisionEvent decision_event
  | TurnExchangeEvent exchange_event
  | SubGameResultEvent result_event
  | AuditEvent int string string

definition belief_snapshot_of :: "(real \<Rightarrow> real) \<Rightarrow> belief \<Rightarrow> belief_snapshot" where
  "belief_snapshot_of round8 b =
     \<lparr>bs_grid_size = b_size b, bs_heatmap = b_grid b, bs_entropy_bits = entropy b,
      bs_top_k = map (\<lambda>(p, prob). (row p, col p, round8 prob)) (top_k b 5)\<rparr>"

section \<open>The queue between the threads\<close>

type_synonym event_bus = "gui_event list"

definition bus_publish :: "gui_event \<Rightarrow> event_bus \<Rightarrow> event_bus" where
  "bus_publish e bus = bus @ [e]"

text \<open>At most \<open>n\<close> non-blocking reads, stopping at the first that finds the queue empty.\<close>

fun bus_drain :: "nat \<Rightarrow> event_bus \<Rightarrow> event_bus \<times> gui_event list" where
  "bus_drain 0 bus = (bus, [])"
| "bus_drain (Suc n) [] = ([], [])"
| "bus_drain (Suc n) (e # bus) = (case bus_drain n bus of (rest, items) \<Rightarrow> (rest, e # items))"

definition DRAIN_MAX :: nat where
  "DRAIN_MAX = 500"

section \<open>The live view\<close>

datatype event_key =
    DecisionKey int int | ExchangeKey int int | ResultKey int string | WholeEvent gui_event

record view_model =
  connection_status :: string
  opponent_url :: string
  state_machine_state :: string
  vm_sub_game_number :: int
  vm_step :: int
  own_position :: "(int \<times> int) option"
  own_path :: "(int \<times> int) list"
  public_barriers :: "(int \<times> int) set"
  vm_belief :: "belief_snapshot option"
  latest_sent_hint :: string
  latest_received_hint :: string
  vm_strategy_class :: string
  vm_decision_latency :: "real option"
  last_message_type :: string
  vm_commit_sent :: bool
  vm_ack_received :: bool
  vm_reveal_sent :: bool
  vm_reveal_received :: bool
  config_sha256_prefix :: string
  banner :: string
  last_result_reason :: string
  audit_verdict_text :: "string option"
  audit_reason :: string
  event_log :: "string list"
  last_event_key :: "event_key option"

definition new_view_model :: view_model where
  "new_view_model =
     \<lparr>connection_status = ''connecting'', opponent_url = [], state_machine_state = [],
      vm_sub_game_number = 0, vm_step = 0, own_position = None, own_path = [],
      public_barriers = {}, vm_belief = None, latest_sent_hint = [], latest_received_hint = [],
      vm_strategy_class = [], vm_decision_latency = None, last_message_type = [],
      vm_commit_sent = False, vm_ack_received = False, vm_reveal_sent = False,
      vm_reveal_received = False, config_sha256_prefix = [], banner = ''playing'',
      last_result_reason = [], audit_verdict_text = None, audit_reason = [], event_log = [],
      last_event_key = None\<rparr>"

definition LOG_LIMIT :: nat where
  "LOG_LIMIT = 200"

definition appended_log :: "view_model \<Rightarrow> string \<Rightarrow> string list" where
  "appended_log m line =
     (let xs = event_log m @ [line] in drop (length xs - LOG_LIMIT) xs)"

definition BANNER_BY_RESULT :: "(string \<times> string) list" where
  "BANNER_BY_RESULT =
     [(''capture'', ''capture''), (''survival'', ''survival''), (''technical_loss'', ''technical_loss'')]"

fun event_key_of :: "gui_event \<Rightarrow> event_key" where
  "event_key_of (TurnDecisionEvent e) = DecisionKey (de_sub_game_number e) (de_step e)"
| "event_key_of (TurnExchangeEvent e) = ExchangeKey (xe_sub_game_number e) (xe_step e)"
| "event_key_of (SubGameResultEvent e) = ResultKey (re_sub_game_number e) (re_result e)"
| "event_key_of e = WholeEvent e"

fun fold_one :: "view_model \<Rightarrow> gui_event \<Rightarrow> view_model" where
  "fold_one m (ConnectionEvent status url) =
     m\<lparr>connection_status := status, opponent_url := url,
       banner := (if status \<in> {''disconnected'', ''timeout''} then status else banner m),
       event_log := appended_log m (''connection: '' @ status)\<rparr>"
| "fold_one m (StateMachineEvent st sg) =
     m\<lparr>state_machine_state := st, vm_sub_game_number := sg,
       event_log := appended_log m (''state: '' @ st)\<rparr>"
| "fold_one m (TurnDecisionEvent e) =
     (let is_new = de_sub_game_number e \<noteq> vm_sub_game_number m;
          prior = (if is_new then [] else own_path m)
      in m\<lparr>vm_sub_game_number := de_sub_game_number e, vm_step := de_step e,
           own_position := Some (de_own_position_after e),
           own_path := prior @ [de_own_position_after e],
           vm_belief := Some (de_belief e),
           latest_sent_hint := de_outgoing_hint_text e,
           vm_strategy_class := de_strategy_class e,
           vm_decision_latency := Some (de_decision_latency e),
           banner := (if is_new then ''playing'' else banner m),
           event_log := appended_log m (''step '' @ str_of_int (de_step e) @ '': decided '' @
                                        de_action_selected e)\<rparr>)"
| "fold_one m (TurnExchangeEvent e) =
     m\<lparr>last_message_type := xe_last_message_type e, vm_commit_sent := xe_commit_sent e,
       vm_ack_received := xe_ack_received e, vm_reveal_sent := xe_reveal_sent e,
       vm_reveal_received := xe_reveal_received e,
       latest_received_hint := xe_received_hint_text e, public_barriers := xe_barriers e,
       config_sha256_prefix := xe_config_sha256_prefix e,
       state_machine_state := xe_machine_state e,
       connection_status := (if xe_reveal_received e then ''connected'' else ''disconnected''),
       event_log := appended_log m (''step '' @ str_of_int (xe_step e) @ '': '' @
                                    xe_last_message_type e)\<rparr>"
| "fold_one m (SubGameResultEvent e) =
     m\<lparr>banner := (case map_of BANNER_BY_RESULT (re_result e) of None \<Rightarrow> ''playing'' | Some b \<Rightarrow> b),
       last_result_reason := re_reason e, state_machine_state := re_machine_state e,
       event_log := appended_log m (''sub-game '' @ str_of_int (re_sub_game_number e) @ '': '' @
                                    re_result e)\<rparr>"
| "fold_one m (AuditEvent sg verdict why) =
     m\<lparr>audit_verdict_text := Some verdict, audit_reason := why,
       event_log := appended_log m (''audit: '' @ verdict)\<rparr>"

definition fold_event :: "view_model \<Rightarrow> gui_event \<Rightarrow> view_model" where
  "fold_event m e =
     (if last_event_key m = Some (event_key_of e) then m
      else (fold_one m e)\<lparr>last_event_key := Some (event_key_of e)\<rparr>)"

section \<open>Lemmas\<close>

lemma appended_log_bounded: "length (appended_log m line) \<le> LOG_LIMIT"
  by (simp add: appended_log_def Let_def)

lemma appended_log_last: "appended_log m line \<noteq> [] \<and> last (appended_log m line) = line"
  by (simp add: appended_log_def Let_def LOG_LIMIT_def last_drop)

lemma fold_one_log: "\<exists>line. event_log (fold_one m e) = appended_log m line"
  by (cases e) (auto simp: Let_def)

interpretation view: component fold_event "\<lambda>m :: view_model. length (event_log m) \<le> LOG_LIMIT"
proof
  fix m :: view_model and e
  assume "length (event_log m) \<le> LOG_LIMIT"
  moreover obtain line where "event_log (fold_one m e) = appended_log m line"
    using fold_one_log by blast
  ultimately show "length (event_log (fold_event m e)) \<le> LOG_LIMIT"
    by (simp add: fold_event_def appended_log_bounded)
qed

lemma bus_drain_split:
  "bus_drain n bus = (drop n bus, take n bus)"
  by (induction n bus rule: bus_drain.induct) auto

text \<open>The consumer's loop: each tick drains the queue and folds what it got.\<close>

definition tick :: "event_bus \<times> view_model \<Rightarrow> gui_event list \<Rightarrow> event_bus \<times> view_model" where
  "tick st published =
     (let bus = foldl (\<lambda>b e. bus_publish e b) (fst st) published;
          (rest, items) = bus_drain DRAIN_MAX bus
      in (rest, foldl fold_event (snd st) items))"

lemma foldl_publish: "foldl (\<lambda>b e. bus_publish e b) bus es = bus @ es"
  by (induction es arbitrary: bus) (simp_all add: bus_publish_def)

lemma tick_consumes:
  "tick (bus, m) published =
     (drop DRAIN_MAX (bus @ published), foldl fold_event m (take DRAIN_MAX (bus @ published)))"
  by (simp add: tick_def foldl_publish bus_drain_split)

lemma ticks_consume:
  "\<exists>done. done @ fst (foldl tick (bus, m) ps) = bus @ concat ps \<and>
     snd (foldl tick (bus, m) ps) = foldl fold_event m done"
proof (induction ps arbitrary: bus m)
  case Nil
  show ?case by (intro exI [of _ "[]"]) simp
next
  case (Cons p ps)
  let ?q = "bus @ p"
  from Cons.IH [of "drop DRAIN_MAX ?q" "foldl fold_event m (take DRAIN_MAX ?q)"]
  obtain more where more:
    "more @ fst (foldl tick (drop DRAIN_MAX ?q, foldl fold_event m (take DRAIN_MAX ?q)) ps) =
       drop DRAIN_MAX ?q @ concat ps"
    "snd (foldl tick (drop DRAIN_MAX ?q, foldl fold_event m (take DRAIN_MAX ?q)) ps) =
       foldl fold_event (foldl fold_event m (take DRAIN_MAX ?q)) more" by blast
  have "(take DRAIN_MAX ?q @ more) @ fst (foldl tick (bus, m) (p # ps)) =
      take DRAIN_MAX ?q @ drop DRAIN_MAX ?q @ concat ps"
    using more(1) by (simp add: tick_consumes)
  also have "\<dots> = bus @ concat (p # ps)"
    by (simp only: append_assoc [symmetric] append_take_drop_id) simp
  finally show ?case
    using more(2) by (intro exI [of _ "take DRAIN_MAX ?q @ more"]) (simp add: tick_consumes)
qed

section \<open>Properties\<close>

text \<open>
  The live view follows the game: over any sequence of consumer ticks, with whatever is
  published between them, the view is the fold of a prefix of what was published, in order and
  with nothing lost or repeated; what is not yet folded is still queued. Folding the same event
  twice in a row changes nothing, and the log stays within 200 lines.
\<close>

lemma view_follows_the_game:
  "(\<exists>done. done @ fst (foldl tick ([], new_view_model) ps) = concat ps \<and>
      snd (foldl tick ([], new_view_model) ps) = foldl fold_event new_view_model done) \<and>
   fold_event (fold_event m e) e = fold_event m e \<and>
   length (event_log (foldl fold_event new_view_model es)) \<le> 200"
proof (intro conjI)
  show "\<exists>done. done @ fst (foldl tick ([], new_view_model) ps) = concat ps \<and>
      snd (foldl tick ([], new_view_model) ps) = foldl fold_event new_view_model done"
    using ticks_consume [of "[]" new_view_model ps] by simp
  show "fold_event (fold_event m e) e = fold_event m e" by (simp add: fold_event_def)
  show "length (event_log (foldl fold_event new_view_model es)) \<le> 200"
    using view.run_inv [of new_view_model es] by (simp add: new_view_model_def LOG_LIMIT_def)
qed

end
