(* ===== verification/EffectLogic.thy ===== *)
theory EffectLogic
  imports Prelude
begin

text \<open>
  Reasoning about effectful calls: \<open>ensures m s Q R\<close> says that running \<open>m\<close> from \<open>s\<close> either returns, with
  \<open>Q\<close> of the value and the new state, or raises, with \<open>R\<close> of the exception and the state it
  leaves behind. \<open>eread\<close> passes the current state to a call.
\<close>

definition eread :: "('s \<Rightarrow> ('s, 'a) eff) \<Rightarrow> ('s, 'a) eff" where
  "eread m s = m s s"

definition ensures :: "('s, 'a) eff \<Rightarrow> 's \<Rightarrow> ('a \<Rightarrow> 's \<Rightarrow> bool) \<Rightarrow> (py_exc \<Rightarrow> 's \<Rightarrow> bool) \<Rightarrow> bool" where
  "ensures m s Q R \<longleftrightarrow> (case m s of (s', Inr x) \<Rightarrow> Q x s' | (s', Inl e) \<Rightarrow> R e s')"

named_theorems vcg \<open>verification conditions of the effect combinators\<close>

lemma ensures_bind [vcg]:
  "ensures (ebind m k) s Q R \<longleftrightarrow> ensures m s (\<lambda>x s'. ensures (k x) s' Q R) R"
  by (auto simp: ensures_def ebind_def split: prod.splits sum.splits)

lemma ensures_ret [vcg]: "ensures (eret x) s Q R \<longleftrightarrow> Q x s"
  by (simp add: ensures_def eret_def)

lemma ensures_gets [vcg]: "ensures (egets f) s Q R \<longleftrightarrow> Q (f s) s"
  by (simp add: ensures_def egets_def)

lemma ensures_modify [vcg]: "ensures (emodify f) s Q R \<longleftrightarrow> Q () (f s)"
  by (simp add: ensures_def emodify_def)

lemma ensures_lift [vcg]:
  "ensures (elift r) s Q R \<longleftrightarrow> (case r of Inr x \<Rightarrow> Q x s | Inl e \<Rightarrow> R e s)"
  by (simp add: ensures_def elift_def)

lemma ensures_read [vcg]: "ensures (eread m) s Q R \<longleftrightarrow> ensures (m s) s Q R"
  by (simp add: ensures_def eread_def)

lemma ensures_if [vcg]:
  "ensures (if b then m else m') s Q R \<longleftrightarrow> (if b then ensures m s Q R else ensures m' s Q R)"
  by simp

lemma ensures_mono:
  "ensures m s Q R \<Longrightarrow> (\<And>x s'. Q x s' \<Longrightarrow> Q' x s') \<Longrightarrow> (\<And>e s'. R e s' \<Longrightarrow> R' e s') \<Longrightarrow>
     ensures m s Q' R'"
  by (auto simp: ensures_def split: prod.splits sum.splits)

lemma ensures_bindI:
  "ensures m s Q' R' \<Longrightarrow> (\<And>x s'. Q' x s' \<Longrightarrow> ensures (k x) s' Q R) \<Longrightarrow>
     (\<And>e s'. R' e s' \<Longrightarrow> R e s') \<Longrightarrow> ensures (ebind m k) s Q R"
  unfolding ensures_bind by (erule ensures_mono) auto

lemma ensuresI_value: "m s = (s', Inr x) \<Longrightarrow> Q x s' \<Longrightarrow> ensures m s Q R"
  by (simp add: ensures_def)

lemma ensures_valueD: "ensures m s Q R \<Longrightarrow> m s = (s', Inr x) \<Longrightarrow> Q x s'"
  by (simp add: ensures_def)

lemma ensures_raiseD: "ensures m s Q R \<Longrightarrow> m s = (s', Inl e) \<Longrightarrow> R e s'"
  by (simp add: ensures_def)

end
