(* ===== verification/Turn.thy ===== *)
theory Turn
  imports EffectLogic StateMachine Sealing Strategy Scent Router Config GuiModel
begin

text \<open>
  One turn of the thief (\<^verbatim>\<open>services/turn_loop.py\<close>) with what it is made of: the sub-game's local
  state (\<^verbatim>\<open>subgame_state.py\<close>), sealing and evidence (\<^verbatim>\<open>turn_prep.py\<close>), the wire messages
  (\<^verbatim>\<open>turn_messages.py\<close>), the commit/reveal delivery (\<^verbatim>\<open>turn_exchange.py\<close>), the capture resolution
  (\<^verbatim>\<open>capture_resolution.py\<close>) and the published events (\<^verbatim>\<open>turn_gui_publish.py\<close>). What a turn reads
  from outside (the clock, the brain and the hint provider, the time stamp, the nonce, the peer's
  two answers) is a record of the turn's environment, so a theorem over all environments covers every
  brain and every behaviour of the peer. The optional trace file is not modelled.
\<close>

section \<open>State and dependencies\<close>

record sub_game_state =
  grid_size :: int
  sub_game_number :: int
  ss_position :: position
  ss_board :: board
  ss_belief :: belief
  own_scent :: scent_field
  ss_machine :: machine
  ss_exchange :: exchange
  ss_visited :: "position set"
  ss_records :: "sealed_record list"
  ss_step :: int
  ss_police_scent :: "scent_field option"
  ss_hint_region :: "position list option"
  ss_hint_trust :: real
  pending_claim_response :: "bool option"
  published :: "gui_event list"

text \<open>\<open>published\<close> is the sequence of \<^verbatim>\<open>gui_sink.publish\<close> calls.\<close>

definition initial :: "int \<Rightarrow> int \<Rightarrow> position \<Rightarrow> machine \<Rightarrow> sub_game_state res" where
  "initial n number start m =
     rbind (uniform_prior n {}) (\<lambda>b.
       Inr \<lparr>grid_size = n, sub_game_number = number, ss_position = start,
            ss_board = \<lparr>board_size = n, barriers = {}\<rparr>, ss_belief = b,
            own_scent = empty_scent_field n, ss_machine = m, ss_exchange = new_exchange,
            ss_visited = {start}, ss_records = [], ss_step = 0, ss_police_scent = None,
            ss_hint_region = None, ss_hint_trust = 1 / 2, pending_claim_response = None,
            published = []\<rparr>)"

record deps =
  dp_grid_size :: int
  dp_thief_start :: position
  response_timeout :: real
  survival_threshold :: int
  pheromone_decay :: real
  dp_scoring :: scoring
  dp_game_uid :: string
  dp_config_sha256 :: string
  reveal_transform :: "(jobj \<Rightarrow> jobj res) option"

record turn_env =
  te_clock :: real
  te_decide :: "decision_input \<Rightarrow> decision res"
  te_hint :: "hint_intent \<Rightarrow> direction \<Rightarrow> string res"
  te_strategy_class :: string
  te_latency :: real
  te_round8 :: "real \<Rightarrow> real"
  te_timestamp :: string
  te_nonce :: string
  te_deliver_commitment :: "jobj \<Rightarrow> jobj res"
  te_deliver_reveal :: "jobj \<Rightarrow> jobj res"

section \<open>Effects on parts of the state\<close>

definition fire :: "event_kind \<Rightarrow> string \<Rightarrow> (sub_game_state, unit) eff" where
  "fire k detail s =
     (case apply_event (Event k detail) (ss_machine s) of
        (m', r) \<Rightarrow> (s\<lparr>ss_machine := m'\<rparr>, rbind r (\<lambda>_. Inr ())))"

definition on_exchange :: "(exchange, unit) eff \<Rightarrow> (sub_game_state, unit) eff" where
  "on_exchange f s = (case f (ss_exchange s) of (x', r) \<Rightarrow> (s\<lparr>ss_exchange := x'\<rparr>, r))"

definition publish :: "gui_event \<Rightarrow> (sub_game_state, unit) eff" where
  "publish e = emodify (\<lambda>s. s\<lparr>published := published s @ [e]\<rparr>)"

definition gui_exchange ::
    "bool \<Rightarrow> bool \<Rightarrow> bool \<Rightarrow> bool \<Rightarrow> string \<Rightarrow> string \<Rightarrow> position set \<Rightarrow> string \<Rightarrow> (sub_game_state, unit) eff" where
  "gui_exchange commit_sent ack_received reveal_sent reveal_received message_type txt bars sha s =
     publish (TurnExchangeEvent
       \<lparr>xe_sub_game_number = sub_game_number s, xe_step = ss_step s,
        xe_commit_sent = commit_sent, xe_ack_received = ack_received, xe_reveal_sent = reveal_sent,
        xe_reveal_received = reveal_received, xe_last_message_type = message_type,
        xe_received_hint_text = txt, xe_barriers = (\<lambda>p. (row p, col p)) ` bars,
        xe_config_sha256_prefix = take 8 sha,
        xe_machine_state = state_value (m_state (ss_machine s))\<rparr>) s"

definition exchange_ok :: "string \<Rightarrow> string \<Rightarrow> (sub_game_state, unit) eff" where
  "exchange_ok txt sha s =
     gui_exchange True True True True ''reveal'' txt (barriers (ss_board s)) sha s"

text \<open>\<open>progress\<close>: the three flags of the error, or none when the error is not the exchange's.\<close>

definition exchange_failed :: "(bool \<times> bool \<times> bool) option \<Rightarrow> string \<Rightarrow> (sub_game_state, unit) eff" where
  "exchange_failed progress sha =
     (case progress of
        None \<Rightarrow> gui_exchange False False False False ''technical_failure'' [] {} sha
      | Some (c, a, r) \<Rightarrow> gui_exchange c a r False ''technical_failure'' [] {} sha)"

definition result_for :: "sub_game_result \<Rightarrow> string \<Rightarrow> (sub_game_state, unit) eff" where
  "result_for outcome why s =
     publish (SubGameResultEvent
       \<lparr>re_sub_game_number = sub_game_number s, re_result = result_value outcome, re_reason = why,
        re_steps = int (length (ss_records s)), re_police_score = None, re_thief_score = None,
        re_machine_state = state_value (m_state (ss_machine s))\<rparr>) s"

section \<open>Capture resolution\<close>

text \<open>
  A cell declared by the peer: the two items \<^verbatim>\<open>x[0]\<close> and \<^verbatim>\<open>x[1]\<close> of a JSON value. A cell whose
  items are not integers equals no cell of the board.
\<close>

fun item_at :: "json \<Rightarrow> nat \<Rightarrow> json res" where
  "item_at (JList xs) i = (if i < length xs then Inr (xs ! i) else Inl IndexError)"
| "item_at (JStr s) i = (if i < length s then Inr (JStr [s ! i]) else Inl IndexError)"
| "item_at (JObj d) i = Inl (KeyError (str_of_nat i))"
| "item_at _ i = Inl TypeError"

type_synonym declared_cell = "json \<times> json"

definition declared_cell_of :: "json \<Rightarrow> declared_cell res" where
  "declared_cell_of v =
     rbind (item_at v 0) (\<lambda>a. rbind (item_at v 1) (\<lambda>b. Inr (a, b)))"

definition is_cell :: "declared_cell \<Rightarrow> position \<Rightarrow> bool" where
  "is_cell c p \<longleftrightarrow> json_eq (fst c) (JInt (row p)) \<and> json_eq (snd c) (JInt (col p))"

fun int_value :: "json \<Rightarrow> int option" where
  "int_value (JInt i) = Some i"
| "int_value (JBool b) = Some (if b then 1 else 0)"
| "int_value (JFloat (Fin x)) = (if x = of_int \<lfloor>x\<rfloor> then Some \<lfloor>x\<rfloor> else None)"
| "int_value _ = None"

definition board_cell :: "declared_cell \<Rightarrow> position option" where
  "board_cell c =
     (case (int_value (fst c), int_value (snd c)) of
        (Some a, Some b) \<Rightarrow> Some (Pos a b) | _ \<Rightarrow> None)"

record capture_resolution =
  cr_captured :: bool
  cr_response :: "(declared_cell \<times> bool) option"
  cr_reason :: string

definition resolve_capture :: "position \<Rightarrow> json \<Rightarrow> json \<Rightarrow> capture_resolution res" where
  "resolve_capture own claimed_cell barrier_cell =
     rbind (if is_null barrier_cell then Inr False
            else rbind (declared_cell_of barrier_cell) (\<lambda>b. Inr (is_cell b own))) (\<lambda>on_me.
     if on_me then
       Inr \<lparr>cr_captured = True, cr_response = None, cr_reason = ''barrier placed on thief cell''\<rparr>
     else if is_null claimed_cell then
       Inr \<lparr>cr_captured = False, cr_response = None, cr_reason = ''no capture evidence this turn''\<rparr>
     else rbind (declared_cell_of claimed_cell) (\<lambda>c.
       let hit = is_cell c own in
       Inr \<lparr>cr_captured = hit, cr_response = Some (c, hit),
            cr_reason = (if hit then ''capture claim correct''
                         else ''capture claim wrong (honest deny)'')\<rparr>))"

section \<open>Sealing and evidence\<close>

definition scent_digest :: "digest \<Rightarrow> scent_field \<Rightarrow> string" where
  "scent_digest H f = H (grid_json (sf_grid f))"

fun intent_value :: "hint_intent \<Rightarrow> string" where
  "intent_value TRUTH = ''truth''"
| "intent_value LIE = ''lie''"

definition turn_payload ::
    "digest \<Rightarrow> deps \<Rightarrow> turn_env \<Rightarrow> direction \<Rightarrow> hint_intent \<Rightarrow> string \<Rightarrow> sub_game_state \<Rightarrow> payload" where
  "turn_payload H dp env d it txt s =
     \<lparr>p_step = ss_step s, p_role = ''thief'', p_sub_game_number = sub_game_number s,
      p_position = (row (ss_position s), col (ss_position s)),
      p_move = Some (direction_value d), p_intent = intent_value it, p_hint = txt,
      p_scent_digest = scent_digest H (own_scent s), p_scent_grid = sf_grid (own_scent s),
      p_timestamp = te_timestamp env, p_nonce = te_nonce env,
      p_config_sha256 = dp_config_sha256 dp, p_barrier_placed = None, p_capture_claim = None,
      p_claim_response = pending_claim_response s, p_win_claim = False,
      p_schema_version = CURRENT_SCHEMA_VERSION, p_legacy_state = None\<rparr>"

definition seal_turn ::
    "digest \<Rightarrow> deps \<Rightarrow> turn_env \<Rightarrow> direction \<Rightarrow> hint_intent \<Rightarrow> string \<Rightarrow> sub_game_state \<Rightarrow> sealed_record" where
  "seal_turn H dp env d it txt s = seal H (turn_payload H dp env d it txt s)"

text \<open>\<^verbatim>\<open>float(v)\<close> on a grid that passed the validation.\<close>

fun float_of :: "json \<Rightarrow> real" where
  "float_of (JInt i) = of_int i"
| "float_of (JFloat (Fin x)) = x"
| "float_of _ = 0"

fun float_row :: "json \<Rightarrow> real list" where
  "float_row (JList vs) = map float_of vs"
| "float_row _ = []"

fun float_grid :: "json \<Rightarrow> real list list" where
  "float_grid (JList rows) = map float_row rows"
| "float_grid _ = []"

definition declare_barrier :: "declared_cell \<Rightarrow> board \<Rightarrow> board res" where
  "declare_barrier c b =
     (if \<not> hashable (fst c) \<or> \<not> hashable (snd c) then Inl TypeError
      else Inr (case board_cell c of None \<Rightarrow> b | Some p \<Rightarrow> with_barrier b p))"

text \<open>\<^verbatim>\<open>hint_text.lower()\<close> needs a string.\<close>

definition hinted_region :: "json \<Rightarrow> int \<Rightarrow> position list option res" where
  "hinted_region txt n =
     (if \<not> truthy txt then Inr None
      else case txt of
        JStr t \<Rightarrow> Inr (case parse_region_from_hint t of None \<Rightarrow> None | Some w \<Rightarrow> Some (region_cells w n))
      | _ \<Rightarrow> Inl AttributeError)"

definition absorb_public_evidence :: "jobj \<Rightarrow> (sub_game_state, unit) eff" where
  "absorb_public_evidence opp =
     ebind (eread (\<lambda>s. elift (validate_scent_grid (jget opp ''scent_grid'' JNull) (grid_size s)))) (\<lambda>verdict.
     ebind (emodify (\<lambda>s. s\<lparr>ss_police_scent :=
        (if verdict = None
         then Some \<lparr>sf_size = grid_size s, sf_grid = float_grid (jget opp ''scent_grid'' JNull)\<rparr>
         else None)\<rparr>)) (\<lambda>_.
     ebind (eread (\<lambda>s. elift (hinted_region (jget opp ''hint'' JNull) (grid_size s)))) (\<lambda>region.
     ebind (emodify (\<lambda>s. s\<lparr>ss_hint_region := region\<rparr>)) (\<lambda>_.
     if is_null (jget opp ''barrier_placed'' JNull) then eret ()
     else ebind (elift (declared_cell_of (jget opp ''barrier_placed'' JNull))) (\<lambda>c.
          ebind (eread (\<lambda>s. elift (declare_barrier c (ss_board s)))) (\<lambda>b.
          emodify (\<lambda>s. s\<lparr>ss_board := b\<rparr>)))))))"

section \<open>The wire messages\<close>

definition envelope :: "string \<Rightarrow> int \<Rightarrow> int \<Rightarrow> int \<Rightarrow> string \<Rightarrow> string \<Rightarrow> jobj" where
  "envelope game_uid sub_game step sequence_id corr timestamp =
     [(''schema_version'', JStr ''1.0''), (''correlation_id'', JStr corr),
      (''game_id'', JStr game_uid), (''game_uid'', JStr game_uid),
      (''sub_game_number'', JInt sub_game), (''step'', JInt step), (''sender'', JStr ''thief''),
      (''timestamp'', JStr timestamp), (''sequence_id'', JInt sequence_id)]"

definition commitment_message :: "sealed_record \<Rightarrow> string \<Rightarrow> string \<Rightarrow> jobj" where
  "commitment_message r game_uid sha =
     (let p = sr_payload r in
      [(''envelope'', JObj (envelope game_uid (p_sub_game_number p) (p_step p) (2 * p_step p)
          (''commit-'' @ str_of_int (p_sub_game_number p) @ ''-'' @ str_of_int (p_step p)) (p_timestamp p))),
       (''message_type'', JStr ''commitment''),
       (''commit_hash'', JStr (sr_commit_hash r)),
       (''config_sha256'', JStr sha)])"

definition reveal_message :: "sealed_record \<Rightarrow> string \<Rightarrow> string \<Rightarrow> jobj" where
  "reveal_message r game_uid sha =
     (let p = sr_payload r in
      [(''envelope'', JObj (envelope game_uid (p_sub_game_number p) (p_step p) (2 * p_step p + 1)
          (''reveal-'' @ str_of_int (p_sub_game_number p) @ ''-'' @ str_of_int (p_step p)) (p_timestamp p))),
       (''message_type'', JStr ''reveal''),
       (''reveal'', JObj (public_reveal_dict p)),
       (''config_sha256'', JStr sha)])"

text \<open>
  The two deliveries: an unreachable peer and a refusal become the exchange's own error, which
  carries how far it got. \<open>rp\<close> is the rendering of the refusing answer.
\<close>

definition peer_call :: "bool \<times> bool \<times> bool \<Rightarrow> jobj res \<Rightarrow> jobj res" where
  "peer_call progress r =
     (case r of
        Inl (PeerUnavailableError why) \<Rightarrow>
          (case progress of (c, a, v) \<Rightarrow> Inl (TurnExchangeError why c a v))
      | _ \<Rightarrow> r)"

definition deliver_commit_and_reveal ::
    "(json \<Rightarrow> string) \<Rightarrow> (jobj \<Rightarrow> jobj res) \<Rightarrow> (jobj \<Rightarrow> jobj res) \<Rightarrow> jobj \<Rightarrow> jobj \<Rightarrow> jobj res" where
  "deliver_commit_and_reveal rp deliver1 deliver2 commitment_msg reveal_msg =
     rbind (peer_call (False, False, False) (deliver1 commitment_msg)) (\<lambda>ack.
     if \<not> truthy (jget ack ''ok'' JNull) then
       Inl (TurnExchangeError (''commitment rejected: '' @ rp (JObj ack)) True False False)
     else rbind (peer_call (True, True, False) (deliver2 reveal_msg)) (\<lambda>reveal_ack.
     if \<not> truthy (jget reveal_ack ''ok'' JNull) then
       Inl (TurnExchangeError (''reveal rejected: '' @ rp (JObj reveal_ack)) True True True)
     else Inr reveal_ack))"

section \<open>The turn\<close>

record turn_result =
  tr_ended :: bool
  tr_outcome :: "sub_game_result option"
  tr_reason :: string

definition Turn_result :: "bool \<Rightarrow> sub_game_result option \<Rightarrow> string \<Rightarrow> turn_result" where
  "Turn_result e r why = \<lparr>tr_ended = e, tr_outcome = r, tr_reason = why\<rparr>"

lemma Turn_result_sel [simp]:
  "tr_ended (Turn_result e r why) = e" "tr_outcome (Turn_result e r why) = r"
  "tr_reason (Turn_result e r why) = why"
  by (simp_all add: Turn_result_def)

text \<open>The beginning of the turn: own scent and the belief.\<close>

definition begin_turn :: "deps \<Rightarrow> (sub_game_state, unit) eff" where
  "begin_turn dp =
     ebind (eread (\<lambda>s. fire BEGIN_TURN (''step '' @ str_of_int (ss_step s)))) (\<lambda>_.
     ebind (emodify (\<lambda>s. s\<lparr>own_scent := apply_turn (own_scent s) (ss_position s) (pheromone_decay dp)\<rparr>)) (\<lambda>_.
     ebind (eread (\<lambda>s. elift (update_belief (ss_belief s) (ss_board s) (ss_police_scent s)
                          (ss_hint_region s) (ss_hint_trust s)))) (\<lambda>bt.
     emodify (\<lambda>s. s\<lparr>ss_belief := fst bt, ss_hint_trust := snd bt\<rparr>))))"

text \<open>The decision: the brain, the hint, the preview of the move and the decision event.\<close>

definition decision_context :: "deps \<Rightarrow> turn_env \<Rightarrow> sub_game_state \<Rightarrow> decision_input res" where
  "decision_context dp env s =
     rbind (new_deadline (response_timeout dp)) (\<lambda>dl.
       Inr \<lparr>legal_directions = legal_move_directions (ss_position s) (ss_board s),
            di_position = ss_position s, di_visited = ss_visited s, di_board = ss_board s,
            di_belief = ss_belief s, di_step = ss_step s, di_deadline = dl_begin dl (te_clock env)\<rparr>)"

definition publish_decision ::
    "turn_env \<Rightarrow> decision \<Rightarrow> string \<Rightarrow> position \<Rightarrow> (sub_game_state, unit) eff" where
  "publish_decision env d txt destination s =
     publish (TurnDecisionEvent
       \<lparr>de_sub_game_number = sub_game_number s, de_step = ss_step s,
        de_own_position_before = (row (ss_position s), col (ss_position s)),
        de_own_position_after = (row destination, col destination),
        de_own_visited_count = int (card (ss_visited s)),
        de_action_selected = direction_value (d_direction d),
        de_belief = belief_snapshot_of (te_round8 env) (ss_belief s),
        de_outgoing_hint_text = txt, de_strategy_class = te_strategy_class env,
        de_decision_latency = te_latency env\<rparr>) s"

definition decide_turn :: "deps \<Rightarrow> turn_env \<Rightarrow> (sub_game_state, decision \<times> string) eff" where
  "decide_turn dp env =
     ebind (eread (\<lambda>s. elift (decision_context dp env s))) (\<lambda>ctx.
     ebind (elift (te_decide env ctx)) (\<lambda>d.
     ebind (elift (te_hint env (d_intent d) (d_direction d))) (\<lambda>txt.
     ebind (eread (\<lambda>s. elift (apply_move (ss_position s) (d_direction d) (ss_board s)))) (\<lambda>destination.
     ebind (publish_decision env d txt destination) (\<lambda>_.
     eret (d, txt))))))"

text \<open>The exchange: seal, commit, deliver, acknowledge, reveal.\<close>

definition outgoing_reveal :: "deps \<Rightarrow> sealed_record \<Rightarrow> jobj res" where
  "outgoing_reveal dp r =
     (let m = reveal_message r (dp_game_uid dp) (dp_config_sha256 dp)
      in case reveal_transform dp of None \<Rightarrow> Inr m | Some f \<Rightarrow> f m)"

definition exchange_turn ::
    "digest \<Rightarrow> (json \<Rightarrow> string) \<Rightarrow> deps \<Rightarrow> turn_env \<Rightarrow> decision \<Rightarrow> string
       \<Rightarrow> (sub_game_state, jobj) eff" where
  "exchange_turn H rp dp env d txt =
     ebind (egets (seal_turn H dp env (d_direction d) (d_intent d) txt)) (\<lambda>r.
     ebind (eread (\<lambda>s. on_exchange (ex_commit (ss_step s) (sr_commit_hash r)))) (\<lambda>_.
     ebind (fire MOVE_DECIDED []) (\<lambda>_.
     ebind (fire COMMIT_SENT []) (\<lambda>_.
     ebind (elift (outgoing_reveal dp r)) (\<lambda>rev.
     ebind (elift (deliver_commit_and_reveal rp (te_deliver_commitment env) (te_deliver_reveal env)
              (commitment_message r (dp_game_uid dp) (dp_config_sha256 dp)) rev)) (\<lambda>reveal_ack.
     ebind (eread (\<lambda>s. on_exchange (ex_acknowledge (ss_step s)))) (\<lambda>_.
     ebind (fire ACK_RECEIVED []) (\<lambda>_.
     ebind (eread (\<lambda>s. on_exchange (ex_reveal H (ss_step s) r))) (\<lambda>_.
     ebind (fire REVEAL_SENT []) (\<lambda>_.
     ebind (emodify (\<lambda>s. s\<lparr>ss_records := ss_records s @ [r]\<rparr>)) (\<lambda>_.
     eret reveal_ack)))))))))))"

text \<open>The resolution: the peer's public turn, then the move.\<close>

definition hint_shown :: "jobj \<Rightarrow> string" where
  "hint_shown opp = (case jget opp ''hint'' (JStr []) of JStr t \<Rightarrow> t | _ \<Rightarrow> [])"

definition next_claim_response :: "capture_resolution \<Rightarrow> bool option" where
  "next_claim_response res =
     (if cr_captured res then Some True
      else case cr_response res of Some (_, hit) \<Rightarrow> Some hit | None \<Rightarrow> None)"

definition advance_move :: "deps \<Rightarrow> direction \<Rightarrow> (sub_game_state, turn_result) eff" where
  "advance_move dp d =
     ebind (eread (\<lambda>s. elift (apply_move (ss_position s) d (ss_board s)))) (\<lambda>p.
     ebind (emodify (\<lambda>s. s\<lparr>ss_position := p, ss_visited := insert p (ss_visited s)\<rparr>)) (\<lambda>_.
     ebind (egets (\<lambda>s. ss_step s + 1 \<ge> survival_threshold dp)) (\<lambda>survived.
     if survived then
       ebind (fire SUB_GAME_ENDED ''survived'') (\<lambda>_.
       ebind (result_for SURVIVAL ''reached survival threshold'') (\<lambda>_.
       eret (Turn_result True (Some SURVIVAL) ''reached survival threshold'')))
     else
       ebind (fire TURN_VERIFIED []) (\<lambda>_.
       ebind (emodify (\<lambda>s. s\<lparr>ss_step := ss_step s + 1\<rparr>)) (\<lambda>_.
       eret (Turn_result False None ''turn complete''))))))"

definition resolve_and_advance :: "deps \<Rightarrow> direction \<Rightarrow> json \<Rightarrow> (sub_game_state, turn_result) eff" where
  "resolve_and_advance dp d opp_json =
     ebind (elift (obj_or_raise opp_json)) (\<lambda>opp.
     ebind (eread (\<lambda>s. elift (resolve_capture (ss_position s) (jget opp ''capture_claim'' JNull)
                          (jget opp ''barrier_placed'' JNull)))) (\<lambda>res.
     ebind (absorb_public_evidence opp) (\<lambda>_.
     ebind (exchange_ok (hint_shown opp) (dp_config_sha256 dp)) (\<lambda>_.
     ebind (emodify (\<lambda>s. s\<lparr>pending_claim_response := next_claim_response res\<rparr>)) (\<lambda>_.
     if cr_captured res then
       ebind (fire TURN_VERIFIED []) (\<lambda>_.
       ebind (emodify (\<lambda>s. s\<lparr>ss_step := ss_step s + 1\<rparr>)) (\<lambda>_.
       eret (Turn_result False None ''captured, confirmation pending'')))
     else advance_move dp d)))))"

definition run_turn_core ::
    "digest \<Rightarrow> (json \<Rightarrow> string) \<Rightarrow> deps \<Rightarrow> turn_env \<Rightarrow> (sub_game_state, turn_result) eff" where
  "run_turn_core H rp dp env =
     ebind (begin_turn dp) (\<lambda>_.
     ebind (decide_turn dp env) (\<lambda>dt.
     ebind (egets pending_claim_response) (\<lambda>pending.
     ebind (exchange_turn H rp dp env (fst dt) (snd dt)) (\<lambda>reveal_ack.
     if pending = Some True then
       ebind (fire SUB_GAME_ENDED ''captured'') (\<lambda>_.
       ebind (result_for CAPTURE ''captured (confirmed to opponent)'') (\<lambda>_.
       eret (Turn_result True (Some CAPTURE) ''captured (confirmed to opponent)'')))
     else resolve_and_advance dp (d_direction (fst dt)) (jget reveal_ack ''opponent_turn'' (JObj []))))))"

text \<open>
  The handler. \<open>exc_text\<close> is \<^verbatim>\<open>str(exc)\<close>; the text of a \<open>KeyError\<close> is the repr of its key. The other
  exceptions are not caught here.
\<close>

fun caught_by_run_turn :: "py_exc \<Rightarrow> bool" where
  "caught_by_run_turn (PeerUnavailableError _) = True"
| "caught_by_run_turn (KeyError _) = True"
| "caught_by_run_turn (ValueError _) = True"
| "caught_by_run_turn (TurnExchangeError _ _ _ _) = True"
| "caught_by_run_turn _ = False"

fun exc_text :: "py_exc \<Rightarrow> string" where
  "exc_text (PeerUnavailableError s) = s"
| "exc_text (KeyError s) = [CHR 0x27] @ s @ [CHR 0x27]"
| "exc_text (ValueError s) = s"
| "exc_text (TurnExchangeError s _ _ _) = s"
| "exc_text _ = []"

fun exc_progress :: "py_exc \<Rightarrow> (bool \<times> bool \<times> bool) option" where
  "exc_progress (TurnExchangeError _ c a r) = Some (c, a, r)"
| "exc_progress _ = None"

definition technical_failure :: "deps \<Rightarrow> py_exc \<Rightarrow> (sub_game_state, turn_result) eff" where
  "technical_failure dp e =
     ebind (fire ERROR_OCCURRED (exc_text e)) (\<lambda>_.
     ebind (exchange_failed (exc_progress e) (dp_config_sha256 dp)) (\<lambda>_.
     ebind (result_for TECHNICAL_LOSS (''technical loss: '' @ exc_text e)) (\<lambda>_.
     eret (Turn_result True (Some TECHNICAL_LOSS) (''technical loss: '' @ exc_text e)))))"

definition run_turn ::
    "digest \<Rightarrow> (json \<Rightarrow> string) \<Rightarrow> deps \<Rightarrow> turn_env \<Rightarrow> (sub_game_state, turn_result) eff" where
  "run_turn H rp dp env s =
     (case run_turn_core H rp dp env s of
        (s', Inr r) \<Rightarrow> (s', Inr r)
      | (s', Inl e) \<Rightarrow>
          if caught_by_run_turn e then technical_failure dp e s' else (s', Inl e))"

end
