(* ===== verification/TurnProps.thy ===== *)
theory TurnProps
  imports Turn
begin

text \<open>
  What one turn guarantees: the invariant of the local state between turns, each phase of the turn
  as a verification condition, and the outcomes of the whole turn over every environment.
\<close>

section \<open>The invariant between turns\<close>

definition knowledge_ok :: "sub_game_state \<Rightarrow> bool" where
  "knowledge_ok s \<longleftrightarrow>
     0 < grid_size s \<and> board_size (ss_board s) = grid_size s \<and>
     is_in_bounds (ss_board s) (ss_position s) \<and> ss_position s \<in> ss_visited s \<and>
     finite (ss_visited s) \<and>
     wf_belief (grid_size s) (ss_belief s) \<and> scent_ok (grid_size s) (own_scent s) \<and>
     (\<forall>sc. ss_police_scent s = Some sc \<longrightarrow> nonneg_grid (nat (grid_size s)) (sf_grid sc)) \<and>
     (\<forall>region p. ss_hint_region s = Some region \<longrightarrow> p \<in> set region \<longrightarrow> is_within p (grid_size s)) \<and>
     trust_ok (ss_hint_trust s)"

text \<open>
  The books: one sealed record per step already played, in order, each matching its commitment,
  and an exchange in which exactly those steps are revealed and no other step was touched.
\<close>

definition exchange_at :: "int \<Rightarrow> exchange \<Rightarrow> bool" where
  "exchange_at n x \<longleftrightarrow>
     (\<forall>k. map_of (ex_phase x) k = (if 0 \<le> k \<and> k < n then Some REVEALED else None)) \<and>
     (\<forall>k. map_of (ex_committed_hash x) k \<noteq> None \<longleftrightarrow> 0 \<le> k \<and> k < n)"

definition record_ok :: "digest \<Rightarrow> int \<Rightarrow> nat \<Rightarrow> sealed_record \<Rightarrow> bool" where
  "record_ok H number i r \<longleftrightarrow>
     recompute_matches H r \<and> p_step (sr_payload r) = int i \<and> p_role (sr_payload r) = ''thief'' \<and>
     p_sub_game_number (sr_payload r) = number \<and>
     p_schema_version (sr_payload r) = CURRENT_SCHEMA_VERSION \<and> \<not> p_win_claim (sr_payload r) \<and>
     p_barrier_placed (sr_payload r) = None \<and> p_capture_claim (sr_payload r) = None"

definition records_ok :: "digest \<Rightarrow> int \<Rightarrow> sealed_record list \<Rightarrow> bool" where
  "records_ok H number rs \<longleftrightarrow> (\<forall>i < length rs. record_ok H number i (rs ! i))"

definition books_ok :: "digest \<Rightarrow> sub_game_state \<Rightarrow> bool" where
  "books_ok H s \<longleftrightarrow>
     ss_step s = int (length (ss_records s)) \<and> exchange_at (ss_step s) (ss_exchange s) \<and>
     records_ok H (sub_game_number s) (ss_records s)"

definition turn_inv :: "digest \<Rightarrow> sub_game_state \<Rightarrow> bool" where
  "turn_inv H s \<longleftrightarrow> m_state (ss_machine s) = WAITING \<and> knowledge_ok s \<and> books_ok H s"

definition playing :: "peer_state set" where
  "playing = {WAITING, THINKING, COMMITTING, WAITING_FOR_ACK, REVEALING, VERIFYING}"

text \<open>
  What the environment of a turn can raise: the brain, the hint provider, the wire transform and the two
  deliveries.
\<close>

definition env_raises :: "deps \<Rightarrow> turn_env \<Rightarrow> py_exc \<Rightarrow> bool" where
  "env_raises dp env e \<longleftrightarrow>
     (\<exists>ctx. te_decide env ctx = Inl e) \<or> (\<exists>it d. te_hint env it d = Inl e) \<or>
     (\<exists>f m. reveal_transform dp = Some f \<and> f m = Inl e) \<or>
     (\<exists>m. te_deliver_commitment env m = Inl e) \<or> (\<exists>m. te_deliver_reveal env m = Inl e)"

definition legal_brain :: "turn_env \<Rightarrow> bool" where
  "legal_brain env \<longleftrightarrow>
     (\<forall>ctx d. te_decide env ctx = Inr d \<longrightarrow> legal_directions ctx \<noteq> [] \<longrightarrow>
        d_direction d \<in> set (legal_directions ctx))"

section \<open>Lifecycle events\<close>

lemma fire_table:
  assumes "map_of TRANSITIONS (m_state (ss_machine s), k) = Some t"
    and "map_of GUARDS (m_state (ss_machine s), k) = None"
    and "k \<noteq> ERROR_OCCURRED" and "k \<noteq> QUIT_REQUESTED"
  shows "\<exists>m'. m_state m' = t \<and> fire k detail s = (s\<lparr>ss_machine := m'\<rparr>, Inr ())"
proof -
  have "fst (resolve (m_state (ss_machine s)) (Event k detail)) = Some t"
    using assms TRANSITIONS_Some [OF assms(1)] by (auto simp: resolve_Some_iff)
  from apply_event_ok [OF this] obtain h where
    "apply_event (Event k detail) (ss_machine s) =
       (\<lparr>m_state = t, m_history = m_history (ss_machine s) @ [h]\<rparr>, Inr t)" ..
  then show ?thesis
    by (intro exI [of _ "\<lparr>m_state = t, m_history = m_history (ss_machine s) @ [h]\<rparr>"]) (simp add: fire_def)
qed

lemma fire_ensures:
  assumes "map_of TRANSITIONS (m_state (ss_machine s), k) = Some t"
    and "map_of GUARDS (m_state (ss_machine s), k) = None"
    and "k \<noteq> ERROR_OCCURRED" and "k \<noteq> QUIT_REQUESTED"
    and "\<And>m'. m_state m' = t \<Longrightarrow> Q () (s\<lparr>ss_machine := m'\<rparr>)"
  shows "ensures (fire k detail) s Q R"
  using fire_table [OF assms(1-4), of detail] assms(5) by (auto simp: ensures_def)

lemma fire_error:
  assumes "m_state (ss_machine s) \<in> playing"
  shows "\<exists>m'. m_state m' = ERROR \<and> fire ERROR_OCCURRED detail s = (s\<lparr>ss_machine := m'\<rparr>, Inr ())"
proof -
  have "fst (resolve (m_state (ss_machine s)) (Event ERROR_OCCURRED detail)) = Some ERROR"
    using assms by (auto simp: resolve_Some_iff playing_def TERMINAL_STATES_def)
  from apply_event_ok [OF this] obtain h where
    "apply_event (Event ERROR_OCCURRED detail) (ss_machine s) =
       (\<lparr>m_state = ERROR, m_history = m_history (ss_machine s) @ [h]\<rparr>, Inr ERROR)" ..
  then show ?thesis
    by (intro exI [of _ "\<lparr>m_state = ERROR, m_history = m_history (ss_machine s) @ [h]\<rparr>"])
      (simp add: fire_def)
qed

lemmas table_simps = TRANSITIONS_def GUARDS_def

section \<open>The phases of a turn\<close>

definition began :: "sub_game_state \<Rightarrow> sub_game_state \<Rightarrow> bool" where
  "began s s' \<longleftrightarrow>
     (\<exists>m' f b t. s' = s\<lparr>ss_machine := m', own_scent := f, ss_belief := b, ss_hint_trust := t\<rparr> \<and>
        m_state m' = THINKING \<and> knowledge_ok s')"

lemma begin_turn_ensures:
  assumes "knowledge_ok s" and "m_state (ss_machine s) = WAITING"
    and "pheromone_decay dp = BINDING_DECAY"
  shows "ensures (begin_turn dp) s (\<lambda>_. began s) (\<lambda>_ _. False)"
proof -
  let ?f = "apply_turn (own_scent s) (ss_position s) BINDING_DECAY"
  have f: "scent_ok (grid_size s) ?f"
    using assms(1) scent_ok_apply_turn by (simp add: knowledge_ok_def)
  obtain b t where u: "update_belief (ss_belief s) (ss_board s) (ss_police_scent s)
      (ss_hint_region s) (ss_hint_trust s) = Inr (b, t)" "wf_belief (grid_size s) b" "trust_ok t"
    using update_belief_wf [of "grid_size s" "ss_belief s" "ss_board s" "ss_hint_trust s"
        "ss_police_scent s" "ss_hint_region s"] assms(1)
    unfolding knowledge_ok_def by blast
  show ?thesis
    unfolding begin_turn_def vcg
  proof (rule fire_ensures [where t = THINKING], goal_cases)
    case (5 m')
    with f u assms show ?case
      by (auto simp: began_def knowledge_ok_def vcg intro!: exI [of _ m'])
  qed (simp_all add: assms(2) table_simps)
qed

definition decided :: "sub_game_state \<Rightarrow> decision \<times> string \<Rightarrow> sub_game_state \<Rightarrow> bool" where
  "decided s dt s' \<longleftrightarrow>
     (\<exists>e. s' = s\<lparr>published := published s @ [TurnDecisionEvent e]\<rparr>) \<and>
     d_direction (fst dt) \<in> set (legal_move_directions (ss_position s) (ss_board s))"

definition decision_error :: "deps \<Rightarrow> turn_env \<Rightarrow> py_exc \<Rightarrow> bool" where
  "decision_error dp env e \<longleftrightarrow>
     (\<exists>ctx. te_decide env ctx = Inl e) \<or> (\<exists>it d. te_hint env it d = Inl e) \<or>
     (e = IllegalActionError \<and> \<not> legal_brain env) \<or>
     (e = ValueError ''timeout_seconds must be >= 0'' \<and> response_timeout dp < 0)"

lemma publish_decision_eq:
  "\<exists>e. publish_decision env d txt q s = (s\<lparr>published := published s @ [TurnDecisionEvent e]\<rparr>, Inr ())"
  by (auto simp: publish_decision_def publish_def emodify_def)

lemma decide_turn_ensures:
  "ensures (decide_turn dp env) s (decided s) (\<lambda>e s'. s' = s \<and> decision_error dp env e)"
proof (cases "response_timeout dp < 0")
  case True
  then show ?thesis
    by (simp add: decide_turn_def vcg decision_context_def new_deadline_def decision_error_def)
next
  case False
  then obtain ctx where ctx: "decision_context dp env s = Inr ctx"
    "legal_directions ctx = legal_move_directions (ss_position s) (ss_board s)"
    by (auto simp: decision_context_def new_deadline_def)
  show ?thesis
  proof (cases "te_decide env ctx")
    case (Inl e)
    with ctx show ?thesis by (auto simp: decide_turn_def vcg decision_error_def)
  next
    case d: (Inr d)
    show ?thesis
    proof (cases "te_hint env (d_intent d) (d_direction d)")
      case (Inl e)
      with ctx d show ?thesis by (auto simp: decide_turn_def vcg decision_error_def)
    next
      case h: (Inr h)
      show ?thesis
      proof (cases "apply_move (ss_position s) (d_direction d) (ss_board s)")
        case (Inl e)
        moreover have "legal_directions ctx \<noteq> []" by (simp add: ctx(2))
        ultimately have "e = IllegalActionError" "\<not> legal_brain env"
          using d ctx(2) unfolding apply_move_Inl_iff legal_brain_def by metis+
        with ctx d h Inl show ?thesis by (auto simp: decide_turn_def vcg decision_error_def)
      next
        case (Inr q)
        obtain e where "publish_decision env d h q s =
            (s\<lparr>published := published s @ [TurnDecisionEvent e]\<rparr>, Inr ())"
          using publish_decision_eq by blast
        then have "ensures (publish_decision env d h q) s (\<lambda>_. decided s (d, h))
            (\<lambda>e s'. s' = s \<and> decision_error dp env e)"
          using Inr by (intro ensuresI_value) (auto simp: decided_def apply_move_Inr_iff)
        with ctx d h Inr show ?thesis by (simp add: decide_turn_def vcg)
      qed
    qed
  qed
qed


lemma ensures_on_exchange:
  assumes "f (ss_exchange s) = (x', Inr ())" and "Q () (s\<lparr>ss_exchange := x'\<rparr>)"
  shows "ensures (on_exchange f) s Q R"
  using assms by (simp add: ensures_def on_exchange_def)

lemma exchange_round:
  assumes "exchange_at n x" and "0 \<le> n" and "recompute_matches H r"
  obtains x1 x2 x3 where "ex_commit n (sr_commit_hash r) x = (x1, Inr ())"
    and "ex_acknowledge n x1 = (x2, Inr ())" and "ex_reveal H n r x2 = (x3, Inr ())"
    and "exchange_at (n + 1) x3"
proof -
  let ?x1 = "x\<lparr>ex_committed_hash := AList.update n (sr_commit_hash r) (ex_committed_hash x),
    ex_phase := AList.update n COMMITTED (ex_phase x)\<rparr>"
  let ?x2 = "?x1\<lparr>ex_phase := AList.update n ACKNOWLEDGED (ex_phase ?x1)\<rparr>"
  let ?x3 = "?x2\<lparr>ex_phase := AList.update n REVEALED (ex_phase ?x2),
    ex_records := AList.update n r (ex_records ?x2)\<rparr>"
  have none: "map_of (ex_committed_hash x) n = None"
    using assms(1) unfolding exchange_at_def by (meson less_irrefl)
  have "ex_commit n (sr_commit_hash r) x = (?x1, Inr ())"
    by (simp add: ex_commit_def none)
  moreover have "ex_acknowledge n ?x1 = (?x2, Inr ())"
    by (simp add: ex_acknowledge_def update_conv')
  moreover have "ex_reveal H n r ?x2 = (?x3, Inr ())"
    using assms(3) by (simp add: ex_reveal_def update_conv' recompute_matches_def)
  moreover have "exchange_at (n + 1) ?x3"
    using assms(1,2) by (auto simp: exchange_at_def update_conv')
  ultimately show ?thesis by (rule that)
qed

definition exchange_error :: "deps \<Rightarrow> turn_env \<Rightarrow> py_exc \<Rightarrow> bool" where
  "exchange_error dp env e \<longleftrightarrow>
     (\<exists>why c a r. e = TurnExchangeError why c a r) \<or>
     (\<exists>f m. reveal_transform dp = Some f \<and> f m = Inl e) \<or>
     (\<exists>m. te_deliver_commitment env m = Inl e) \<or> (\<exists>m. te_deliver_reveal env m = Inl e)"

lemma peer_call_Inl:
  "peer_call pr r = Inl e \<Longrightarrow> (\<exists>why c a v. e = TurnExchangeError why c a v) \<or> r = Inl e"
  by (auto simp: peer_call_def split: sum.splits py_exc.splits prod.splits)

lemma peer_call_value [simp]: "peer_call pr (Inr x) = Inr x"
  by (simp add: peer_call_def)

lemma peer_call_Inr [simp]: "peer_call pr r = Inr x \<longleftrightarrow> r = Inr x"
  by (auto simp: peer_call_def split: sum.splits py_exc.splits prod.splits)

lemma deliver_Inl:
  assumes "deliver_commit_and_reveal rp d1 d2 cm rm = Inl e"
  shows "(\<exists>why c a v. e = TurnExchangeError why c a v) \<or> d1 cm = Inl e \<or> d2 rm = Inl e"
proof (cases "peer_call (False, False, False) (d1 cm)")
  case (Inl e')
  with assms peer_call_Inl [OF Inl] show ?thesis
    by (auto simp: deliver_commit_and_reveal_def)
next
  case (Inr ack)
  show ?thesis
  proof (cases "peer_call (True, True, False) (d2 rm)")
    case Inl2: (Inl e')
    with assms Inr peer_call_Inl [OF Inl2] show ?thesis
      by (auto simp: deliver_commit_and_reveal_def split: if_splits)
  next
    case Inr2: (Inr ack2)
    with assms Inr show ?thesis by (auto simp: deliver_commit_and_reveal_def split: if_splits)
  qed
qed

lemma deliver_Inr:
  "deliver_commit_and_reveal rp d1 d2 cm rm = Inr ack \<Longrightarrow>
     d2 rm = Inr ack \<and> truthy (jget ack ''ok'' JNull)"
  by (auto simp: deliver_commit_and_reveal_def res_simps split: if_splits)

lemma recompute_seal [simp]: "recompute_matches H (seal H p)"
  by (simp add: recompute_matches_def seal_def)

definition exchanged ::
    "digest \<Rightarrow> deps \<Rightarrow> turn_env \<Rightarrow> decision \<times> string \<Rightarrow> sub_game_state \<Rightarrow> jobj \<Rightarrow> sub_game_state \<Rightarrow> bool" where
  "exchanged H dp env dt s ack s' \<longleftrightarrow>
     (\<exists>m' x'. s' = s\<lparr>ss_exchange := x', ss_machine := m',
          ss_records := ss_records s @
            [seal_turn H dp env (d_direction (fst dt)) (d_intent (fst dt)) (snd dt) s]\<rparr> \<and>
        m_state m' = VERIFYING \<and> exchange_at (ss_step s + 1) x') \<and>
     (\<exists>m. te_deliver_reveal env m = Inr ack)"

definition delivery :: "(json \<Rightarrow> string) \<Rightarrow> deps \<Rightarrow> turn_env \<Rightarrow> sealed_record \<Rightarrow> jobj res" where
  "delivery rp dp env r =
     rbind (outgoing_reveal dp r) (\<lambda>rev.
       deliver_commit_and_reveal rp (te_deliver_commitment env) (te_deliver_reveal env)
         (commitment_message r (dp_game_uid dp) (dp_config_sha256 dp)) rev)"

lemma exchange_turn_ensures:
  assumes "books_ok H s" and "m_state (ss_machine s) = THINKING"
  shows "ensures (exchange_turn H rp dp env d txt) s (exchanged H dp env (d, txt) s)
    (\<lambda>e s'. m_state (ss_machine s') \<in> playing \<and> exchange_error dp env e \<and>
       delivery rp dp env (seal_turn H dp env (d_direction d) (d_intent d) txt s) = Inl e)"
proof -
  let ?r = "seal_turn H dp env (d_direction d) (d_intent d) txt s"
  have r: "recompute_matches H ?r" by (simp add: seal_turn_def)
  have pre: "exchange_at (ss_step s) (ss_exchange s)" "0 \<le> ss_step s"
    using assms(1) unfolding books_ok_def by (metis, metis of_nat_0_le_iff)
  obtain x1 x2 x3 where x: "ex_commit (ss_step s) (sr_commit_hash ?r) (ss_exchange s) = (x1, Inr ())"
    "ex_acknowledge (ss_step s) x1 = (x2, Inr ())" "ex_reveal H (ss_step s) ?r x2 = (x3, Inr ())"
    "exchange_at (ss_step s + 1) x3"
    by (rule exchange_round [OF pre r])
  show ?thesis
  proof (cases "delivery rp dp env ?r")
    case (Inl e)
    note Inl' = Inl [unfolded delivery_def]
    then have e: "exchange_error dp env e"
      by (cases "outgoing_reveal dp ?r")
        (auto simp: exchange_error_def outgoing_reveal_def Let_def dest!: deliver_Inl split: option.splits)
    show ?thesis
      unfolding exchange_turn_def vcg
      apply (rule ensures_on_exchange [where x' = x1], rule x(1))
      apply (rule fire_ensures [where t = COMMITTING], (simp add: assms(2) table_simps)+)
      apply (rule fire_ensures [where t = WAITING_FOR_ACK], (simp add: table_simps)+)
      using Inl Inl' e by (cases "outgoing_reveal dp ?r") (auto simp: vcg playing_def)
  next
    case (Inr ack)
    then obtain rev where rev: "outgoing_reveal dp ?r = Inr rev"
      "deliver_commit_and_reveal rp (te_deliver_commitment env) (te_deliver_reveal env)
      (commitment_message ?r (dp_game_uid dp) (dp_config_sha256 dp)) rev = Inr ack"
      by (auto simp: res_simps delivery_def)
    show ?thesis
      unfolding exchange_turn_def vcg
      apply (rule ensures_on_exchange [where x' = x1], rule x(1))
      apply (rule fire_ensures [where t = COMMITTING], (simp add: assms(2) table_simps)+)
      apply (rule fire_ensures [where t = WAITING_FOR_ACK], (simp add: table_simps)+)
      apply (simp add: rev)
      apply (rule ensures_on_exchange [where x' = x2], simp add: x)
      apply (rule fire_ensures [where t = REVEALING], (simp add: table_simps)+)
      apply (rule ensures_on_exchange [where x' = x3], simp add: x)
      apply (rule fire_ensures [where t = VERIFYING], (simp add: table_simps)+)
      using deliver_Inr [OF rev(2)] x(4) by (auto simp: exchanged_def)
  qed
qed


section \<open>Evidence and resolution\<close>

lemma float_of_nonneg: "legal_value v \<Longrightarrow> 0 \<le> float_of v"
  by (cases v rule: float_of.cases)
    (auto simp: legal_value_def is_number_def split: pyfloat.splits)

lemma legal_grid_float:
  assumes "legal_grid n v"
  shows "nonneg_grid (nat n) (float_grid v)"
proof (cases v)
  case (JList rows)
  with assms have rows: "int (length rows) = n" "list_all (legal_row n) rows"
    by (simp_all add: legal_grid_def)
  have "length (float_row w) = nat n \<and> (\<forall>x \<in> set (float_row w). 0 \<le> x)" if "w \<in> set rows" for w
  proof -
    have "legal_row n w" using rows(2) that by (simp add: list_all_iff)
    then obtain vs where "w = JList vs" "int (length vs) = n" "list_all legal_value vs"
      by (auto simp: legal_row_def split: json.splits)
    then show ?thesis by (auto simp: list_all_iff float_of_nonneg)
  qed
  then have "length (float_row (rows ! r)) = nat n \<and> (\<forall>c < nat n. 0 \<le> float_row (rows ! r) ! c)"
    if "r < nat n" for r using that rows(1) by (metis nat_int nth_mem)
  then show ?thesis
    using JList rows(1) by (auto simp: nonneg_grid_def square_def)
qed (use assms in \<open>auto simp: legal_grid_def\<close>)

lemma hinted_region_within:
  assumes "0 < n" and "hinted_region v n = Inr (Some region)" and "p \<in> set region"
  shows "is_within p n"
proof -
  obtain t w where "v = JStr t" "parse_region_from_hint t = Some w" "region = region_cells w n"
    using assms(2) by (auto simp: hinted_region_def split: if_splits json.splits option.splits)
  moreover from this have "w \<in> set REGIONS"
    by (auto simp: parse_region_from_hint_def find_Some_iff)
  ultimately show ?thesis using region_cells_within assms(1,3) by blast
qed

definition evidence_error :: "py_exc \<Rightarrow> bool" where
  "evidence_error e \<longleftrightarrow>
     e \<in> {AttributeError, TypeError, IndexError, OverflowError} \<or> (\<exists>k. e = KeyError k)"

lemma item_at_Inl: "item_at v i = Inl e \<Longrightarrow> evidence_error e"
  by (cases v) (auto simp: evidence_error_def split: if_splits)

lemma declared_cell_of_Inl: "declared_cell_of v = Inl e \<Longrightarrow> evidence_error e"
  by (cases "item_at v 0"; cases "item_at v 1") (auto simp: declared_cell_of_def item_at_Inl)

lemma resolve_capture_Inl: "resolve_capture own c b = Inl e \<Longrightarrow> evidence_error e"
  by (cases "declared_cell_of b"; cases "declared_cell_of c")
    (auto simp: resolve_capture_def Let_def dest: declared_cell_of_Inl split: if_splits)

definition absorbed :: "sub_game_state \<Rightarrow> sub_game_state \<Rightarrow> bool" where
  "absorbed s s' \<longleftrightarrow>
     (\<exists>ps hr b. s' = s\<lparr>ss_police_scent := ps, ss_hint_region := hr, ss_board := b\<rparr> \<and>
        barriers (ss_board s) \<subseteq> barriers b) \<and>
     (knowledge_ok s \<longrightarrow> knowledge_ok s')"

lemma declare_barrier_cases:
  assumes "declare_barrier c b = Inr b'"
  shows "board_size b' = board_size b \<and> barriers b \<subseteq> barriers b'"
  using assms by (auto simp: declare_barrier_def split: if_splits option.splits)

definition scent_taken :: "jobj \<Rightarrow> sub_game_state \<Rightarrow> string option \<Rightarrow> scent_field option" where
  "scent_taken opp s verdict =
     (if verdict = None then Some \<lparr>sf_size = grid_size s, sf_grid = float_grid (jget opp ''scent_grid'' JNull)\<rparr>
      else None)"

lemma absorbedI:
  assumes "validate_scent_grid (jget opp ''scent_grid'' JNull) (grid_size s) = Inr verdict"
    and "hinted_region (jget opp ''hint'' JNull) (grid_size s) = Inr region"
    and "board_size b = board_size (ss_board s)" and "barriers (ss_board s) \<subseteq> barriers b"
  shows "absorbed s (s\<lparr>ss_police_scent := scent_taken opp s verdict, ss_hint_region := region, ss_board := b\<rparr>)"
proof -
  have "nonneg_grid (nat (grid_size s)) (sf_grid sc)" if "scent_taken opp s verdict = Some sc" for sc
    using that assms(1) validate_scent_grid_cases [where g = "jget opp ''scent_grid'' JNull" and n = "grid_size s"]
      legal_grid_float [of "grid_size s"] by (auto simp: scent_taken_def split: if_splits)
  moreover have "is_within p (grid_size s)" if "0 < grid_size s" "region = Some rg" "p \<in> set rg" for rg p
    using that hinted_region_within assms(2) by blast
  ultimately show ?thesis
    using assms(3,4) by (auto simp: absorbed_def knowledge_ok_def is_in_bounds_def scent_taken_def)
qed

lemma absorb_ensures:
  "ensures (absorb_public_evidence opp) s (\<lambda>_. absorbed s)
     (\<lambda>e s'. ss_machine s' = ss_machine s \<and> evidence_error e)"
proof (cases "validate_scent_grid (jget opp ''scent_grid'' JNull) (grid_size s)")
  case (Inl e)
  with validate_scent_grid_cases [where g = "jget opp ''scent_grid'' JNull" and n = "grid_size s"] show ?thesis
    by (simp add: absorb_public_evidence_def vcg evidence_error_def)
next
  case v: (Inr verdict)
  show ?thesis
  proof (cases "hinted_region (jget opp ''hint'' JNull) (grid_size s)")
    case (Inl e)
    then have "e = AttributeError"
      by (auto simp: hinted_region_def split: if_splits json.splits)
    with v Inl show ?thesis by (simp add: absorb_public_evidence_def vcg evidence_error_def)
  next
    case h: (Inr region)
    note ok = absorbedI [OF v h, unfolded scent_taken_def]
    show ?thesis
    proof (cases "is_null (jget opp ''barrier_placed'' JNull) \<or>
        (\<exists>c b. declared_cell_of (jget opp ''barrier_placed'' JNull) = Inr c \<and> declare_barrier c (ss_board s) = Inr b)")
      case True
      have "s\<lparr>ss_police_scent := ps, ss_hint_region := region\<rparr> =
          s\<lparr>ss_police_scent := ps, ss_hint_region := region, ss_board := ss_board s\<rparr>" for ps by simp
      with v h True ok [of "ss_board s"] ok declare_barrier_cases show ?thesis
        by (auto simp: absorb_public_evidence_def vcg)
    next
      case False
      with v h show ?thesis
        by (auto simp: absorb_public_evidence_def vcg evidence_error_def declare_barrier_def split: sum.splits if_splits
            dest: declared_cell_of_Inl)
    qed
  qed
qed


text \<open>The knowledge does not depend on the lifecycle, the step, the books and the events.\<close>

lemma knowledge_ok_frame [simp]:
  "knowledge_ok (s\<lparr>published := es\<rparr>) = knowledge_ok s"
  "knowledge_ok (s\<lparr>pending_claim_response := c\<rparr>) = knowledge_ok s"
  "knowledge_ok (s\<lparr>ss_machine := m\<rparr>) = knowledge_ok s"
  "knowledge_ok (s\<lparr>ss_step := n\<rparr>) = knowledge_ok s"
  "knowledge_ok (s\<lparr>ss_records := rs\<rparr>) = knowledge_ok s"
  "knowledge_ok (s\<lparr>ss_exchange := x\<rparr>) = knowledge_ok s"
  by (simp_all add: knowledge_ok_def)

text \<open>What the resolution leaves alone: the books.\<close>

definition same_books :: "sub_game_state \<Rightarrow> sub_game_state \<Rightarrow> bool" where
  "same_books s s' \<longleftrightarrow>
     ss_records s' = ss_records s \<and> ss_exchange s' = ss_exchange s \<and>
     sub_game_number s' = sub_game_number s \<and> grid_size s' = grid_size s"

lemma absorbed_simps:
  assumes "absorbed s s'"
  shows "same_books s s' \<and> ss_machine s' = ss_machine s \<and> ss_position s' = ss_position s \<and>
    ss_step s' = ss_step s \<and> barriers (ss_board s) \<subseteq> barriers (ss_board s')"
  using assms by (auto simp: absorbed_def same_books_def)

definition continued :: "deps \<Rightarrow> sub_game_state \<Rightarrow> turn_result \<Rightarrow> sub_game_state \<Rightarrow> bool" where
  "continued dp s r s' \<longleftrightarrow>
     \<not> tr_ended r \<and> tr_outcome r = None \<and> m_state (ss_machine s') = WAITING \<and>
     ss_step s' = ss_step s + 1 \<and>
     (pending_claim_response s' = Some True \<or> ss_step s + 1 < survival_threshold dp)"

definition survived :: "deps \<Rightarrow> sub_game_state \<Rightarrow> turn_result \<Rightarrow> sub_game_state \<Rightarrow> bool" where
  "survived dp s r s' \<longleftrightarrow>
     tr_ended r \<and> tr_outcome r = Some SURVIVAL \<and> m_state (ss_machine s') = SUB_GAME_OVER \<and>
     survival_threshold dp \<le> ss_step s + 1"

definition advanced :: "deps \<Rightarrow> sub_game_state \<Rightarrow> turn_result \<Rightarrow> sub_game_state \<Rightarrow> bool" where
  "advanced dp s r s' \<longleftrightarrow>
     same_books s s' \<and> (knowledge_ok s \<longrightarrow> knowledge_ok s') \<and>
     (continued dp s r s' \<or> survived dp s r s')"

lemmas advanced_defs = advanced_def continued_def survived_def same_books_def

lemma ensures_result_for:
  "(\<And>e. Q () (s\<lparr>published := published s @ [e]\<rparr>)) \<Longrightarrow> ensures (result_for r why) s Q R"
  by (simp add: result_for_def publish_def emodify_def ensures_def)

lemma ensures_exchange_ok:
  "(\<And>e. Q () (s\<lparr>published := published s @ [e]\<rparr>)) \<Longrightarrow> ensures (exchange_ok txt sha) s Q R"
  by (simp add: exchange_ok_def gui_exchange_def publish_def emodify_def ensures_def)

lemma advance_move_ensures:
  assumes "m_state (ss_machine s) = VERIFYING"
  shows "ensures (advance_move dp d) s (advanced dp s)
    (\<lambda>e s'. s' = s \<and> e = IllegalActionError \<and>
       d \<notin> set (legal_move_directions (ss_position s) (ss_board s)))"
proof (cases "apply_move (ss_position s) d (ss_board s)")
  case (Inl e)
  moreover from this have "e = IllegalActionError \<and> d \<notin> set (legal_move_directions (ss_position s) (ss_board s))"
    by (simp add: apply_move_Inl_iff)
  ultimately show ?thesis by (simp add: advance_move_def vcg)
next
  case (Inr p)
  have k: "knowledge_ok (s\<lparr>ss_position := p, ss_visited := insert p (ss_visited s)\<rparr>)" if "knowledge_ok s"
    using that Inr by (cases d) (auto simp: knowledge_ok_def apply_move_Inr_iff set_legal_move_directions)
  show ?thesis
  proof (cases "ss_step s + 1 \<ge> survival_threshold dp")
    case True
    show ?thesis
      unfolding advance_move_def vcg
      apply (simp add: Inr True vcg)
      apply (rule fire_ensures [where t = SUB_GAME_OVER], (simp add: assms table_simps)+)
      apply (rule ensures_result_for)
      using True k by (auto simp: advanced_defs knowledge_ok_def)
  next
    case False
    show ?thesis
      unfolding advance_move_def vcg
      apply (simp add: Inr False vcg)
      apply (rule fire_ensures [where t = WAITING], (simp add: assms table_simps)+)
      using False k by (auto simp: advanced_defs knowledge_ok_def)
  qed
qed

text \<open>The end of the resolution, once the evidence is absorbed.\<close>

lemma settle_ensures:
  assumes "absorbed s s1" and "m_state (ss_machine s) = VERIFYING"
  shows "ensures (ebind (exchange_ok txt sha) (\<lambda>_.
      ebind (emodify (\<lambda>s. s\<lparr>pending_claim_response := next_claim_response res\<rparr>)) (\<lambda>_.
      if cr_captured res then
        ebind (fire TURN_VERIFIED []) (\<lambda>_. ebind (emodify (\<lambda>s. s\<lparr>ss_step := ss_step s + 1\<rparr>)) (\<lambda>_.
        eret (Turn_result False None ''captured, confirmation pending'')))
      else advance_move dp d))) s1 (advanced dp s)
    (\<lambda>e s'. m_state (ss_machine s') = VERIFYING \<and> (evidence_error e \<or> e = IllegalActionError))"
  unfolding vcg
proof (rule ensures_exchange_ok, goal_cases)
  case (1 e)
  let ?s = "s1\<lparr>published := published s1 @ [e], pending_claim_response := next_claim_response res\<rparr>"
  note same = absorbed_simps [OF assms(1)]
  have ms: "m_state (ss_machine s1) = VERIFYING" using same assms(2) by simp
  have k: "knowledge_ok s \<longrightarrow> knowledge_ok s1" using assms(1) by (simp add: absorbed_def)
  show ?case
  proof (cases "cr_captured res")
    case True
    show ?thesis
    proof (simp add: True, rule fire_ensures [where t = WAITING], goal_cases)
      case (5 m')
      then show ?case using True k same by (simp add: advanced_defs next_claim_response_def)
    qed (simp_all add: ms table_simps)
  next
    case False
    have adv: "advanced dp s r s'" if "advanced dp ?s r s'" for r s'
      using that k same by (auto simp: advanced_defs)
    have "ensures (advance_move dp d) ?s (advanced dp s)
        (\<lambda>e s'. m_state (ss_machine s') = VERIFYING \<and> (evidence_error e \<or> e = IllegalActionError))"
      by (rule ensures_mono [OF advance_move_ensures]) (use ms adv in auto)
    with False show ?thesis by simp
  qed
qed

lemma resolve_and_advance_ensures:
  assumes "m_state (ss_machine s) = VERIFYING"
  shows "ensures (resolve_and_advance dp d opp) s (advanced dp s)
    (\<lambda>e s'. m_state (ss_machine s') = VERIFYING \<and> (evidence_error e \<or> e = IllegalActionError))"
proof (cases "obj_or_raise opp")
  case (Inl e)
  then have "e = AttributeError" by (cases opp) auto
  with Inl assms show ?thesis by (simp add: resolve_and_advance_def vcg evidence_error_def)
next
  case opp: (Inr o1)
  let ?res = "resolve_capture (ss_position s) (jget o1 ''capture_claim'' JNull) (jget o1 ''barrier_placed'' JNull)"
  show ?thesis
  proof (cases ?res)
    case (Inl e)
    with opp assms resolve_capture_Inl [OF Inl] show ?thesis by (simp add: resolve_and_advance_def vcg)
  next
    case res: (Inr res)
    show ?thesis
      unfolding resolve_and_advance_def opp ensures_bind [of "elift (Inr o1)"] ensures_bind [of "eread _"]
        ensures_read ensures_lift sum.case res
      by (rule ensures_bindI [OF absorb_ensures settle_ensures]) (use assms in simp_all)
  qed
qed


section \<open>The whole turn\<close>

text \<open>
  The turn was played: one more record, sealed for this step with the nonce of this turn, the
  position before the move and the answer that was pending.
\<close>

definition played :: "digest \<Rightarrow> turn_env \<Rightarrow> sub_game_state \<Rightarrow> sub_game_state \<Rightarrow> bool" where
  "played H env s s' \<longleftrightarrow>
     (\<exists>r. ss_records s' = ss_records s @ [r] \<and>
        record_ok H (sub_game_number s) (length (ss_records s)) r \<and>
        p_nonce (sr_payload r) = te_nonce env \<and>
        p_claim_response (sr_payload r) = pending_claim_response s \<and>
        p_position (sr_payload r) = (row (ss_position s), col (ss_position s))) \<and>
     exchange_at (ss_step s + 1) (ss_exchange s') \<and> sub_game_number s' = sub_game_number s \<and>
     grid_size s' = grid_size s"

definition capture_confirmed :: "sub_game_state \<Rightarrow> turn_result \<Rightarrow> sub_game_state \<Rightarrow> bool" where
  "capture_confirmed s r s' \<longleftrightarrow>
     tr_ended r \<and> tr_outcome r = Some CAPTURE \<and> pending_claim_response s = Some True \<and>
     m_state (ss_machine s') = SUB_GAME_OVER"

definition turn_ok :: "digest \<Rightarrow> deps \<Rightarrow> turn_env \<Rightarrow> sub_game_state \<Rightarrow> turn_result \<Rightarrow> sub_game_state \<Rightarrow> bool" where
  "turn_ok H dp env s r s' \<longleftrightarrow>
     played H env s s' \<and>
     (capture_confirmed s r s' \<or>
      pending_claim_response s \<noteq> Some True \<and>
        (continued dp s r s' \<and> turn_inv H s' \<or> survived dp s r s'))"

definition turn_error :: "deps \<Rightarrow> turn_env \<Rightarrow> py_exc \<Rightarrow> bool" where
  "turn_error dp env e \<longleftrightarrow>
     decision_error dp env e \<or> exchange_error dp env e \<or> evidence_error e \<or> e = IllegalActionError"

lemma records_ok_snoc:
  "records_ok H n rs \<Longrightarrow> record_ok H n (length rs) r \<Longrightarrow> records_ok H n (rs @ [r])"
  by (simp add: records_ok_def nth_append less_Suc_eq)

lemma sealed_record_ok:
  "ss_step s = int i \<Longrightarrow> record_ok H (sub_game_number s) i (seal_turn H dp env d it txt s)"
  by (simp add: record_ok_def seal_turn_def)
    (simp add: seal_def turn_payload_def CURRENT_SCHEMA_VERSION_def)

lemma played_books:
  assumes "played H env s s'" and "books_ok H s" and "ss_step s' = ss_step s + 1"
  shows "books_ok H s'"
  using assms by (auto simp: played_def books_ok_def intro: records_ok_snoc)

lemma exchanged_played:
  assumes "exchanged H dp env dt s ack s'" and "books_ok H s"
  shows "played H env s s'"
proof -
  let ?r = "seal_turn H dp env (d_direction (fst dt)) (d_intent (fst dt)) (snd dt) s"
  have "ss_step s = int (length (ss_records s))" using assms(2) by (simp add: books_ok_def)
  then have "record_ok H (sub_game_number s) (length (ss_records s)) ?r"
    by (rule sealed_record_ok)
  moreover have "p_nonce (sr_payload ?r) = te_nonce env"
    "p_claim_response (sr_payload ?r) = pending_claim_response s"
    "p_position (sr_payload ?r) = (row (ss_position s), col (ss_position s))"
    by (simp_all add: seal_turn_def seal_def turn_payload_def)
  ultimately show ?thesis
    using assms(1) by (auto simp: exchanged_def played_def)
qed

lemma advanced_after_exchange:
  assumes "exchanged H dp env dt s2 ack s3" and "advanced dp s3 r s4" and "played H env s2 s3"
  shows "played H env s2 s4 \<and> (continued dp s2 r s4 \<or> survived dp s2 r s4) \<and>
    (knowledge_ok s2 \<longrightarrow> knowledge_ok s4)"
proof -
  have "ss_step s3 = ss_step s2" "knowledge_ok s2 \<longrightarrow> knowledge_ok s3"
    using assms(1) by (auto simp: exchanged_def)
  with assms(2,3) show ?thesis
    by (auto simp: advanced_def same_books_def played_def continued_def survived_def)
qed

text \<open>The second half of a turn: the exchange and what follows it.\<close>

lemma exchanged_turn_ensures:
  assumes "books_ok H s" and "knowledge_ok s" and "m_state (ss_machine s) = THINKING"
  shows "ensures (ebind (exchange_turn H rp dp env (fst dt) (snd dt)) (\<lambda>reveal_ack.
      if pending_claim_response s = Some True then
        ebind (fire SUB_GAME_ENDED ''captured'') (\<lambda>_.
        ebind (result_for CAPTURE ''captured (confirmed to opponent)'') (\<lambda>_.
        eret (Turn_result True (Some CAPTURE) ''captured (confirmed to opponent)'')))
      else resolve_and_advance dp (d_direction (fst dt)) (jget reveal_ack ''opponent_turn'' (JObj [])))) s
    (turn_ok H dp env s) (\<lambda>e s'. m_state (ss_machine s') \<in> playing \<and> turn_error dp env e)"
proof (rule ensures_bindI [OF exchange_turn_ensures [OF assms(1,3)]], goal_cases)
  case (1 ack s3)
  then have ex: "exchanged H dp env dt s ack s3" by simp
  then have v: "m_state (ss_machine s3) = VERIFYING" by (auto simp: exchanged_def)
  have pl: "played H env s s3" by (rule exchanged_played [OF ex assms(1)])
  show ?case
  proof (cases "pending_claim_response s = Some True")
    case True
    show ?thesis
      unfolding vcg
      apply (simp add: True)
      apply (rule fire_ensures [where t = SUB_GAME_OVER], (simp add: v table_simps)+)
      apply (rule ensures_result_for)
      using pl True by (auto simp: turn_ok_def played_def capture_confirmed_def)
  next
    case False
    have "turn_ok H dp env s r s4" if "advanced dp s3 r s4" for r s4
    proof -
      from advanced_after_exchange [OF ex that pl] assms(2)
      have "played H env s s4" "continued dp s r s4 \<or> survived dp s r s4" "knowledge_ok s4" by blast+
      with False played_books [of H env s s4] assms(1) show ?thesis
        by (auto simp: turn_ok_def turn_inv_def continued_def)
    qed
    with False show ?thesis
      by (simp, intro ensures_mono [OF resolve_and_advance_ensures [OF v]]) (auto simp: playing_def turn_error_def)
  qed
qed (simp add: turn_error_def)

lemma run_turn_core_ensures:
  assumes "turn_inv H s" and "pheromone_decay dp = BINDING_DECAY"
  shows "ensures (run_turn_core H rp dp env) s (turn_ok H dp env s)
    (\<lambda>e s'. m_state (ss_machine s') \<in> playing \<and> turn_error dp env e)"
  unfolding run_turn_core_def
proof (rule ensures_bindI [OF begin_turn_ensures], goal_cases)
  case (4 u s1)
  then have s1: "knowledge_ok s1" "books_ok H s1" "m_state (ss_machine s1) = THINKING"
    "pending_claim_response s1 = pending_claim_response s"
    and same1: "ss_step s1 = ss_step s" "played H env s1 = played H env s"
    using assms(1) by (auto simp: began_def turn_inv_def books_ok_def played_def fun_eq_iff)
  show ?case
  proof (rule ensures_bindI [OF decide_turn_ensures], goal_cases)
    case (1 dt s2)
    then obtain ev where s2: "s2 = s1\<lparr>published := published s1 @ [TurnDecisionEvent ev]\<rparr>"
      by (auto simp: decided_def)
    have b2: "books_ok H s2" "knowledge_ok s2" "m_state (ss_machine s2) = THINKING"
      and same2: "turn_ok H dp env s2 = turn_ok H dp env s"
      using s1 same1
      by (auto simp: s2 books_ok_def played_def fun_eq_iff turn_ok_def capture_confirmed_def continued_def survived_def)
    show ?case
      unfolding ensures_bind [of "egets _"] ensures_gets
      using exchanged_turn_ensures [OF b2, of rp dp env dt, unfolded same2] by simp
  next
    case (2 e s2)
    with s1(3) show ?case by (auto simp: playing_def turn_error_def)
  qed
qed (use assms in \<open>auto simp: turn_inv_def\<close>)

lemma technical_failure_ensures:
  assumes "m_state (ss_machine s) \<in> playing"
  shows "\<exists>s' ev. technical_failure dp e s =
      (s', Inr (Turn_result True (Some TECHNICAL_LOSS) (''technical loss: '' @ exc_text e))) \<and>
    m_state (ss_machine s') = ERROR \<and> ss_records s' = ss_records s"
proof -
  obtain m' where "m_state m' = ERROR"
    "fire ERROR_OCCURRED (exc_text e) s = (s\<lparr>ss_machine := m'\<rparr>, Inr ())"
    using fire_error [OF assms] by blast
  then show ?thesis
    by (auto simp: technical_failure_def ebind_def exchange_failed_def gui_exchange_def publish_def
        emodify_def result_for_def eret_def split: option.splits)
qed

definition technical_loss_turn :: "turn_result \<Rightarrow> sub_game_state \<Rightarrow> bool" where
  "technical_loss_turn r s' \<longleftrightarrow>
     tr_ended r \<and> tr_outcome r = Some TECHNICAL_LOSS \<and> m_state (ss_machine s') = ERROR \<and>
     (\<exists>why. tr_reason r = ''technical loss: '' @ why)"

lemma run_turn_cases:
  assumes "turn_inv H s" and "pheromone_decay dp = BINDING_DECAY"
  shows "case run_turn H rp dp env s of
       (s', Inr r) \<Rightarrow> turn_ok H dp env s r s' \<or> technical_loss_turn r s'
     | (s', Inl e) \<Rightarrow> turn_error dp env e \<and> \<not> caught_by_run_turn e \<and> m_state (ss_machine s') \<in> playing"
proof -
  obtain s1 x where core: "run_turn_core H rp dp env s = (s1, x)" by fastforce
  note e = run_turn_core_ensures [OF assms, of rp env]
  show ?thesis
  proof (cases x)
    case (Inl err)
    have raised: "m_state (ss_machine s1) \<in> playing" "turn_error dp env err"
      using ensures_raiseD [OF e core [unfolded Inl]] by auto
    from technical_failure_ensures [OF raised(1), of dp err] show ?thesis
      using raised core Inl by (auto simp: run_turn_def technical_loss_turn_def)
  next
    case (Inr r)
    from ensures_valueD [OF e core [unfolded Inr]] show ?thesis
      using core Inr by (simp add: run_turn_def)
  qed
qed

end
