(* ===== verification/TurnClaims.thy ===== *)
theory TurnClaims
  imports TurnProps
begin

text \<open>
  The properties of one turn: its outcomes over every environment, the honesty of the capture
  answer, the acceptance of its messages by the peer's checks, and the crash of a turn whose chosen
  destination the peer walls off.
\<close>

section \<open>The initial state\<close>

lemma uniform_prior_wf:
  assumes "0 < n"
  obtains b where "uniform_prior n {} = Inr b" and "wf_belief n b"
proof -
  have "nonneg_grid (nat n) (tab (nat n) (\<lambda>r c. if Pos (int r) (int c) \<in> {} then 0 else 1))"
    by (auto simp: nonneg_grid_def)
  with assms that show ?thesis
    unfolding uniform_prior_def using normalize_grid_wf [of n] by metis
qed

lemma initial_ok:
  assumes "is_within start n"
  obtains s where "initial n number start m = Inr s" and "knowledge_ok s" and "books_ok H s"
    and "ss_machine s = m" and "sub_game_number s = number" and "pending_claim_response s = None"
    and "ss_step s = 0" and "ss_records s = []" and "grid_size s = n" and "ss_position s = start"
    and "barriers (ss_board s) = {}" and "board_size (ss_board s) = n"
proof -
  have n: "0 < n" using assms by (auto simp: is_within_def)
  then obtain b where b: "uniform_prior n {} = Inr b" "wf_belief n b" by (rule uniform_prior_wf)
  let ?s = "\<lparr>grid_size = n, sub_game_number = number, ss_position = start,
    ss_board = \<lparr>board_size = n, barriers = {}\<rparr>, ss_belief = b,
    own_scent = empty_scent_field n, ss_machine = m, ss_exchange = new_exchange,
    ss_visited = {start}, ss_records = [], ss_step = 0, ss_police_scent = None,
    ss_hint_region = None, ss_hint_trust = 1 / 2, pending_claim_response = None, published = []\<rparr>"
  have "initial n number start m = Inr ?s" by (simp add: initial_def b)
  moreover have "knowledge_ok ?s"
    using assms n b scent_ok_empty [of n]
    by (simp add: knowledge_ok_def is_in_bounds_def trust_ok_def)
  moreover have "books_ok H ?s"
    by (auto simp: books_ok_def records_ok_def exchange_at_def new_exchange_def)
  ultimately show ?thesis by (rule that) simp_all
qed

lemma initial_turn_inv:
  assumes "is_within start n" and "m_state m = WAITING"
  obtains s where "initial n number start m = Inr s" and "turn_inv H s"
    and "pending_claim_response s = None" and "ss_position s = start" and "barriers (ss_board s) = {}"
    and "board_size (ss_board s) = n"
  using initial_ok [OF assms(1), of number m H] assms(2) unfolding turn_inv_def by metis

section \<open>A peer that follows the protocol\<close>

definition sample_deps :: deps where
  "sample_deps =
     \<lparr>dp_grid_size = 7, dp_thief_start = Pos 6 6, response_timeout = 30, survival_threshold = 35,
      pheromone_decay = BINDING_DECAY,
      dp_scoring = \<lparr>capture_cop = 20, capture_thief = 5, survival_cop = 5, survival_thief = 10,
        tie_score = 2, technical_loss = 0\<rparr>,
      dp_game_uid = ''uid'', dp_config_sha256 = ''abcdef0123'', reveal_transform = None\<rparr>"

definition steady_env :: "direction \<Rightarrow> string \<Rightarrow> jobj \<Rightarrow> turn_env" where
  "steady_env d nonce opponent_turn =
     \<lparr>te_clock = 0, te_decide = (\<lambda>_. Inr (Decision d TRUTH)), te_hint = (\<lambda>_ _. Inr ''east''),
      te_strategy_class = ''brain'', te_latency = 0, te_round8 = id, te_timestamp = ''t'',
      te_nonce = nonce, te_deliver_commitment = (\<lambda>_. Inr [(''ok'', JBool True)]),
      te_deliver_reveal = (\<lambda>_. Inr [(''ok'', JBool True), (''opponent_turn'', JObj opponent_turn)])\<rparr>"

abbreviation sample_H :: digest where
  "sample_H \<equiv> canonical_json (\<lambda>_. [])"

section \<open>The peer's checks on the messages\<close>

fun peer_accepts :: "(json \<Rightarrow> string) \<Rightarrow> tracker \<Rightarrow> jobj list \<Rightarrow> bool" where
  "peer_accepts rp cs [] = True"
| "peer_accepts rp cs (m # ms) =
     (structural_reason rp (JObj m) = Inr None \<and>
      (case (jget m ''envelope'' JNull, jget m ''message_type'' JNull) of
         (JObj env, JStr t) \<Rightarrow>
           (case check_and_advance rp (jget env ''sub_game_number'' JNull) (jget env ''step'' JNull) t cs of
              (cs', Inr None) \<Rightarrow> peer_accepts rp cs' ms
            | _ \<Rightarrow> False)
       | _ \<Rightarrow> False))"

definition wire_messages :: "string \<Rightarrow> string \<Rightarrow> sealed_record list \<Rightarrow> jobj list" where
  "wire_messages game_uid sha rs =
     concat (map (\<lambda>r. [commitment_message r game_uid sha, reveal_message r game_uid sha]) rs)"

definition sequence_id_of :: "jobj \<Rightarrow> json" where
  "sequence_id_of m =
     (case jget m ''envelope'' JNull of JObj env \<Rightarrow> jget env ''sequence_id'' JNull | _ \<Rightarrow> JNull)"

lemma check_commitment:
  "cursor_of cs (JInt n) = \<lparr>cur_step = i, cur_phase = -1\<rparr> \<Longrightarrow>
   \<exists>cs'. check_and_advance rp (JInt n) (JInt i) ''commitment'' cs = (cs', Inr None) \<and>
     cursor_of cs' (JInt n) = \<lparr>cur_step = i, cur_phase = 0\<rparr>"
  by (simp add: check_and_advance_def check_core_def AUX_TYPES_def CORE_PHASE_INDEX_def Let_def
      cursor_of_set)

lemma check_reveal:
  "cursor_of cs (JInt n) = \<lparr>cur_step = i, cur_phase = 0\<rparr> \<Longrightarrow>
   \<exists>cs'. check_and_advance rp (JInt n) (JInt i) ''reveal'' cs = (cs', Inr None) \<and>
     cursor_of cs' (JInt n) = \<lparr>cur_step = i + 1, cur_phase = -1\<rparr>"
  by (simp add: check_and_advance_def check_core_def AUX_TYPES_def CORE_PHASE_INDEX_def Let_def
      cursor_of_set)

lemma message_structure:
  "structural_reason rp (JObj (commitment_message r uid sha)) = Inr None"
  "structural_reason rp (JObj (reveal_message r uid sha)) = Inr None"
  by (simp_all add: commitment_message_def reveal_message_def envelope_def structural_reason_def
      Let_def ENVELOPE_FIELDS_def first_missing_def message_type_of_def MESSAGE_TYPES_def
      REQUIRED_FIELDS_def)

lemma envelope_fields:
  "jget (envelope uid n k q c t) ''sub_game_number'' JNull = JInt n"
  "jget (envelope uid n k q c t) ''step'' JNull = JInt k"
  "jget (envelope uid n k q c t) ''sequence_id'' JNull = JInt q"
  by (simp_all add: envelope_def)

lemma message_fields:
  "jget (commitment_message r uid sha) ''message_type'' JNull = JStr ''commitment''"
  "jget (reveal_message r uid sha) ''message_type'' JNull = JStr ''reveal''"
  "jget (commitment_message r uid sha) ''envelope'' JNull =
     JObj (envelope uid (p_sub_game_number (sr_payload r)) (p_step (sr_payload r)) (2 * p_step (sr_payload r))
       (''commit-'' @ str_of_int (p_sub_game_number (sr_payload r)) @ ''-'' @ str_of_int (p_step (sr_payload r)))
       (p_timestamp (sr_payload r)))"
  "jget (reveal_message r uid sha) ''envelope'' JNull =
     JObj (envelope uid (p_sub_game_number (sr_payload r)) (p_step (sr_payload r)) (2 * p_step (sr_payload r) + 1)
       (''reveal-'' @ str_of_int (p_sub_game_number (sr_payload r)) @ ''-'' @ str_of_int (p_step (sr_payload r)))
       (p_timestamp (sr_payload r)))"
  by (simp_all add: commitment_message_def reveal_message_def Let_def)

lemma peer_accepts_records:
  assumes "\<forall>i < length rs. p_step (sr_payload (rs ! i)) = int (k + i) \<and>
      p_sub_game_number (sr_payload (rs ! i)) = number"
    and "cursor_of cs (JInt number) = \<lparr>cur_step = int k, cur_phase = -1\<rparr>"
  shows "peer_accepts rp cs (wire_messages uid sha rs)"
  using assms
proof (induction rs arbitrary: cs k)
  case Nil
  then show ?case by (simp add: wire_messages_def)
next
  case (Cons r rs)
  have r: "p_step (sr_payload r) = int k" "p_sub_game_number (sr_payload r) = number"
    using Cons.prems(1) by fastforce+
  obtain cs1 where c1: "check_and_advance rp (JInt number) (JInt (int k)) ''commitment'' cs = (cs1, Inr None)"
    "cursor_of cs1 (JInt number) = \<lparr>cur_step = int k, cur_phase = 0\<rparr>"
    using check_commitment [OF Cons.prems(2)] by blast
  obtain cs2 where c2: "check_and_advance rp (JInt number) (JInt (int k)) ''reveal'' cs1 = (cs2, Inr None)"
    "cursor_of cs2 (JInt number) = \<lparr>cur_step = int k + 1, cur_phase = -1\<rparr>"
    using check_reveal [OF c1(2)] by blast
  have "peer_accepts rp cs2 (wire_messages uid sha rs)"
  proof (rule Cons.IH [of "Suc k"])
    show "\<forall>i < length rs. p_step (sr_payload (rs ! i)) = int (Suc k + i) \<and>
        p_sub_game_number (sr_payload (rs ! i)) = number"
      using Cons.prems(1) by (auto dest: spec [of _ "Suc _"])
    show "cursor_of cs2 (JInt number) = \<lparr>cur_step = int (Suc k), cur_phase = -1\<rparr>"
      using c2(2) by (simp add: add.commute)
  qed
  then show ?case
    using r c1 c2 by (simp add: wire_messages_def message_structure message_fields envelope_fields)
qed

lemma sequence_ids_from:
  assumes "\<forall>i < length rs. p_step (sr_payload (rs ! i)) = int (k + i)"
  shows "map sequence_id_of (wire_messages uid sha rs) =
    map (\<lambda>j. JInt (int j)) [2 * k ..< 2 * k + 2 * length rs]"
  using assms
proof (induction rs arbitrary: k)
  case Nil
  then show ?case by (simp add: wire_messages_def)
next
  case (Cons r rs)
  have "p_step (sr_payload r) = int k" using Cons.prems by fastforce
  moreover have "\<forall>i < length rs. p_step (sr_payload (rs ! i)) = int (Suc k + i)"
    using Cons.prems by (auto dest: spec [of _ "Suc _"])
  note Cons.IH [OF this]
  moreover have "[a ..< a + 2 + m] = a # Suc a # [a + 2 ..< a + 2 + m]" for a m :: nat
    by (simp add: upt_conv_Cons)
  from this [of "2 * k" "2 * length rs"]
  have "[2 * k ..< 2 * k + 2 * length (r # rs)] =
      2 * k # (2 * k + 1) # [2 * Suc k ..< 2 * Suc k + 2 * length rs]"
    by simp
  ultimately show ?case
    by (simp add: wire_messages_def sequence_id_of_def message_fields envelope_fields)
qed


section \<open>A wall on the chosen destination\<close>

lemma decide_turn_steady:
  assumes "te_decide env = (\<lambda>_. Inr (Decision d TRUTH))" and "te_hint env = (\<lambda>_ _. Inr txt)"
    and "0 \<le> response_timeout dp" and "d \<in> set (legal_move_directions (ss_position s) (ss_board s))"
  shows "\<exists>e. decide_turn dp env s =
    (s\<lparr>published := published s @ [TurnDecisionEvent e]\<rparr>, Inr (Decision d TRUTH, txt))"
proof -
  have ctx: "\<exists>ctx. decision_context dp env s = Inr ctx"
    using assms(3) by (simp add: decision_context_def new_deadline_def)
  have "apply_move (ss_position s) d (ss_board s) = Inr (apply_direction (ss_position s) d)"
    using assms(4) by (simp add: apply_move_Inr_iff)
  moreover obtain e where "publish_decision env (Decision d TRUTH) txt (apply_direction (ss_position s) d) s =
      (s\<lparr>published := published s @ [TurnDecisionEvent e]\<rparr>, Inr ())"
    using publish_decision_eq by blast
  ultimately show ?thesis
    using ctx assms(1,2) by (auto simp: decide_turn_def eff_defs eread_def)
qed

definition wall :: "position \<Rightarrow> jobj" where
  "wall p = [(''barrier_placed'', JList [JInt (row p), JInt (col p)])]"

lemma absorb_wall:
  "absorb_public_evidence (wall p) s =
     (s\<lparr>ss_police_scent := None, ss_hint_region := None, ss_board := with_barrier (ss_board s) p\<rparr>, Inr ())"
  by (simp add: absorb_public_evidence_def wall_def eff_defs eread_def hinted_region_def
      declared_cell_of_def declare_barrier_def board_cell_def)

lemma resolve_wall:
  assumes "q \<noteq> p"
  shows "resolve_capture p JNull (JList [JInt (row q), JInt (col q)]) =
    Inr \<lparr>cr_captured = False, cr_response = None, cr_reason = ''no capture evidence this turn''\<rparr>"
  using assms position_eqI [of q p] by (auto simp: resolve_capture_def declared_cell_of_def is_cell_def)

lemma resolve_and_advance_wall:
  assumes "d \<noteq> STAY"
  shows "\<exists>s'. resolve_and_advance dp d (JObj (wall (apply_direction (ss_position s) d))) s =
      (s', Inl IllegalActionError) \<and> ss_machine s' = ss_machine s"
proof -
  let ?q = "apply_direction (ss_position s) d"
  have q: "?q \<noteq> ss_position s" 
  proof -
    have "row ?q \<noteq> row (ss_position s) \<or> col ?q \<noteq> col (ss_position s)" using assms by (cases d) auto
    then show ?thesis by auto
  qed
  have illegal: "apply_move (ss_position s) d (with_barrier (ss_board s) ?q) = Inl IllegalActionError"
    using assms by (simp add: apply_move_def set_legal_move_directions)
  have j: "jget (wall ?q) ''capture_claim'' JNull = JNull"
    "jget (wall ?q) ''barrier_placed'' JNull = JList [JInt (row ?q), JInt (col ?q)]"
    by (simp_all add: wall_def)
  show ?thesis
    using illegal resolve_wall [OF q]
    by (simp add: resolve_and_advance_def ebind_def elift_def eread_def absorb_wall j exchange_ok_def
        gui_exchange_def publish_def emodify_def advance_move_def)
qed

lemma books_ok_published: "books_ok H (s\<lparr>published := es\<rparr>) = books_ok H s"
  by (simp add: books_ok_def)

section \<open>Properties\<close>



text \<open>
  The capture answer is honest and complete: the next reveal confirms exactly when the peer declared a
  barrier or claimed a capture on the thief's own cell, denies exactly when it claimed another cell, and
  says nothing when it claimed nothing; ill-typed declarations raise.
\<close>

lemma capture_answer_honest:
  "case resolve_capture own claimed barrier of
     Inl e \<Rightarrow> evidence_error e
   | Inr res \<Rightarrow> next_claim_response res =
       (if (\<exists>c. declared_cell_of barrier = Inr c \<and> is_cell c own) \<or>
           (\<exists>c. declared_cell_of claimed = Inr c \<and> is_cell c own) then Some True
        else if is_null claimed then None else Some False)"
proof (cases "resolve_capture own claimed barrier")
  case (Inl e)
  then show ?thesis by (simp add: resolve_capture_Inl)
next
  case (Inr res)
  have null: "declared_cell_of v = Inl TypeError" if "is_null v" for v
    using that by (cases v) (simp_all add: declared_cell_of_def)
  show ?thesis
    using Inr null
    by (auto simp: resolve_capture_def res_simps next_claim_response_def Let_def split: if_splits)
qed

text \<open>
  C18. What this peer sends is accepted by the peer's own checks: for any sub-game's list of sealed records, every message is structurally
  valid, the ordering tracker accepts all of them in the order in which they are sent,
  and their sequence numbers are 0, 1, 2, ... without a gap.
\<close>

theorem wire_messages_in_order:
  assumes "records_ok H number rs"
  shows "peer_accepts rp [] (wire_messages uid sha rs) \<and>
         map sequence_id_of (wire_messages uid sha rs) = map (\<lambda>j. JInt (int j)) [0 ..< 2 * length rs]"
proof
  show "peer_accepts rp [] (wire_messages uid sha rs)"
    using assms by (intro peer_accepts_records [where k = 0 and number = number])
      (auto simp: records_ok_def record_ok_def cursor_of_def fresh_cursor_def)
  show "map sequence_id_of (wire_messages uid sha rs) = map (\<lambda>j. JInt (int j)) [0 ..< 2 * length rs]"
    using assms sequence_ids_from [of rs 0] by (simp add: records_ok_def record_ok_def)
qed

theorem wire_messages_in_order_witness:
  "\<exists>s. initial 7 1 (Pos 6 6) (new_machine WAITING) = Inr s \<and>
     peer_accepts (\<lambda>_. []) [] (wire_messages ''uid'' ''sha''
       [seal_turn sample_H sample_deps (steady_env N ''n0'' []) N TRUTH ''east'' s])"
proof -
  have "is_within (Pos 6 6) 7" by (simp add: is_within_def)
  then obtain s where s: "initial 7 1 (Pos 6 6) (new_machine WAITING) = Inr s" "ss_step s = 0"
    by (rule initial_ok)
  have "record_ok sample_H (sub_game_number s) 0
      (seal_turn sample_H sample_deps (steady_env N ''n0'' []) N TRUTH ''east'' s)"
    using s(2) by (intro sealed_record_ok) simp
  then have "records_ok sample_H (sub_game_number s)
      [seal_turn sample_H sample_deps (steady_env N ''n0'' []) N TRUTH ''east'' s]"
    by (simp add: records_ok_def)
  from wire_messages_in_order [OF this] s(1) show ?thesis by blast
qed

text \<open>
  C33. A peer can crash the turn within the rules: when, in the same turn, it declares a barrier on the cell
  the thief has just committed to move to, the second \<open>apply_move\<close> raises
  \<open>IllegalActionError\<close>, which \<open>run_turn\<close> does not catch; the lifecycle stays in VERIFYING instead of
  ERROR, and no technical loss is recorded.
\<close>

theorem barrier_on_destination_crashes:
  assumes "turn_inv H s" and "pheromone_decay dp = BINDING_DECAY" and "0 \<le> response_timeout dp"
    and "reveal_transform dp = None" and "pending_claim_response s \<noteq> Some True"
    and "d \<in> set (legal_move_directions (ss_position s) (ss_board s))" and "d \<noteq> STAY"
  shows "\<exists>s'. run_turn H rp dp (steady_env d nonce (wall (apply_direction (ss_position s) d))) s =
      (s', Inl IllegalActionError) \<and> m_state (ss_machine s') = VERIFYING"
proof -
  let ?env = "steady_env d nonce (wall (apply_direction (ss_position s) d))"
  obtain s1 where b: "begin_turn dp s = (s1, Inr ())" "began s s1"
    using begin_turn_ensures [of s dp] assms(1,2)
    by (auto simp: turn_inv_def ensures_def split: prod.splits sum.splits)
  then have s1: "books_ok H s1" "m_state (ss_machine s1) = THINKING" "ss_position s1 = ss_position s"
    "ss_board s1 = ss_board s" "pending_claim_response s1 = pending_claim_response s"
    using assms(1) by (auto simp: began_def turn_inv_def books_ok_def)
  obtain e where dt: "decide_turn dp ?env s1 =
      (s1\<lparr>published := published s1 @ [TurnDecisionEvent e]\<rparr>, Inr (Decision d TRUTH, ''east''))"
    using decide_turn_steady [of ?env d "''east''" dp s1] assms(3,6) s1(3,4)
    by (auto simp: steady_env_def)
  define s2 where "s2 = s1\<lparr>published := published s1 @ [TurnDecisionEvent e]\<rparr>"
  have s2: "books_ok H s2" "m_state (ss_machine s2) = THINKING" "ss_position s2 = ss_position s"
    "pending_claim_response s2 = pending_claim_response s"
    using s1 by (simp_all add: s2_def books_ok_published)
  let ?ack = "[(''ok'', JBool True), (''opponent_turn'', JObj (wall (apply_direction (ss_position s) d)))]"
  have "delivery rp dp ?env r = Inr ?ack" for r
    by (simp add: delivery_def outgoing_reveal_def assms(4) deliver_commit_and_reveal_def steady_env_def Let_def)
  then obtain ack s3 where x: "exchange_turn H rp dp ?env (Decision d TRUTH) ''east'' s2 = (s3, Inr ack)"
    "exchanged H dp ?env (Decision d TRUTH, ''east'') s2 ack s3"
    using exchange_turn_ensures [OF s2(1,2), of rp dp ?env "Decision d TRUTH" "''east''"]
    by (auto simp: ensures_def split: prod.splits sum.splits)
  then have "ack = ?ack" "m_state (ss_machine s3) = VERIFYING" "ss_position s3 = ss_position s"
    using s2(3) by (auto simp: exchanged_def steady_env_def)
  moreover from this resolve_and_advance_wall [OF assms(7), of dp s3] obtain s4 where
    "resolve_and_advance dp d (JObj (wall (apply_direction (ss_position s) d))) s3 = (s4, Inl IllegalActionError)"
    "ss_machine s4 = ss_machine s3" by auto
  ultimately show ?thesis
    using b(1) dt x(1) s2(4) assms(5)
    by (simp add: run_turn_def run_turn_core_def ebind_def egets_def s2_def [symmetric])
qed

theorem barrier_on_destination_crashes_witness:
  "\<exists>s s'. initial 7 1 (Pos 6 6) (new_machine WAITING) = Inr s \<and>
     run_turn sample_H (\<lambda>_. []) sample_deps (steady_env N ''n0'' (wall (Pos 5 6))) s =
       (s', Inl IllegalActionError)"
proof -
  have "is_within (Pos 6 6) 7" "m_state (new_machine WAITING) = WAITING"
    by (simp_all add: is_within_def new_machine_def)
  then obtain s where s: "initial 7 1 (Pos 6 6) (new_machine WAITING) = Inr s" "turn_inv sample_H s"
    "pending_claim_response s = None" "ss_position s = Pos 6 6" "barriers (ss_board s) = {}"
    "board_size (ss_board s) = 7"
    by (rule initial_turn_inv)
  have "N \<in> set (legal_move_directions (ss_position s) (ss_board s))"
    using s(4-6) by (simp add: set_legal_move_directions is_in_bounds_def is_within_def is_barrier_def)
  from barrier_on_destination_crashes [OF s(2) _ _ _ _ this, of sample_deps "\<lambda>_. []" "''n0''"] s
  show ?thesis by (auto simp: sample_deps_def)
qed

end
