(* ===== verification/SubGame.thy ===== *)
theory SubGame
  imports TurnProps
begin

text \<open>
  One sub-game and the series (\<^verbatim>\<open>services/subgame_runtime.py\<close>, \<^verbatim>\<open>outcomes.py\<close>,
  \<^verbatim>\<open>series_runtime.py\<close>): the lifecycle fast-forward, the loop over turns with its cap, the
  closing self-audit and score, abort and cancellation, and the loop over sub-games that share one
  lifecycle machine. The environments of the turns are a sequence, one per turn.
\<close>

section \<open>The dependencies of a sub-game, from the configuration\<close>

text \<open>
  The numbers the runtime takes from a loaded configuration. The code uses them as they are; a value
  of another type is outside the model (\<open>None\<close>).
\<close>

definition finite_value :: "json \<Rightarrow> real option" where
  "finite_value v = (case num_of v of Some (Fin x) \<Rightarrow> Some x | _ \<Rightarrow> None)"

definition scoring_of :: "jobj \<Rightarrow> scoring option" where
  "scoring_of s =
     (case map (\<lambda>k. int_value (attr s k))
        [''capture_cop'', ''capture_thief'', ''survival_cop'', ''survival_thief'', ''tie_score'',
         ''technical_loss''] of
        [Some a, Some b, Some c, Some d, Some e, Some f] \<Rightarrow>
          Some \<lparr>capture_cop = a, capture_thief = b, survival_cop = c, survival_thief = d,
                tie_score = e, technical_loss = f\<rparr>
      | _ \<Rightarrow> None)"

definition deps_of_config ::
    "shared_config \<Rightarrow> string \<Rightarrow> string \<Rightarrow> (jobj \<Rightarrow> jobj res) option \<Rightarrow> deps option" where
  "deps_of_config c game_uid sha transform =
     (case (int_value (attr (sc_board c) ''grid_size''), map int_value (sc_thief_start c),
            finite_value (attr (sc_network c) ''response_timeout_sec''),
            int_value (attr (sc_movement c) ''survival_threshold''),
            finite_value (attr (sc_pheromones c) ''pheromone_decay''), scoring_of (sc_scoring c)) of
        (Some n, [Some r, Some q], Some t, Some th, Some rho, Some sc) \<Rightarrow>
          Some \<lparr>dp_grid_size = n, dp_thief_start = Pos r q, response_timeout = t,
                survival_threshold = th, pheromone_decay = rho, dp_scoring = sc,
                dp_game_uid = game_uid, dp_config_sha256 = sha, reveal_transform = transform\<rparr>
      | _ \<Rightarrow> None)"

section \<open>The runtime of one sub-game\<close>

record run_result =
  rr_result :: sub_game_result
  rr_steps_taken :: nat
  rr_reason :: string
  rr_records :: "sealed_record list"
  rr_audit :: "audit_report option"
  rr_police_score :: int
  rr_thief_score :: int

definition run_technical_loss :: "run_result \<Rightarrow> bool" where
  "run_technical_loss r \<longleftrightarrow> rr_result r = TECHNICAL_LOSS"

definition LIFECYCLE_TO_WAITING :: "event_kind list" where
  "LIFECYCLE_TO_WAITING = [SERVER_STARTED, BEGIN_NEGOTIATION, TERMS_SIGNED, SUB_GAME_START]"

fun fire_each :: "event_kind list \<Rightarrow> (sub_game_state, unit) eff" where
  "fire_each [] = eret ()"
| "fire_each (k # ks) =
     ebind (fire k (if k = TERMS_SIGNED then ''config_sha256'' else [])) (\<lambda>_. fire_each ks)"

definition fast_forward_to_waiting :: "(sub_game_state, unit) eff" where
  "fast_forward_to_waiting = fire_each LIFECYCLE_TO_WAITING"

text \<open>
  The wait for the peer: \<open>None\<close> without a URL, otherwise the outcome of the health poll, of which
  only the unreachable peer is suppressed.
\<close>

definition await_opponent_ready :: "unit res option \<Rightarrow> unit res" where
  "await_opponent_ready poll =
     (case poll of
        None \<Rightarrow> Inr ()
      | Some (Inl (PeerUnavailableError _)) \<Rightarrow> Inr ()
      | Some r \<Rightarrow> r)"

definition scored_result ::
    "deps \<Rightarrow> sub_game_state \<Rightarrow> sub_game_result \<Rightarrow> string \<Rightarrow> audit_report option \<Rightarrow> run_result" where
  "scored_result dp s result why audit =
     (case score_sub_game result (dp_scoring dp) False of (police, thief) \<Rightarrow>
        \<lparr>rr_result = result, rr_steps_taken = length (ss_records s), rr_reason = why,
         rr_records = ss_records s, rr_audit = audit, rr_police_score = police,
         rr_thief_score = thief\<rparr>)"

definition finalize ::
    "digest \<Rightarrow> deps \<Rightarrow> sub_game_result \<Rightarrow> string \<Rightarrow> (sub_game_state, run_result) eff" where
  "finalize H dp result why s =
     (if m_state (ss_machine s) = ERROR then (s, Inr (scored_result dp s result why None))
      else let audit = audit_sealed_records H (ss_records s) in
        ebind (fire BEGIN_AUDIT []) (\<lambda>_ s'. (s', Inr
          (if verified audit then scored_result dp s' result why (Some audit)
           else scored_result dp s' TECHNICAL_LOSS (ar_reason audit) (Some audit)))) s)"

definition abort :: "digest \<Rightarrow> deps \<Rightarrow> string \<Rightarrow> (sub_game_state, run_result) eff" where
  "abort H dp why s =
     ebind (if m_state (ss_machine s) \<noteq> ERROR then fire ERROR_OCCURRED why else eret ())
       (\<lambda>_. finalize H dp TECHNICAL_LOSS why) s"

text \<open>The loop: at most \<open>n\<close> turns, the environments taken from index \<open>i\<close> on.\<close>

fun play ::
    "digest \<Rightarrow> (json \<Rightarrow> string) \<Rightarrow> deps \<Rightarrow> (nat \<Rightarrow> turn_env) \<Rightarrow> nat \<Rightarrow> nat
       \<Rightarrow> (sub_game_state, turn_result option) eff" where
  "play H rp dp envs i 0 s = (s, Inr None)"
| "play H rp dp envs i (Suc n) s =
     (case run_turn H rp dp (envs i) s of
        (s', Inl e) \<Rightarrow> (s', Inl e)
      | (s', Inr r) \<Rightarrow>
          if tr_ended r then (s', Inr (Some r)) else play H rp dp envs (Suc i) n s')"

definition turn_cap :: "deps \<Rightarrow> int option \<Rightarrow> nat" where
  "turn_cap dp max_turns =
     nat (case max_turns of None \<Rightarrow> survival_threshold dp + 1 | Some n \<Rightarrow> n)"

text \<open>An ended turn always carries its outcome.\<close>

definition finish ::
    "digest \<Rightarrow> deps \<Rightarrow> turn_result option \<Rightarrow> (sub_game_state, run_result) eff" where
  "finish H dp ended =
     (case ended of
        Some r \<Rightarrow> finalize H dp (the (tr_outcome r)) (tr_reason r)
      | None \<Rightarrow> abort H dp ''turn cap exhausted before a natural sub-game outcome'')"

definition run_turns ::
    "digest \<Rightarrow> (json \<Rightarrow> string) \<Rightarrow> deps \<Rightarrow> (nat \<Rightarrow> turn_env) \<Rightarrow> int option
       \<Rightarrow> (sub_game_state, run_result) eff" where
  "run_turns H rp dp envs max_turns s =
     (case play H rp dp envs 0 (turn_cap dp max_turns) s of
        (s', Inr ended) \<Rightarrow> finish H dp ended s'
      | (s', Inl CancelledError) \<Rightarrow>
          ebind (abort H dp ''cancelled'') (\<lambda>_. eraise CancelledError) s'
      | (s', Inl e) \<Rightarrow> (s', Inl e))"

definition run ::
    "digest \<Rightarrow> (json \<Rightarrow> string) \<Rightarrow> deps \<Rightarrow> (nat \<Rightarrow> turn_env) \<Rightarrow> int option \<Rightarrow> bool \<Rightarrow> unit res option
       \<Rightarrow> (sub_game_state, run_result) eff" where
  "run H rp dp envs max_turns bootstrap poll =
     ebind (if bootstrap
            then ebind fast_forward_to_waiting (\<lambda>_. elift (await_opponent_ready poll))
            else eret ())
       (\<lambda>_. run_turns H rp dp envs max_turns)"

section \<open>The series\<close>

record sub_game_record =
  sg_number :: nat
  sg_result :: sub_game_result
  sg_police_score :: int
  sg_thief_score :: int
  sg_steps_taken :: nat
  sg_audit_verified :: bool

record series_result =
  se_sub_games :: "sub_game_record list"
  se_police_total :: int
  se_thief_total :: int
  se_terminated_reason :: string
  se_final_state :: peer_state
  se_run_results :: "run_result list"
  se_agreed :: bool
  se_agreement_status :: string

definition record_of :: "nat \<Rightarrow> run_result \<Rightarrow> sub_game_record" where
  "record_of number r =
     \<lparr>sg_number = number, sg_result = rr_result r, sg_police_score = rr_police_score r,
      sg_thief_score = rr_thief_score r, sg_steps_taken = rr_steps_taken r,
      sg_audit_verified = (case rr_audit r of None \<Rightarrow> False | Some a \<Rightarrow> verified a)\<rparr>"

definition advance_after_sub_game :: "bool \<Rightarrow> (machine, peer_state) eff" where
  "advance_after_sub_game is_last =
     apply_event (Event (if is_last then SERIES_AUDIT_DONE else NEXT_SUB_GAME) [])"

text \<open>
  \<open>k\<close> sub-games remain and \<open>runs\<close> are done; the sub-game to play has index \<open>length runs\<close>. What is
  returned is the list of run results and why the loop stopped.
\<close>

fun series_loop ::
    "digest \<Rightarrow> (json \<Rightarrow> string) \<Rightarrow> (nat \<Rightarrow> deps) \<Rightarrow> (nat \<Rightarrow> nat \<Rightarrow> turn_env) \<Rightarrow> int option
       \<Rightarrow> unit res option \<Rightarrow> nat \<Rightarrow> run_result list \<Rightarrow> (machine, run_result list \<times> string) eff" where
  "series_loop H rp fac envs max_turns poll 0 runs m = (m, Inr (runs, ''completed''))"
| "series_loop H rp fac envs max_turns poll (Suc k) runs m =
     (let i = length runs; dp = fac i in
      case initial (dp_grid_size dp) (int i + 1) (dp_thief_start dp) m of
        Inl e \<Rightarrow> (m, Inl e)
      | Inr s \<Rightarrow>
          (case run H rp dp (envs i) max_turns (i = 0) poll s of
             (s', Inl e) \<Rightarrow> (ss_machine s', Inl e)
           | (s', Inr r) \<Rightarrow>
               if m_state (ss_machine s') = ERROR
               then (ss_machine s', Inr (runs @ [r], ''technical_loss_ended_series''))
               else (case advance_after_sub_game (k = 0) (ss_machine s') of
                  (m', Inl e) \<Rightarrow> (m', Inl e)
                | (m', Inr _) \<Rightarrow> series_loop H rp fac envs max_turns poll k (runs @ [r]) m')))"

definition series_records :: "run_result list \<Rightarrow> sub_game_record list" where
  "series_records runs = map (\<lambda>(i, r). record_of (i + 1) r) (List.enumerate 0 runs)"

definition run_series ::
    "digest \<Rightarrow> (json \<Rightarrow> string) \<Rightarrow> (nat \<Rightarrow> deps) \<Rightarrow> (nat \<Rightarrow> nat \<Rightarrow> turn_env) \<Rightarrow> int \<Rightarrow> int option
       \<Rightarrow> unit res option \<Rightarrow> (machine, series_result) eff" where
  "run_series H rp fac envs num_games max_turns poll m =
     (case series_loop H rp fac envs max_turns poll (nat num_games) [] m of
        (m', Inl e) \<Rightarrow> (m', Inl e)
      | (m', Inr (runs, why)) \<Rightarrow>
          (m', Inr \<lparr>se_sub_games = series_records runs,
                    se_police_total = sum_list (map rr_police_score runs),
                    se_thief_total = sum_list (map rr_thief_score runs),
                    se_terminated_reason = why, se_final_state = m_state m',
                    se_run_results = runs, se_agreed = False,
                    se_agreement_status = ''unverified_self_play''\<rparr>))"

end
