(* ===== verification/SubGameProps.thy ===== *)
theory SubGameProps
  imports SubGame TurnClaims
begin

text \<open>
  What a sub-game and a series guarantee: the cap of the turn loop is enough, every exit leaves the
  lifecycle in a legal state, the audit passes exactly when no nonce was reused, and a series plays its
  sub-games in order until the last or the first technical loss.
\<close>

section \<open>The turn loop\<close>

definition escapes :: "deps \<Rightarrow> (nat \<Rightarrow> turn_env) \<Rightarrow> py_exc \<Rightarrow> bool" where
  "escapes dp envs e \<longleftrightarrow> (\<exists>i. turn_error dp (envs i) e) \<and> \<not> caught_by_run_turn e"

definition nonces :: "sealed_record list \<Rightarrow> string list" where
  "nonces rs = map (\<lambda>r. p_nonce (sr_payload r)) rs"

definition on_schedule :: "deps \<Rightarrow> sub_game_state \<Rightarrow> bool" where
  "on_schedule dp s \<longleftrightarrow>
     (if pending_claim_response s = Some True then ss_step s \<le> survival_threshold dp
      else ss_step s < survival_threshold dp)"

definition can_finish :: "deps \<Rightarrow> sub_game_state \<Rightarrow> nat \<Rightarrow> bool" where
  "can_finish dp s n \<longleftrightarrow>
     (if pending_claim_response s = Some True then 0 < n
      else survival_threshold dp - ss_step s < int n)"

text \<open>A game that ended by the rules, with complete books.\<close>

definition natural_end ::
    "digest \<Rightarrow> deps \<Rightarrow> (nat \<Rightarrow> turn_env) \<Rightarrow> turn_result \<Rightarrow> sub_game_state \<Rightarrow> bool" where
  "natural_end H dp envs r s' \<longleftrightarrow>
     tr_ended r \<and> m_state (ss_machine s') = SUB_GAME_OVER \<and>
     records_ok H (sub_game_number s') (ss_records s') \<and>
     nonces (ss_records s') = map (\<lambda>i. te_nonce (envs i)) [0 ..< length (ss_records s')] \<and>
     (tr_outcome r = Some SURVIVAL \<and> int (length (ss_records s')) = survival_threshold dp \<or>
      tr_outcome r = Some CAPTURE \<and> ss_records s' \<noteq> [] \<and>
        int (length (ss_records s')) \<le> survival_threshold dp + 1 \<and>
        p_claim_response (sr_payload (last (ss_records s'))) = Some True)"

lemma turn_natural_end:
  assumes ok: "turn_ok H dp (envs (length (ss_records s))) s r s'" and "tr_ended r"
    and inv: "turn_inv H s" and "on_schedule dp s"
    and "nonces (ss_records s) = map (\<lambda>i. te_nonce (envs i)) [0 ..< length (ss_records s)]"
  shows "natural_end H dp envs r s'"
proof -
  let ?n = "length (ss_records s)"
  obtain rc where rc: "ss_records s' = ss_records s @ [rc]" "record_ok H (sub_game_number s) ?n rc"
    "p_nonce (sr_payload rc) = te_nonce (envs ?n)"
    "p_claim_response (sr_payload rc) = pending_claim_response s" "sub_game_number s' = sub_game_number s"
    using ok by (auto simp: turn_ok_def played_def)
  have "records_ok H (sub_game_number s) (ss_records s)" "ss_step s = int ?n"
    using inv by (simp_all add: turn_inv_def books_ok_def)
  then have "records_ok H (sub_game_number s') (ss_records s')"
    using rc by (simp add: records_ok_snoc)
  moreover have "nonces (ss_records s') = map (\<lambda>i. te_nonce (envs i)) [0 ..< length (ss_records s')]"
    using assms(5) rc by (simp add: nonces_def)
  ultimately show ?thesis
    using ok \<open>tr_ended r\<close> \<open>on_schedule dp s\<close> rc \<open>ss_step s = int ?n\<close>
    by (auto simp: natural_end_def turn_ok_def capture_confirmed_def survived_def continued_def
        on_schedule_def)
qed

lemma turn_continues:
  assumes ok: "turn_ok H dp env s r s'" and "\<not> tr_ended r" and "on_schedule dp s"
  shows "turn_inv H s' \<and> on_schedule dp s' \<and> length (ss_records s') = Suc (length (ss_records s)) \<and>
    nonces (ss_records s') = nonces (ss_records s) @ [te_nonce env] \<and>
    (can_finish dp s (Suc n) \<longrightarrow> can_finish dp s' n)"
  using assms
  by (auto simp: turn_ok_def capture_confirmed_def survived_def continued_def on_schedule_def
      can_finish_def played_def nonces_def)

lemma play_cases:
  assumes "turn_inv H s" and "pheromone_decay dp = BINDING_DECAY" and "on_schedule dp s"
    and "i = length (ss_records s)"
    and "nonces (ss_records s) = map (\<lambda>i. te_nonce (envs i)) [0 ..< i]"
  shows "case play H rp dp envs i n s of
      (s', Inr (Some r)) \<Rightarrow> natural_end H dp envs r s' \<or> technical_loss_turn r s'
    | (s', Inr None) \<Rightarrow> m_state (ss_machine s') = WAITING \<and> \<not> can_finish dp s n
    | (s', Inl e) \<Rightarrow> escapes dp envs e \<and> m_state (ss_machine s') \<in> playing"
  using assms
proof (induction n arbitrary: i s)
  case 0
  then show ?case by (auto simp: turn_inv_def can_finish_def on_schedule_def)
next
  case (Suc n)
  obtain s' x where t: "run_turn H rp dp (envs i) s = (s', x)" by fastforce
  note cases = run_turn_cases [OF Suc.prems(1,2), where rp = rp and env = "envs i", unfolded t]
  show ?case
  proof (cases x)
    case (Inl e)
    with cases t show ?thesis by (auto simp: escapes_def)
  next
    case (Inr r)
    show ?thesis
    proof (cases "tr_ended r")
      case True
      with cases t Inr Suc.prems turn_natural_end [of H dp envs s r s'] show ?thesis by auto
    next
      case False
      with cases Inr have ok: "turn_ok H dp (envs i) s r s'"
        by (auto simp: technical_loss_turn_def)
      note c = turn_continues [OF ok False Suc.prems(3)]
      have IH: "case play H rp dp envs (Suc i) n s' of
          (t, Inr (Some r)) \<Rightarrow> natural_end H dp envs r t \<or> technical_loss_turn r t
        | (t, Inr None) \<Rightarrow> m_state (ss_machine t) = WAITING \<and> \<not> can_finish dp s' n
        | (t, Inl e) \<Rightarrow> escapes dp envs e \<and> m_state (ss_machine t) \<in> playing"
        using Suc.IH [of s' "Suc i"] c Suc.prems by simp
      have "can_finish dp s (Suc n) \<longrightarrow> can_finish dp s' n" using c by blast
      with IH t Inr False show ?thesis
        by (auto split: prod.splits sum.splits option.splits)
    qed
  qed
qed

section \<open>Finishing\<close>

lemma fire_begin_audit:
  assumes "m_state (ss_machine s) = SUB_GAME_OVER"
  shows "\<exists>m'. m_state m' = AUDITING \<and> fire BEGIN_AUDIT [] s = (s\<lparr>ss_machine := m'\<rparr>, Inr ())"
  using fire_table [of s BEGIN_AUDIT AUDITING "[]"] assms by (simp add: table_simps)

lemma verified_records:
  "records_ok H n rs \<Longrightarrow> verified (audit_sealed_records H rs) \<longleftrightarrow> distinct (nonces rs)"
  by (simp add: verified_iff nonces_def records_ok_def record_ok_def list_all_length)

lemma finalize_error:
  "m_state (ss_machine s) = ERROR \<Longrightarrow> finalize H dp r why s = (s, Inr (scored_result dp s r why None))"
  by (simp add: finalize_def)

lemma abort_playing:
  assumes "m_state (ss_machine s) \<in> playing"
  shows "\<exists>s'. abort H dp why s = (s', Inr (scored_result dp s' TECHNICAL_LOSS why None)) \<and>
    m_state (ss_machine s') = ERROR \<and> ss_records s' = ss_records s"
proof -
  obtain m' where m: "m_state m' = ERROR" "fire ERROR_OCCURRED why s = (s\<lparr>ss_machine := m'\<rparr>, Inr ())"
    using fire_error [OF assms] by blast
  have "m_state (ss_machine s) \<noteq> ERROR" using assms by (auto simp: playing_def)
  with m show ?thesis by (simp add: abort_def ebind_def finalize_error)
qed

lemma finalize_natural:
  assumes "m_state (ss_machine s) = SUB_GAME_OVER" and "records_ok H n (ss_records s)"
  shows "\<exists>s'. finalize H dp r why s =
      (s', Inr (let a = audit_sealed_records H (ss_records s) in
         if distinct (nonces (ss_records s)) then scored_result dp s r why (Some a)
         else scored_result dp s TECHNICAL_LOSS (ar_reason a) (Some a))) \<and>
    m_state (ss_machine s') = AUDITING"
proof -
  obtain m' where m: "m_state m' = AUDITING" "fire BEGIN_AUDIT [] s = (s\<lparr>ss_machine := m'\<rparr>, Inr ())"
    using fire_begin_audit [OF assms(1)] by blast
  have sr: "scored_result dp (s\<lparr>ss_machine := m'\<rparr>) x y z = scored_result dp s x y z" for x y z
    by (simp add: scored_result_def)
  show ?thesis
    using m assms(1) verified_records [OF assms(2)]
    by (simp add: finalize_def ebind_def Let_def sr)
qed

lemma scored_result_sel [simp]:
  "rr_result (scored_result dp s r why a) = r"
  "rr_steps_taken (scored_result dp s r why a) = length (ss_records s)"
  "rr_reason (scored_result dp s r why a) = why"
  "rr_records (scored_result dp s r why a) = ss_records s"
  "rr_audit (scored_result dp s r why a) = a"
  "(rr_police_score (scored_result dp s r why a), rr_thief_score (scored_result dp s r why a)) =
     score_sub_game r (dp_scoring dp) False"
  by (simp_all add: scored_result_def split: prod.splits)

text \<open>
  The verdict on a finished sub-game: what the result says of the game, of the audit and of the
  lifecycle.
\<close>

definition audited ::
    "digest \<Rightarrow> deps \<Rightarrow> (nat \<Rightarrow> turn_env) \<Rightarrow> run_result \<Rightarrow> peer_state \<Rightarrow> bool" where
  "audited H dp envs r st \<longleftrightarrow>
     st = AUDITING \<and>
     nonces (rr_records r) = map (\<lambda>i. te_nonce (envs i)) [0 ..< rr_steps_taken r] \<and>
     rr_audit r = Some (audit_sealed_records H (rr_records r)) \<and>
     (\<exists>number. records_ok H number (rr_records r)) \<and>
     (if distinct (nonces (rr_records r))
      then rr_result r = SURVIVAL \<and> int (rr_steps_taken r) = survival_threshold dp \<or>
           rr_result r = CAPTURE \<and> int (rr_steps_taken r) \<le> survival_threshold dp + 1 \<and>
             p_claim_response (sr_payload (last (rr_records r))) = Some True
      else rr_result r = TECHNICAL_LOSS)"

definition lost_in_error :: "run_result \<Rightarrow> peer_state \<Rightarrow> bool" where
  "lost_in_error r st \<longleftrightarrow> st = ERROR \<and> rr_result r = TECHNICAL_LOSS \<and> rr_audit r = None"

definition CAP_REASON :: string where
  "CAP_REASON = ''turn cap exhausted before a natural sub-game outcome''"

definition scored :: "deps \<Rightarrow> run_result \<Rightarrow> bool" where
  "scored dp r \<longleftrightarrow>
     (rr_police_score r, rr_thief_score r) = score_sub_game (rr_result r) (dp_scoring dp) False \<and>
     rr_steps_taken r = length (rr_records r)"

definition fresh_game :: "digest \<Rightarrow> deps \<Rightarrow> sub_game_state \<Rightarrow> bool" where
  "fresh_game H dp s \<longleftrightarrow>
     turn_inv H s \<and> ss_records s = [] \<and> pending_claim_response s = None \<and>
     pheromone_decay dp = BINDING_DECAY \<and> 0 < survival_threshold dp"

lemma fresh_schedule:
  assumes "fresh_game H dp s"
  shows "on_schedule dp s" and "can_finish dp s (turn_cap dp None)" and "ss_step s = 0"
    and "nonces (ss_records s) = map (\<lambda>i. te_nonce (envs i)) [0 ..< 0]"
  using assms by (auto simp: fresh_game_def on_schedule_def can_finish_def turn_cap_def
      turn_inv_def books_ok_def nonces_def)

lemma run_turns_raised:
  assumes "play H rp dp envs 0 (turn_cap dp max_turns) s = (s1, Inl e)" and "m_state (ss_machine s1) \<in> playing"
  shows "\<exists>s'. run_turns H rp dp envs max_turns s = (s', Inl e) \<and>
    (if e = CancelledError then m_state (ss_machine s') = ERROR else s' = s1)"
proof (cases "e = CancelledError")
  case True
  with abort_playing [OF assms(2), of H dp "''cancelled''"] assms(1) show ?thesis
    by (auto simp: run_turns_def ebind_def eraise_def)
next
  case False
  with assms(1) show ?thesis by (cases e) (simp_all add: run_turns_def)
qed

lemma finish_natural_end:
  assumes "play H rp dp envs 0 (turn_cap dp max_turns) s = (s1, Inr (Some r))" and "natural_end H dp envs r s1"
  shows "\<exists>s' res. run_turns H rp dp envs max_turns s = (s', Inr res) \<and> scored dp res \<and>
    audited H dp envs res (m_state (ss_machine s'))"
proof -
  have ne: "m_state (ss_machine s1) = SUB_GAME_OVER" "records_ok H (sub_game_number s1) (ss_records s1)"
    using assms(2) by (auto simp: natural_end_def)
  from finalize_natural [OF ne, of dp "the (tr_outcome r)" "tr_reason r"] obtain s' where
    "finalize H dp (the (tr_outcome r)) (tr_reason r) s1 =
      (s', Inr (let a = audit_sealed_records H (ss_records s1) in
         if distinct (nonces (ss_records s1)) then scored_result dp s1 (the (tr_outcome r)) (tr_reason r) (Some a)
         else scored_result dp s1 TECHNICAL_LOSS (ar_reason a) (Some a)))"
    "m_state (ss_machine s') = AUDITING" by blast
  with assms show ?thesis
    by (auto simp: run_turns_def finish_def audited_def scored_def natural_end_def Let_def)
qed

lemma finish_technical_loss:
  assumes "play H rp dp envs 0 (turn_cap dp max_turns) s = (s1, Inr (Some r))" and "technical_loss_turn r s1"
  shows "\<exists>s' res. run_turns H rp dp envs max_turns s = (s', Inr res) \<and> scored dp res \<and>
    lost_in_error res (m_state (ss_machine s')) \<and> rr_reason res \<noteq> CAP_REASON"
proof -
  from assms(2) obtain why where "m_state (ss_machine s1) = ERROR" "tr_outcome r = Some TECHNICAL_LOSS"
    "tr_reason r = ''technical loss: '' @ why" by (auto simp: technical_loss_turn_def)
  with assms(1) show ?thesis
    by (simp add: run_turns_def finish_def finalize_error lost_in_error_def scored_def CAP_REASON_def)
qed

lemma finish_out_of_turns:
  assumes "play H rp dp envs 0 (turn_cap dp max_turns) s = (s1, Inr None)" and "m_state (ss_machine s1) \<in> playing"
  shows "\<exists>s' res. run_turns H rp dp envs max_turns s = (s', Inr res) \<and> scored dp res \<and>
    lost_in_error res (m_state (ss_machine s'))"
  using abort_playing [OF assms(2), of H dp CAP_REASON] assms(1)
  by (auto simp: run_turns_def finish_def lost_in_error_def scored_def CAP_REASON_def)

lemma run_turns_cases:
  assumes "fresh_game H dp s"
  shows "case run_turns H rp dp envs max_turns s of
      (s', Inr r) \<Rightarrow> scored dp r \<and>
        (audited H dp envs r (m_state (ss_machine s')) \<or>
         lost_in_error r (m_state (ss_machine s')) \<and> (max_turns = None \<longrightarrow> rr_reason r \<noteq> CAP_REASON))
    | (s', Inl e) \<Rightarrow> escapes dp envs e \<and>
        (if e = CancelledError then m_state (ss_machine s') = ERROR
         else m_state (ss_machine s') \<in> playing)"
proof -
  obtain s1 x where p: "play H rp dp envs 0 (turn_cap dp max_turns) s = (s1, x)" by fastforce
  have i: "0 = length (ss_records s)" "turn_inv H s" "pheromone_decay dp = BINDING_DECAY"
    using assms by (simp_all add: fresh_game_def)
  note cases = play_cases [OF i(2,3) fresh_schedule(1) [OF assms] i(1) fresh_schedule(4) [OF assms],
      where rp = rp and envs = envs and n = "turn_cap dp max_turns", unfolded p]
  show ?thesis
  proof (cases x)
    case (Inl e)
    then have e: "escapes dp envs e" "m_state (ss_machine s1) \<in> playing" using cases by auto
    from run_turns_raised [OF p [unfolded Inl] e(2)] e show ?thesis by (auto split: if_splits)
  next
    case y: (Inr y)
    show ?thesis
    proof (cases y)
      case None
      then have w: "m_state (ss_machine s1) \<in> playing" "\<not> can_finish dp s (turn_cap dp max_turns)"
        using cases y by (auto simp: playing_def)
      then have "max_turns \<noteq> None" using fresh_schedule(2) [OF assms] by metis
      with finish_out_of_turns [OF p [unfolded y None] w(1)] show ?thesis by auto
    next
      case (Some r)
      then consider "natural_end H dp envs r s1" | "technical_loss_turn r s1" using cases y by auto
      then show ?thesis
        using finish_natural_end [OF p [unfolded y Some]] finish_technical_loss [OF p [unfolded y Some]]
        by cases fastforce+
    qed
  qed
qed


section \<open>Starting\<close>

lemma fire_resolve:
  assumes "fst (resolve (m_state (ss_machine s)) (Event k detail)) = Some t"
  shows "\<exists>m'. m_state m' = t \<and> fire k detail s = (s\<lparr>ss_machine := m'\<rparr>, Inr ())"
proof -
  from apply_event_ok [OF assms] obtain h where
    "apply_event (Event k detail) (ss_machine s) =
       (\<lparr>m_state = t, m_history = m_history (ss_machine s) @ [h]\<rparr>, Inr t)" ..
  then show ?thesis
    by (intro exI [of _ "\<lparr>m_state = t, m_history = m_history (ss_machine s) @ [h]\<rparr>"]) (simp add: fire_def)
qed

lemma fast_forward_ok:
  assumes "m_state (ss_machine s) = INITIALIZING"
  shows "\<exists>m'. m_state m' = WAITING \<and> fast_forward_to_waiting s = (s\<lparr>ss_machine := m'\<rparr>, Inr ())"
proof -
  note table = resolve_def TERMINAL_STATES_def table_simps
  obtain m1 where m1: "m_state m1 = SERVER_READY" "fire SERVER_STARTED [] s = (s\<lparr>ss_machine := m1\<rparr>, Inr ())"
    using fire_resolve [of s SERVER_STARTED "[]" SERVER_READY] assms by (auto simp: table)
  obtain m2 where m2: "m_state m2 = NEGOTIATING"
    "fire BEGIN_NEGOTIATION [] (s\<lparr>ss_machine := m1\<rparr>) = (s\<lparr>ss_machine := m2\<rparr>, Inr ())"
    using fire_resolve [of "s\<lparr>ss_machine := m1\<rparr>" BEGIN_NEGOTIATION "[]" NEGOTIATING] m1(1) by (auto simp: table)
  obtain m3 where m3: "m_state m3 = SIGNED"
    "fire TERMS_SIGNED ''config_sha256'' (s\<lparr>ss_machine := m2\<rparr>) = (s\<lparr>ss_machine := m3\<rparr>, Inr ())"
    using fire_resolve [of "s\<lparr>ss_machine := m2\<rparr>" TERMS_SIGNED "''config_sha256''" SIGNED] m2(1) by (auto simp: table)
  obtain m4 where m4: "m_state m4 = WAITING"
    "fire SUB_GAME_START [] (s\<lparr>ss_machine := m3\<rparr>) = (s\<lparr>ss_machine := m4\<rparr>, Inr ())"
    using fire_resolve [of "s\<lparr>ss_machine := m3\<rparr>" SUB_GAME_START "[]" WAITING] m3(1) by (auto simp: table)
  show ?thesis
    using m1 m2 m3 m4
    by (intro exI [of _ m4])
      (simp add: fast_forward_to_waiting_def LIFECYCLE_TO_WAITING_def ebind_def eret_def)
qed

lemma books_ok_machine: "books_ok H (s\<lparr>ss_machine := m\<rparr>) = books_ok H s"
  by (simp add: books_ok_def)

definition deps_ok :: "deps \<Rightarrow> bool" where
  "deps_ok dp \<longleftrightarrow>
     pheromone_decay dp = BINDING_DECAY \<and> 0 < survival_threshold dp \<and>
     is_within (dp_thief_start dp) (dp_grid_size dp)"

definition start_state :: "bool \<Rightarrow> peer_state" where
  "start_state bootstrap = (if bootstrap then INITIALIZING else WAITING)"

definition poll_raises :: "unit res option \<Rightarrow> py_exc \<Rightarrow> bool" where
  "poll_raises poll e \<longleftrightarrow> await_opponent_ready poll = Inl e"

lemma initial_fresh:
  assumes "deps_ok dp" and "m_state m' = WAITING"
  obtains s where "initial (dp_grid_size dp) number (dp_thief_start dp) m = Inr s"
    and "ss_machine s = m" and "fresh_game H dp (s\<lparr>ss_machine := m'\<rparr>)"
proof -
  from assms(1) have "is_within (dp_thief_start dp) (dp_grid_size dp)" by (simp add: deps_ok_def)
  then obtain s where s: "initial (dp_grid_size dp) number (dp_thief_start dp) m = Inr s"
    "knowledge_ok s" "books_ok H s" "ss_machine s = m" "pending_claim_response s = None"
    "ss_records s = []"
    by (rule initial_ok)
  have "books_ok H (s\<lparr>ss_machine := m'\<rparr>)" using s(3) by (simp add: books_ok_machine)
  then have "fresh_game H dp (s\<lparr>ss_machine := m'\<rparr>)"
    using s assms by (simp add: fresh_game_def turn_inv_def deps_ok_def)
  with s that show ?thesis by blast
qed

definition sub_game_ok ::
    "digest \<Rightarrow> deps \<Rightarrow> (nat \<Rightarrow> turn_env) \<Rightarrow> int option \<Rightarrow> run_result \<Rightarrow> peer_state \<Rightarrow> bool" where
  "sub_game_ok H dp envs max_turns r st \<longleftrightarrow>
     scored dp r \<and>
     (audited H dp envs r st \<or>
      lost_in_error r st \<and> (max_turns = None \<longrightarrow> rr_reason r \<noteq> CAP_REASON))"

lemma run_from_initial:
  assumes "deps_ok dp" and "m_state m = start_state bootstrap"
  shows "\<exists>s. initial (dp_grid_size dp) number (dp_thief_start dp) m = Inr s \<and>
    (case run H rp dp envs max_turns bootstrap poll s of
       (s', Inr r) \<Rightarrow> sub_game_ok H dp envs max_turns r (m_state (ss_machine s'))
     | (s', Inl e) \<Rightarrow> (escapes dp envs e \<or> bootstrap \<and> poll_raises poll e) \<and>
         m_state (ss_machine s') \<in> insert ERROR playing)"
proof -
  have go: "case run_turns H rp dp envs max_turns s of
       (s', Inr r) \<Rightarrow> sub_game_ok H dp envs max_turns r (m_state (ss_machine s'))
     | (s', Inl e) \<Rightarrow> (escapes dp envs e \<or> bootstrap \<and> poll_raises poll e) \<and>
         m_state (ss_machine s') \<in> insert ERROR playing" if "fresh_game H dp s" for s
    using run_turns_cases [OF that, where rp = rp and envs = envs and max_turns = max_turns]
    by (auto simp: sub_game_ok_def split: prod.splits sum.splits if_splits)
  have run_eq: "run H rp dp envs max_turns bootstrap poll s = run_turns H rp dp envs max_turns s"
    if "\<not> bootstrap" for s using that by (simp add: run_def ebind_def eret_def)
  show ?thesis
  proof (cases bootstrap)
    case False
    then have w: "m_state m = WAITING" using assms(2) by (simp add: start_state_def)
    obtain s where s: "initial (dp_grid_size dp) number (dp_thief_start dp) m = Inr s"
      "ss_machine s = m" "fresh_game H dp (s\<lparr>ss_machine := m\<rparr>)"
      by (rule initial_fresh [OF assms(1) w])
    have "s\<lparr>ss_machine := m\<rparr> = s" using s(2) by (cases s) simp
    with s(3) have "fresh_game H dp s" by simp
    note g = go [OF this, folded run_eq [OF False]]
    from s(1) g show ?thesis by (intro exI [of _ s] conjI)
  next
    case True
    have "m_state (new_machine WAITING) = WAITING" by (simp add: new_machine_def)
    then obtain s where s: "initial (dp_grid_size dp) number (dp_thief_start dp) m = Inr s" "ss_machine s = m"
      by (rule initial_fresh [OF assms(1)])
    with assms(2) True obtain m' where m': "m_state m' = WAITING"
      "fast_forward_to_waiting s = (s\<lparr>ss_machine := m'\<rparr>, Inr ())"
      using fast_forward_ok [of s] by (auto simp: start_state_def)
    have f: "fresh_game H dp (s\<lparr>ss_machine := m'\<rparr>)"
      using s(1) by (rule_tac initial_fresh [OF assms(1) m'(1), of number m H]) simp
    show ?thesis
    proof (cases "await_opponent_ready poll")
      case (Inl e)
      with s(1) m' True show ?thesis
        by (simp add: run_def ebind_def elift_def poll_raises_def playing_def)
    next
      case (Inr u)
      have "run H rp dp envs max_turns bootstrap poll s = run_turns H rp dp envs max_turns (s\<lparr>ss_machine := m'\<rparr>)"
        using m'(2) True Inr by (simp add: run_def ebind_def elift_def)
      with s(1) go [OF f] show ?thesis by (intro exI [of _ s] conjI) (simp_all only:)
    qed
  qed
qed

section \<open>The series\<close>

definition game_audited ::
    "digest \<Rightarrow> (nat \<Rightarrow> deps) \<Rightarrow> (nat \<Rightarrow> nat \<Rightarrow> turn_env) \<Rightarrow> run_result list \<Rightarrow> nat \<Rightarrow> bool" where
  "game_audited H fac envs rs i \<longleftrightarrow>
     scored (fac i) (rs ! i) \<and> audited H (fac i) (envs i) (rs ! i) AUDITING"

definition series_end ::
    "digest \<Rightarrow> (nat \<Rightarrow> deps) \<Rightarrow> (nat \<Rightarrow> nat \<Rightarrow> turn_env) \<Rightarrow> nat \<Rightarrow> run_result list \<Rightarrow> string \<Rightarrow> peer_state \<Rightarrow> bool" where
  "series_end H fac envs n rs why st \<longleftrightarrow>
     why = ''completed'' \<and> st = SERIES_COMPLETE \<and> length rs = n \<and>
       (\<forall>i < n. game_audited H fac envs rs i) \<or>
     why = ''technical_loss_ended_series'' \<and> st = ERROR \<and> rs \<noteq> [] \<and> length rs \<le> n \<and>
       (\<forall>i < length rs - 1. game_audited H fac envs rs i) \<and> lost_in_error (last rs) ERROR"

lemma advance_ok:
  assumes "m_state m = AUDITING"
  shows "\<exists>m' t. advance_after_sub_game is_last m = (m', Inr t) \<and>
    m_state m' = (if is_last then SERIES_COMPLETE else WAITING)"
proof -
  have "fst (resolve (m_state m) (Event (if is_last then SERIES_AUDIT_DONE else NEXT_SUB_GAME) [])) =
      Some (if is_last then SERIES_COMPLETE else WAITING)"
    by (simp add: assms resolve_def TERMINAL_STATES_def table_simps)
  from apply_event_ok [OF this] show ?thesis by (auto simp: advance_after_sub_game_def)
qed

text \<open>One sub-game of the series: it raises, is lost and ends the series, or is audited and the series goes on.\<close>

lemma series_step:
  assumes "deps_ok (fac (length runs))" and "m_state m = start_state (runs = [])"
  obtains (raised) m1 e where "series_loop H rp fac envs max_turns poll (Suc k) runs m = (m1, Inl e)"
      and "escapes (fac (length runs)) (envs (length runs)) e \<or> poll_raises poll e"
  | (lost) m1 r where "series_loop H rp fac envs max_turns poll (Suc k) runs m =
        (m1, Inr (runs @ [r], ''technical_loss_ended_series''))" and "m_state m1 = ERROR" and "lost_in_error r ERROR"
  | (goes_on) m1 r where "series_loop H rp fac envs max_turns poll (Suc k) runs m =
        series_loop H rp fac envs max_turns poll k (runs @ [r]) m1"
      and "m_state m1 = (if k = 0 then SERIES_COMPLETE else WAITING)" and "game_audited H fac envs (runs @ [r]) (length runs)"
proof -
  let ?i = "length runs"
  note start = run_from_initial [OF assms, where number = "int ?i + 1" and H = H and rp = rp
      and envs = "envs ?i" and max_turns = max_turns and poll = poll]
  then obtain s where s: "initial (dp_grid_size (fac ?i)) (int ?i + 1) (dp_thief_start (fac ?i)) m = Inr s"
    by (elim exE conjE)
  from start have r: "case run H rp (fac ?i) (envs ?i) max_turns (runs = []) poll s of
       (s', Inr r) \<Rightarrow> sub_game_ok H (fac ?i) (envs ?i) max_turns r (m_state (ss_machine s'))
     | (s', Inl e) \<Rightarrow> (escapes (fac ?i) (envs ?i) e \<or> runs = [] \<and> poll_raises poll e) \<and>
         m_state (ss_machine s') \<in> insert ERROR playing"
    unfolding s by (elim exE conjE) (simp only: sum.inject)
  obtain s' x where run: "run H rp (fac ?i) (envs ?i) max_turns (runs = []) poll s = (s', x)" by fastforce
  note unfold = series_loop.simps Let_def s length_0_conv run sum.case prod.case
  show thesis
  proof (cases x)
    case (Inl e)
    show thesis
      by (rule raised [of "ss_machine s'" e]) (use r in \<open>auto simp only: unfold Inl sum.case prod.case\<close>)
  next
    case (Inr res)
    with r run have ok: "sub_game_ok H (fac ?i) (envs ?i) max_turns res (m_state (ss_machine s'))" by simp
    show thesis
    proof (cases "m_state (ss_machine s') = ERROR")
      case True
      with ok have "lost_in_error res ERROR" by (auto simp: sub_game_ok_def audited_def)
      moreover have "series_loop H rp fac envs max_turns poll (Suc k) runs m =
          (ss_machine s', Inr (runs @ [res], ''technical_loss_ended_series''))"
        by (simp only: unfold Inr True simp_thms if_True)
      ultimately show thesis using True by (intro lost)
    next
      case False
      with ok have a: "m_state (ss_machine s') = AUDITING" "game_audited H fac envs (runs @ [res]) ?i"
        by (auto simp: sub_game_ok_def audited_def lost_in_error_def game_audited_def)
      obtain m' t where adv: "advance_after_sub_game (k = 0) (ss_machine s') = (m', Inr t)"
        "m_state m' = (if k = 0 then SERIES_COMPLETE else WAITING)"
        using advance_ok [OF a(1), of "k = 0"] by auto
      have "series_loop H rp fac envs max_turns poll (Suc k) runs m =
          series_loop H rp fac envs max_turns poll k (runs @ [res]) m'"
        by (simp only: unfold Inr False if_False adv(1))
      with adv(2) a(2) show thesis by (intro goes_on)
    qed
  qed
qed

lemma series_loop_cases:
  assumes "\<forall>i. deps_ok (fac i)" and "0 < k" and "m_state m = start_state (runs = [])"
    and "\<forall>i < length runs. game_audited H fac envs runs i"
  shows "case series_loop H rp fac envs max_turns poll k runs m of
      (m', Inr (rs, why)) \<Rightarrow> series_end H fac envs (length runs + k) rs why (m_state m')
    | (m', Inl e) \<Rightarrow> (\<exists>i. escapes (fac i) (envs i) e) \<or> poll_raises poll e"
  using assms(2-4)
proof (induction k arbitrary: runs m)
  case (Suc k)
  have before: "\<forall>i < length runs. game_audited H fac envs (runs @ [r]) i" for r
    using Suc.prems(3) by (simp add: game_audited_def nth_append)
  from assms(1) have "deps_ok (fac (length runs))" ..
  then show ?case using Suc.prems(2)
  proof (cases rule: series_step [where H = H and rp = rp and fac = fac and envs = envs and max_turns = max_turns
        and poll = poll and k = k and runs = runs and m = m])
    case (raised m1 e)
    then show ?thesis by auto
  next
    case (lost m1 r)
    with before show ?thesis by (simp add: series_end_def)
  next
    case (goes_on m1 r)
    have all: "\<forall>i < length (runs @ [r]). game_audited H fac envs (runs @ [r]) i"
      using before goes_on(3) by (simp add: less_Suc_eq)
    show ?thesis
    proof (cases "k = 0")
      case True
      with goes_on(1,2) all show ?thesis by (simp add: series_end_def)
    next
      case k: False
      have "case series_loop H rp fac envs max_turns poll k (runs @ [r]) m1 of
          (t, Inr (rs, why)) \<Rightarrow> series_end H fac envs (length (runs @ [r]) + k) rs why (m_state t)
        | (t, Inl e) \<Rightarrow> (\<exists>i. escapes (fac i) (envs i) e) \<or> poll_raises poll e"
        by (rule Suc.IH) (use k goes_on(2) all in \<open>simp_all add: start_state_def\<close>)
      moreover have "length (runs @ [r]) + k = length runs + Suc k" by simp
      ultimately show ?thesis unfolding goes_on(1) by (simp only:)
    qed
  qed
qed simp

end
