(* ===== verification/SubGameClaims.thy ===== *)
theory SubGameClaims
  imports SubGameProps
begin

text \<open>
  The properties of a sub-game and of the series, and the progress property: against a peer that
  answers and claims nothing, the thief survives.
\<close>

section \<open>A cooperative environment\<close>

definition quiet_turn :: "jobj \<Rightarrow> bool" where
  "quiet_turn opp \<longleftrightarrow>
     is_null (jget opp ''capture_claim'' JNull) \<and> is_null (jget opp ''barrier_placed'' JNull) \<and>
     (\<forall>n. (\<exists>v. validate_scent_grid (jget opp ''scent_grid'' JNull) n = Inr v) \<and>
          (\<exists>r. hinted_region (jget opp ''hint'' JNull) n = Inr r))"

definition cooperative :: "turn_env \<Rightarrow> bool" where
  "cooperative env \<longleftrightarrow>
     (\<forall>ctx. \<exists>d. te_decide env ctx = Inr d \<and>
        (legal_directions ctx \<noteq> [] \<longrightarrow> d_direction d \<in> set (legal_directions ctx))) \<and>
     (\<forall>it d. \<exists>t. te_hint env it d = Inr t) \<and>
     (\<forall>m. \<exists>ack. te_deliver_commitment env m = Inr ack \<and> truthy (jget ack ''ok'' JNull)) \<and>
     (\<forall>m. \<exists>ack opp. te_deliver_reveal env m = Inr ack \<and> truthy (jget ack ''ok'' JNull) \<and>
        jget ack ''opponent_turn'' (JObj []) = JObj opp \<and> quiet_turn opp)"

lemma absorb_quiet:
  assumes "quiet_turn opp"
  shows "ensures (absorb_public_evidence opp) s
    (\<lambda>_ s'. absorbed s s' \<and> ss_board s' = ss_board s) (\<lambda>_ _. False)"
proof -
  obtain v r where vr: "validate_scent_grid (jget opp ''scent_grid'' JNull) (grid_size s) = Inr v"
    "hinted_region (jget opp ''hint'' JNull) (grid_size s) = Inr r"
    "is_null (jget opp ''barrier_placed'' JNull)"
    using assms unfolding quiet_turn_def by blast
  then obtain ps where "absorb_public_evidence opp s =
      (s\<lparr>ss_police_scent := ps, ss_hint_region := r\<rparr>, Inr ())"
    by (auto simp: absorb_public_evidence_def eff_defs eread_def)
  moreover from ensures_valueD [OF absorb_ensures this]
  have "absorbed s (s\<lparr>ss_police_scent := ps, ss_hint_region := r\<rparr>)" .
  ultimately show ?thesis by (simp add: ensures_def)
qed

lemma resolve_quiet:
  assumes "quiet_turn opp" and "m_state (ss_machine s) = VERIFYING"
    and "d \<in> set (legal_move_directions (ss_position s) (ss_board s))"
  shows "ensures (resolve_and_advance dp d (JObj opp)) s
    (\<lambda>r s'. pending_claim_response s' = None) (\<lambda>_ _. False)"
proof -
  have res: "resolve_capture (ss_position s) (jget opp ''capture_claim'' JNull) (jget opp ''barrier_placed'' JNull) =
      Inr \<lparr>cr_captured = False, cr_response = None, cr_reason = ''no capture evidence this turn''\<rparr>"
    using assms(1) by (simp add: quiet_turn_def resolve_capture_def)
  have pending: "ensures (advance_move dp d) s1 (\<lambda>r s'. pending_claim_response s' = None) (\<lambda>_ _. False)"
    if "m_state (ss_machine s1) = VERIFYING" "pending_claim_response s1 = None"
      "d \<in> set (legal_move_directions (ss_position s1) (ss_board s1))" for s1
  proof -
    have mv: "apply_move (ss_position s1) d (ss_board s1) = Inr (apply_direction (ss_position s1) d)"
      using that(3) by (simp add: apply_move_Inr_iff)
    show ?thesis
    proof (cases "ss_step s1 + 1 \<ge> survival_threshold dp")
      case True
      show ?thesis
        unfolding advance_move_def vcg
        apply (simp add: mv True vcg)
        apply (rule fire_ensures [where t = SUB_GAME_OVER], (simp add: that table_simps)+)
        apply (rule ensures_result_for)
        apply (simp add: that)
        done
    next
      case False
      show ?thesis
        unfolding advance_move_def vcg
        apply (simp add: mv False vcg)
        apply (rule fire_ensures [where t = WAITING], (simp add: that table_simps)+)
        done
    qed
  qed
  show ?thesis
    unfolding resolve_and_advance_def vcg
  proof (simp add: res, rule ensures_mono [OF absorb_quiet [OF assms(1)]], goal_cases)
    case (1 u s1)
    then have s1: "m_state (ss_machine s1) = VERIFYING" "ss_position s1 = ss_position s"
      "ss_board s1 = ss_board s"
      using absorbed_simps [of s s1] assms(2) by auto
    show ?case
      by (rule ensures_exchange_ok, rule pending) (use s1 assms(3) in \<open>simp_all add: next_claim_response_def\<close>)
  qed simp
qed

lemma cooperative_no_decision_error:
  assumes "cooperative env" and "0 \<le> response_timeout dp"
  shows "\<not> decision_error dp env e"
proof
  assume "decision_error dp env e"
  moreover have "legal_brain env"
    using assms(1) unfolding cooperative_def legal_brain_def by (metis sum.inject(2))
  ultimately consider ctx where "te_decide env ctx = Inl e" | it d where "te_hint env it d = Inl e"
    using assms(2) by (auto simp: decision_error_def)
  then show False
    by cases (use assms(1) in \<open>unfold cooperative_def, metis Inl_Inr_False\<close>)+
qed

lemma cooperative_delivery:
  assumes "cooperative env" and "reveal_transform dp = None"
  obtains ack opp where "delivery rp dp env r = Inr ack"
    and "jget ack ''opponent_turn'' (JObj []) = JObj opp" and "quiet_turn opp"
proof -
  let ?cm = "commitment_message r (dp_game_uid dp) (dp_config_sha256 dp)"
  let ?rm = "reveal_message r (dp_game_uid dp) (dp_config_sha256 dp)"
  obtain ack1 where a1: "te_deliver_commitment env ?cm = Inr ack1" "truthy (jget ack1 ''ok'' JNull)"
    using assms(1) unfolding cooperative_def by blast
  obtain ack opp where a2: "te_deliver_reveal env ?rm = Inr ack" "truthy (jget ack ''ok'' JNull)"
    "jget ack ''opponent_turn'' (JObj []) = JObj opp" "quiet_turn opp"
    using assms(1) unfolding cooperative_def by blast
  have "delivery rp dp env r = Inr ack"
    by (simp add: delivery_def outgoing_reveal_def assms(2) deliver_commit_and_reveal_def a1 a2 Let_def)
  with a2 that show ?thesis by blast
qed

lemma exchange_cooperative:
  assumes "books_ok H s" and "m_state (ss_machine s) = THINKING"
    and "cooperative env" and "reveal_transform dp = None"
  shows "ensures (exchange_turn H rp dp env d txt) s
    (\<lambda>ack s'. exchanged H dp env (d, txt) s ack s' \<and>
       (\<exists>opp. jget ack ''opponent_turn'' (JObj []) = JObj opp \<and> quiet_turn opp)) (\<lambda>_ _. False)"
proof -
  let ?r = "seal_turn H dp env (d_direction d) (d_intent d) txt s"
  obtain ack0 opp0 where "delivery rp dp env ?r = Inr ack0"
    by (rule cooperative_delivery [OF assms(3,4)])
  then have no: "delivery rp dp env ?r \<noteq> Inl e" for e by simp
  have quiet: "\<exists>opp. jget ack ''opponent_turn'' (JObj []) = JObj opp \<and> quiet_turn opp"
    if "exchanged H dp env (d, txt) s ack s'" for ack s'
  proof -
    from that obtain m where m: "te_deliver_reveal env m = Inr ack" by (auto simp: exchanged_def)
    obtain ack1 opp where a: "te_deliver_reveal env m = Inr ack1"
      "jget ack1 ''opponent_turn'' (JObj []) = JObj opp" "quiet_turn opp"
      using assms(3) unfolding cooperative_def by blast
    with m have "ack1 = ack" by simp
    with a show ?thesis by blast
  qed
  show ?thesis
    by (rule ensures_mono [OF exchange_turn_ensures [OF assms(1,2)]]) (use no quiet in auto)
qed

lemma run_turn_core_cooperative:
  assumes "turn_inv H s" and "pheromone_decay dp = BINDING_DECAY" and "cooperative env"
    and "0 \<le> response_timeout dp" and "reveal_transform dp = None"
    and "pending_claim_response s = None"
  shows "ensures (run_turn_core H rp dp env) s (\<lambda>r s'. pending_claim_response s' = None) (\<lambda>_ _. False)"
  unfolding run_turn_core_def vcg
proof (rule ensures_mono [OF begin_turn_ensures], goal_cases)
  case (4 u s1)
  then have s1: "books_ok H s1" "m_state (ss_machine s1) = THINKING" "pending_claim_response s1 = None"
    using assms(1,6) by (auto simp: began_def turn_inv_def books_ok_def)
  show ?case
  proof (rule ensures_mono [OF decide_turn_ensures], goal_cases)
    case (1 dt s2)
    then have legal: "d_direction (fst dt) \<in> set (legal_move_directions (ss_position s1) (ss_board s1))"
      and same: "ss_position s2 = ss_position s1" "ss_board s2 = ss_board s1"
      and s2: "books_ok H s2" "m_state (ss_machine s2) = THINKING" "pending_claim_response s2 = None"
      using s1 by (auto simp: decided_def books_ok_published)
    have ex: "ensures (exchange_turn H rp dp env (fst dt) (snd dt)) s2
        (\<lambda>ack s'. exchanged H dp env dt s2 ack s' \<and>
           (\<exists>opp. jget ack ''opponent_turn'' (JObj []) = JObj opp \<and> quiet_turn opp)) (\<lambda>_ _. False)"
      using exchange_cooperative [OF s2(1,2) assms(3,5), of rp "fst dt" "snd dt"] by simp
    show ?case
    proof (rule ensures_mono [OF ex], goal_cases)
      case (1 ack s3)
      then obtain opp where opp: "jget ack ''opponent_turn'' (JObj []) = JObj opp" "quiet_turn opp" by blast
      have "m_state (ss_machine s3) = VERIFYING" "ss_position s3 = ss_position s1" "ss_board s3 = ss_board s1"
        using 1 same by (auto simp: exchanged_def)
      with resolve_quiet [OF opp(2), of s3 "d_direction (fst dt)" dp] legal
      show ?case by (simp add: s2(3) opp(1))
    qed simp
  next
    case (2 e s2)
    with cooperative_no_decision_error [OF assms(3,4)] show ?case by blast
  qed
qed (use assms in \<open>auto simp: turn_inv_def\<close>)

lemma run_turn_cooperative:
  assumes "turn_inv H s" and "pheromone_decay dp = BINDING_DECAY" and "cooperative env"
    and "0 \<le> response_timeout dp" and "reveal_transform dp = None"
    and "pending_claim_response s = None"
  obtains s' r where "run_turn H rp dp env s = (s', Inr r)" and "turn_ok H dp env s r s'"
    and "pending_claim_response s' = None"
proof -
  obtain s' x where c: "run_turn_core H rp dp env s = (s', x)" by fastforce
  with run_turn_core_cooperative [OF assms, of rp] obtain r where r: "x = Inr r"
    "pending_claim_response s' = None"
    by (cases x) (auto simp: ensures_def)
  from ensures_valueD [OF run_turn_core_ensures [OF assms(1,2)] c [unfolded r(1)]]
  show ?thesis using c r that by (simp add: run_turn_def)
qed

lemma play_cooperative:
  assumes "turn_inv H s" and "pheromone_decay dp = BINDING_DECAY" and "on_schedule dp s"
    and "\<forall>i. cooperative (envs i)" and "0 \<le> response_timeout dp" and "reveal_transform dp = None"
    and "pending_claim_response s = None" and "can_finish dp s n"
  shows "\<exists>s' r. play H rp dp envs i n s = (s', Inr (Some r)) \<and> tr_outcome r = Some SURVIVAL"
  using assms
proof (induction n arbitrary: i s)
  case 0
  then show ?case by (auto simp: can_finish_def on_schedule_def)
next
  case (Suc n)
  from Suc.prems(4) have "cooperative (envs i)" ..
  with Suc.prems obtain s' r where t: "run_turn H rp dp (envs i) s = (s', Inr r)"
    "turn_ok H dp (envs i) s r s'" "pending_claim_response s' = None"
    by (elim run_turn_cooperative [of H s dp "envs i" rp])
  show ?case
  proof (cases "tr_ended r")
    case True
    with t Suc.prems(7) show ?thesis
      by (auto simp: turn_ok_def capture_confirmed_def continued_def survived_def)
  next
    case False
    from turn_continues [OF t(2) False Suc.prems(3)] Suc.prems(8)
    have "turn_inv H s'" "on_schedule dp s'" "can_finish dp s' n" by auto
    with Suc.IH [of s' "Suc i"] Suc.prems t(3) show ?thesis by (simp add: t(1) False)
  qed
qed


lemma cooperative_survives:
  assumes "fresh_game H dp s" and "\<forall>i. cooperative (envs i)" and "0 \<le> response_timeout dp"
    and "reveal_transform dp = None" and "inj (\<lambda>i. te_nonce (envs i))"
  shows "\<exists>s' r. run_turns H rp dp envs None s = (s', Inr r) \<and> rr_result r = SURVIVAL \<and>
    int (rr_steps_taken r) = survival_threshold dp \<and> m_state (ss_machine s') = AUDITING"
proof -
  have inv: "turn_inv H s" "pheromone_decay dp = BINDING_DECAY" "0 = length (ss_records s)"
    "pending_claim_response s = None"
    using assms(1) by (simp_all add: fresh_game_def)
  note sched = fresh_schedule [OF assms(1)]
  obtain s1 r where p: "play H rp dp envs 0 (turn_cap dp None) s = (s1, Inr (Some r))"
    "tr_outcome r = Some SURVIVAL"
    using play_cooperative [OF inv(1,2) sched(1) assms(2-4) inv(4) sched(2)] by blast
  have ne: "natural_end H dp envs r s1"
    using play_cases [OF inv(1,2) sched(1) inv(3) sched(4), where rp = rp and envs = envs and n = "turn_cap dp None"] p
    by (auto simp: technical_loss_turn_def)
  then have so: "m_state (ss_machine s1) = SUB_GAME_OVER"
    "records_ok H (sub_game_number s1) (ss_records s1)"
    "nonces (ss_records s1) = map (\<lambda>i. te_nonce (envs i)) [0 ..< length (ss_records s1)]"
    and len: "int (length (ss_records s1)) = survival_threshold dp"
    using p(2) by (auto simp: natural_end_def)
  have "distinct (nonces (ss_records s1))"
    using so(3) assms(5) by (simp add: distinct_map inj_on_def inj_def)
  with finalize_natural [OF so(1,2), of dp SURVIVAL "tr_reason r"] obtain s' where
    "finalize H dp SURVIVAL (tr_reason r) s1 =
       (s', Inr (scored_result dp s1 SURVIVAL (tr_reason r) (Some (audit_sealed_records H (ss_records s1)))))"
    "m_state (ss_machine s') = AUDITING"
    by (auto simp: Let_def)
  with p len show ?thesis by (simp add: run_turns_def finish_def)
qed

definition brain_env :: "string \<Rightarrow> turn_env" where
  "brain_env nonce = (steady_env STAY nonce [])\<lparr>te_decide :=
     (\<lambda>ctx. Inr (snd (entropy_decide DEFAULT_WEIGHTS (\<lambda>_. 0) [] ctx)))\<rparr>"

lemma cooperative_brain_env: "cooperative (brain_env nonce)"
  by (auto simp: cooperative_def brain_env_def steady_env_def quiet_turn_def hinted_region_def
      intro: entropy.decide_legal)

definition sample_envs :: "nat \<Rightarrow> turn_env" where
  "sample_envs i = brain_env (replicate i (CHR ''x''))"

lemma inj_sample_nonce: "inj (\<lambda>i. te_nonce (sample_envs i))"
  by (rule injI) (auto simp: sample_envs_def brain_env_def steady_env_def dest: arg_cong [of _ _ length])

lemma sample_deps_grid: "dp_grid_size sample_deps = 7" "dp_thief_start sample_deps = Pos 6 6"
  by (simp_all add: sample_deps_def)

lemma sample_deps_ok: "deps_ok sample_deps"
  by (simp add: deps_ok_def sample_deps_def is_within_def)

lemma series_records_map: "series_records runs = map (\<lambda>i. record_of (i + 1) (runs ! i)) [0 ..< length runs]"
  by (simp add: series_records_def enumerate_map)

lemma series_records_sums:
  "map sg_police_score (series_records runs) = map rr_police_score runs"
  "map sg_thief_score (series_records runs) = map rr_thief_score runs"
  "map sg_number (series_records runs) = [1 ..< Suc (length runs)]"
proof -
  have f: "map (\<lambda>i. f (runs ! i)) [0 ..< length runs] = map f runs" for f :: "run_result \<Rightarrow> int"
    by (rule nth_equalityI) simp_all
  show "map sg_police_score (series_records runs) = map rr_police_score runs"
    "map sg_thief_score (series_records runs) = map rr_thief_score runs"
    using f [of rr_police_score] f [of rr_thief_score]
    by (simp_all add: series_records_map record_of_def comp_def)
  show "map sg_number (series_records runs) = [1 ..< Suc (length runs)]"
    by (simp add: series_records_map record_of_def comp_def map_Suc_upt del: upt_Suc)
qed

lemma int_value_eq: "json_eq v (JInt n) \<Longrightarrow> int_value v = Some m \<Longrightarrow> m = n"
  by (cases v rule: int_value.cases) (auto split: if_splits)

lemma int_value_least: "lt_int v n = Inr False \<Longrightarrow> int_value v = Some m \<Longrightarrow> n \<le> m"
  by (cases v rule: int_value.cases) (auto simp: lt_int_def le_floor_iff split: if_splits)

lemma finite_value_eq: "json_eq v (JFloat (Fin x)) \<Longrightarrow> finite_value v = Some y \<Longrightarrow> y = x"
  by (cases v) (auto simp: finite_value_def split: pyfloat.splits)

text \<open>The sample configuration, loaded.\<close>

lemmas config_unfold =
  config_from_dict_def sample_config_def REQUIRED_KEYS_def SHARED_TABLE_KEYS_def
  require_section_def clean_def construct_def BoardAndAgents_fields_def World_fields_def
  MovementAndBarriers_fields_def Scoring_fields_def Pheromones_fields_def Pheromones_optional_def
  NetworkAndLeague_fields_def RateLimiterGatekeeper_fields_def extract_pheromones_def attr_def
  validate_board_and_agents_def is_int_def validate_movement_and_barriers_def
  is_expected_move_set_def EXPECTED_MOVE_SET_def at_least_def validate_scoring_def
  SCORING_CONSTANTS_def validate_pheromones_def validate_network_and_league_def
  validate_rate_limiter_gatekeeper_def RATE_LIMIT_MINIMUMS_def

lemma sample_config_fields:
  obtains c where "config_from_dict sample_config = Inr c" and "attr (sc_board c) ''grid_size'' = JInt 7"
    and "sc_thief_start c = [JInt 6, JInt 6]" and "attr (sc_network c) ''response_timeout_sec'' = JInt 30"
    and "attr (sc_movement c) ''survival_threshold'' = JInt 35"
    and "attr (sc_pheromones c) ''pheromone_decay'' = JFloat (Fin 0.10)"
    and "map (attr (sc_scoring c)) [''capture_cop'', ''capture_thief'', ''survival_cop'', ''survival_thief'',
       ''tie_score'', ''technical_loss''] = map JInt [20, 5, 5, 10, 2, 0]"
proof -
  have "\<exists>c. config_from_dict sample_config = Inr c \<and> attr (sc_board c) ''grid_size'' = JInt 7 \<and>
    sc_thief_start c = [JInt 6, JInt 6] \<and> attr (sc_network c) ''response_timeout_sec'' = JInt 30 \<and>
    attr (sc_movement c) ''survival_threshold'' = JInt 35 \<and>
    attr (sc_pheromones c) ''pheromone_decay'' = JFloat (Fin 0.10) \<and>
    map (attr (sc_scoring c)) [''capture_cop'', ''capture_thief'', ''survival_cop'', ''survival_thief'',
       ''tie_score'', ''technical_loss''] = map JInt [20, 5, 5, 10, 2, 0]"
    by (simp add: config_unfold)
  with that show ?thesis by blast
qed

lemma survives_quiet_peer:
  assumes "deps_ok dp" and "m_state m = INITIALIZING" and "\<forall>i. cooperative (envs i)"
    and "0 \<le> response_timeout dp" and "reveal_transform dp = None" and "inj (\<lambda>i. te_nonce (envs i))"
  shows "\<exists>s s' r. initial (dp_grid_size dp) number (dp_thief_start dp) m = Inr s \<and>
    run H rp dp envs None True None s = (s', Inr r) \<and> rr_result r = SURVIVAL \<and>
    int (rr_steps_taken r) = survival_threshold dp \<and> m_state (ss_machine s') = AUDITING"
proof -
  have "m_state (new_machine WAITING) = WAITING" by (simp add: new_machine_def)
  then obtain s where s: "initial (dp_grid_size dp) number (dp_thief_start dp) m = Inr s" "ss_machine s = m"
    by (rule initial_fresh [OF assms(1)])
  with assms(2) obtain m' where m': "m_state m' = WAITING"
    "fast_forward_to_waiting s = (s\<lparr>ss_machine := m'\<rparr>, Inr ())"
    using fast_forward_ok [of s] by auto
  have "fresh_game H dp (s\<lparr>ss_machine := m'\<rparr>)"
    using s(1) by (rule_tac initial_fresh [OF assms(1) m'(1), of number m H]) simp
  from cooperative_survives [OF this assms(3-6), of rp] s(1) m'(2) show ?thesis
    by (auto simp: run_def ebind_def elift_def await_opponent_ready_def)
qed

text \<open>A smoke run, a series of one game, against such a peer.\<close>

lemma smoke_series_completes:
  assumes "deps_ok (fac 0)" and "m_state m = INITIALIZING" and "\<forall>i. cooperative (envs 0 i)"
    and "0 \<le> response_timeout (fac 0)" and "reveal_transform (fac 0) = None"
    and "inj (\<lambda>i. te_nonce (envs 0 i))"
  shows "\<exists>m' se. run_series H rp fac envs 1 None None m = (m', Inr se) \<and>
    se_terminated_reason se = ''completed''"
proof -
  obtain s s' r where g: "initial (dp_grid_size (fac 0)) 1 (dp_thief_start (fac 0)) m = Inr s"
    "run H rp (fac 0) (envs 0) None True None s = (s', Inr r)" "m_state (ss_machine s') = AUDITING"
    using survives_quiet_peer [OF assms, where number = 1] by blast
  from advance_ok [OF g(3), of True] obtain m' t where
    "advance_after_sub_game True (ss_machine s') = (m', Inr t)" by blast
  with g have "series_loop H rp fac envs None None (Suc 0) [] m = (m', Inr ([r], ''completed''))"
    by (simp add: Let_def)
  then show ?thesis by (simp add: run_series_def del: series_loop.simps)
qed

lemma run_series_cases:
  assumes "\<forall>i. deps_ok (fac i)" and "0 < num_games" and "m_state m = INITIALIZING"
  shows "case run_series H rp fac envs num_games max_turns poll m of
      (m', Inr res) \<Rightarrow>
        series_end H fac envs (nat num_games) (se_run_results res) (se_terminated_reason res) (m_state m') \<and>
        se_final_state res = m_state m' \<and>
        se_police_total res = sum_list (map sg_police_score (se_sub_games res)) \<and>
        se_thief_total res = sum_list (map sg_thief_score (se_sub_games res)) \<and>
        map sg_number (se_sub_games res) = [1 ..< Suc (length (se_run_results res))] \<and> \<not> se_agreed res
    | (m', Inl e) \<Rightarrow> (\<exists>i. escapes (fac i) (envs i) e) \<or> poll_raises poll e"
proof -
  obtain m' x where l: "series_loop H rp fac envs max_turns poll (nat num_games) [] m = (m', x)" by fastforce
  have "case series_loop H rp fac envs max_turns poll (nat num_games) [] m of
      (m', Inr (rs, why)) \<Rightarrow> series_end H fac envs (length ([] :: run_result list) + nat num_games) rs why (m_state m')
    | (m', Inl e) \<Rightarrow> (\<exists>i. escapes (fac i) (envs i) e) \<or> poll_raises poll e"
    by (rule series_loop_cases) (use assms in \<open>simp_all add: start_state_def\<close>)
  then show ?thesis
    unfolding l run_series_def
    by (auto simp: series_records_sums split: sum.splits)
qed

section \<open>Properties\<close>

text \<open>
  C2. A sub-game ends in one of three ways, whatever the brain and the peer do, and for every cap. It
  is audited: the thief survived after exactly the threshold of steps, or the capture was confirmed in the last
  sealed record, and the audit decides by the nonces alone whether the result stands or becomes a technical
  loss. It is lost in ERROR without any audit; with the default cap never because the turns ran out. Or an uncaught
  exception leaves it. The scores are always those of the result.
\<close>

theorem sub_game_outcomes:
  assumes "deps_ok dp" and "m_state m = start_state bootstrap"
  shows "\<exists>s. initial (dp_grid_size dp) number (dp_thief_start dp) m = Inr s \<and>
    (case run H rp dp envs max_turns bootstrap poll s of
       (s', Inr r) \<Rightarrow> sub_game_ok H dp envs max_turns r (m_state (ss_machine s'))
     | (s', Inl e) \<Rightarrow> (escapes dp envs e \<or> bootstrap \<and> poll_raises poll e) \<and>
         m_state (ss_machine s') \<in> insert ERROR playing)"
  using assms by (rule run_from_initial)

theorem sub_game_outcomes_witness:
  "\<exists>s. initial 7 1 (Pos 6 6) (new_machine INITIALIZING) = Inr s \<and>
    (case run sample_H (\<lambda>_. []) sample_deps sample_envs None True None s of
       (s', Inr r) \<Rightarrow> sub_game_ok sample_H sample_deps sample_envs None r (m_state (ss_machine s'))
     | (s', Inl e) \<Rightarrow> (escapes sample_deps sample_envs e \<or> True \<and> poll_raises None e) \<and>
         m_state (ss_machine s') \<in> insert ERROR playing)"
proof -
  have "m_state (new_machine INITIALIZING) = start_state True"
    by (simp add: new_machine_def start_state_def)
  from sub_game_outcomes [OF sample_deps_ok this, where number = 1 and H = sample_H
      and rp = "\<lambda>_. []" and envs = sample_envs and max_turns = None and poll = None]
  show ?thesis by (simp add: sample_deps_grid)
qed

text \<open>
  C5. Progress: against a peer that accepts every message and claims nothing, with a brain that picks
  legal moves and fresh nonces, the game is not only safe but ends well: the thief survives after
  exactly the threshold of turns and the lifecycle stands in AUDITING.
\<close>

theorem thief_survives_quiet_peer:
  assumes "deps_ok dp" and "m_state m = INITIALIZING" and "\<forall>i. cooperative (envs i)"
    and "0 \<le> response_timeout dp" and "reveal_transform dp = None" and "inj (\<lambda>i. te_nonce (envs i))"
  shows "\<exists>s s' r. initial (dp_grid_size dp) number (dp_thief_start dp) m = Inr s \<and>
    run H rp dp envs None True None s = (s', Inr r) \<and> rr_result r = SURVIVAL \<and>
    int (rr_steps_taken r) = survival_threshold dp \<and> m_state (ss_machine s') = AUDITING"
  using assms by (rule survives_quiet_peer)

theorem thief_survives_quiet_peer_witness:
  "\<exists>s s' r. initial 7 1 (Pos 6 6) (new_machine INITIALIZING) = Inr s \<and>
    run sample_H (\<lambda>_. []) sample_deps sample_envs None True None s = (s', Inr r) \<and>
    rr_result r = SURVIVAL \<and> rr_steps_taken r = 35"
proof -
  have 1: "m_state (new_machine INITIALIZING) = INITIALIZING" by (simp add: new_machine_def)
  have 2: "\<forall>i. cooperative (sample_envs i)" by (simp add: sample_envs_def cooperative_brain_env)
  have 3: "0 \<le> response_timeout sample_deps" "reveal_transform sample_deps = None"
    by (simp_all add: sample_deps_def)
  have "survival_threshold sample_deps = 35" "dp_grid_size sample_deps = 7"
    "dp_thief_start sample_deps = Pos 6 6" by (simp_all add: sample_deps_def)
  with thief_survives_quiet_peer [OF sample_deps_ok 1 2 3 inj_sample_nonce, of 1 sample_H "\<lambda>_. []"]
  show ?thesis by auto
qed



lemma loaded_deps:
  assumes "config_from_dict data = Inr c" and "deps_of_config c uid sha transform = Some dp"
  shows "pheromone_decay dp = BINDING_DECAY \<and> 35 \<le> survival_threshold dp \<and> 7 \<le> dp_grid_size dp \<and>
    score_sub_game SURVIVAL (dp_scoring dp) False = (5, 10) \<and>
    (deps_ok dp \<longleftrightarrow> is_within (dp_thief_start dp) (dp_grid_size dp))"
proof -
  have b: "binding_config c" by (rule config_binding [OF assms(1)])
  have d: "int_value (attr (sc_board c) ''grid_size'') = Some (dp_grid_size dp)"
    "int_value (attr (sc_movement c) ''survival_threshold'') = Some (survival_threshold dp)"
    "finite_value (attr (sc_pheromones c) ''pheromone_decay'') = Some (pheromone_decay dp)"
    "scoring_of (sc_scoring c) = Some (dp_scoring dp)"
    using assms(2) by (auto simp: deps_of_config_def split: option.splits list.splits)
  have rho: "pheromone_decay dp = BINDING_DECAY"
    using b d(3) finite_value_eq unfolding binding_config_def BINDING_DECAY_def by blast
  have th: "35 \<le> survival_threshold dp"
    using b d(2) int_value_least unfolding binding_config_def by blast
  have n: "7 \<le> dp_grid_size dp" using b d(1) by (auto simp: binding_config_def)
  have "int_value (attr (sc_scoring c) ''survival_cop'') = Some (survival_cop (dp_scoring dp))"
    "int_value (attr (sc_scoring c) ''survival_thief'') = Some (survival_thief (dp_scoring dp))"
    using d(4) by (auto simp: scoring_of_def dest!: sym [of _ "dp_scoring dp"] split: option.splits)
  moreover have "json_eq (attr (sc_scoring c) ''survival_cop'') (JInt 5)"
    "json_eq (attr (sc_scoring c) ''survival_thief'') (JInt 10)"
    using b unfolding binding_config_def SCORING_CONSTANTS_def list.pred_inject prod.case by blast+
  ultimately have "survival_cop (dp_scoring dp) = 5" "survival_thief (dp_scoring dp) = 10"
    using int_value_eq by blast+
  with rho th n show ?thesis by (auto simp: score_sub_game_def deps_ok_def)
qed

text \<open>
  A configuration that loads gives the runtime what its guarantees need: the binding decay, a threshold
  of at least 35 steps, a board of at least 7 by 7 and the constant scores; only the start cell is not
  validated, so it is left as the one condition.
\<close>

lemma loaded_config_gives_deps:
  assumes "config_from_dict data = Inr c" and "deps_of_config c uid sha transform = Some dp"
  shows "pheromone_decay dp = BINDING_DECAY \<and> 35 \<le> survival_threshold dp \<and> 7 \<le> dp_grid_size dp \<and>
    score_sub_game SURVIVAL (dp_scoring dp) False = (5, 10) \<and>
    (deps_ok dp \<longleftrightarrow> is_within (dp_thief_start dp) (dp_grid_size dp))"
  using assms by (rule loaded_deps)

end
