(* ===== verification/Agreement.thy ===== *)
theory Agreement
  imports SubGame Inbox Canonical
begin

text \<open>
  The end of a series: the two peers exchange their totals and a digest of every sub-game, and each
  decides on its own (\<^verbatim>\<open>services/series_scoring.py\<close>, \<^verbatim>\<open>result_agreement.py\<close>); the identity both derive
  from the terms they agreed on (\<^verbatim>\<open>services/game_ids.py\<close>); and the exit code of the program
  (\<^verbatim>\<open>sdk/game_runner.py\<close>). SHA-256 of a text and the rendering of a float are the parameters \<open>sha\<close> and \<open>fr\<close>.
\<close>

section \<open>The rule\<close>

record final_agreement =
  fa_agreed :: bool
  fa_status :: string
  fa_police_total :: int
  fa_thief_total :: int

definition Final_agreement :: "bool \<Rightarrow> string \<Rightarrow> int \<Rightarrow> int \<Rightarrow> final_agreement" where
  "Final_agreement a st p t =
     \<lparr>fa_agreed = a, fa_status = st, fa_police_total = p, fa_thief_total = t\<rparr>"

definition resolve_final_agreement :: "int \<Rightarrow> int \<Rightarrow> json \<Rightarrow> json \<Rightarrow> final_agreement" where
  "resolve_final_agreement our_police our_thief their_police their_thief =
     (if is_null their_police \<or> is_null their_thief
      then Final_agreement False ''unverified_self_play'' our_police our_thief
      else if json_eq (JInt our_police) their_police \<and> json_eq (JInt our_thief) their_thief
      then Final_agreement True ''agreed'' our_police our_thief
      else Final_agreement False ''disputed_zeroed'' 0 0)"

section \<open>The messages\<close>

text \<open>Every string in the digested list is ASCII, on which the default escaping changes nothing.\<close>

definition digest_entry :: "sub_game_record \<Rightarrow> jobj" where
  "digest_entry r =
     [(''sub_game_number'', JInt (int (sg_number r))),
      (''result'', JStr (result_value (sg_result r))),
      (''police_score'', JInt (sg_police_score r)),
      (''thief_score'', JInt (sg_thief_score r)),
      (''steps'', JInt (int (sg_steps_taken r)))]"

definition compute_result_digest ::
    "(pyfloat \<Rightarrow> string) \<Rightarrow> (string \<Rightarrow> string) \<Rightarrow> sub_game_record list \<Rightarrow> string" where
  "compute_result_digest fr sha records =
     canonical_sha256_hex fr sha (JList (map (\<lambda>r. JObj (digest_entry r)) (sort_key sg_number records)))"

definition build_result_agreement_message ::
    "string \<Rightarrow> role \<Rightarrow> string \<Rightarrow> int \<Rightarrow> int \<Rightarrow> nat \<Rightarrow> string \<Rightarrow> jobj" where
  "build_result_agreement_message game_uid sender config_sha256 police_total thief_total num_sub_games
       result_digest =
     [(''message_type'', JStr ''result_agreement''),
      (''envelope'', JObj
         [(''game_uid'', JStr game_uid),
          (''sender'', JStr (role_value sender)),
          (''sub_game_number'', JInt 0),
          (''step'', JInt 0),
          (''sequence_id'', JInt 0)]),
      (''config_sha256'', JStr config_sha256),
      (''police_total'', JInt police_total),
      (''thief_total'', JInt thief_total),
      (''num_sub_games'', JInt (int num_sub_games)),
      (''result_digest'', JStr result_digest)]"

text \<open>The audit inbox holds dicts with a dict envelope: the router accepts nothing else.\<close>

definition is_opponent_agreement :: "json \<Rightarrow> role \<Rightarrow> bool" where
  "is_opponent_agreement m opp =
     (case envelope_of m of
        None \<Rightarrow> False
      | Some env \<Rightarrow> message_type_is m ''result_agreement'' \<and>
          json_eq (jget env ''sender'' JNull) (JStr (role_value opp)))"

text \<open>The poll loop, as in the gateway: \<open>arrive n\<close> is what the server does during the sleep leaving \<open>n\<close> polls.\<close>

fun await_opponent_agreement ::
    "nat \<Rightarrow> (nat \<Rightarrow> inbox \<Rightarrow> inbox) \<Rightarrow> role \<Rightarrow> inbox \<Rightarrow> inbox \<times> json option" where
  "await_opponent_agreement 0 arrive opp b = (b, None)"
| "await_opponent_agreement (Suc n) arrive opp b =
     (case pop_matching (\<lambda>m. is_opponent_agreement m opp) b of
        (b1, Some m) \<Rightarrow> (b1, Some m)
      | (b1, None) \<Rightarrow> await_opponent_agreement n arrive opp (arrive n b1))"

section \<open>The exchange\<close>

definition judge :: "int \<times> int \<Rightarrow> nat \<Rightarrow> string \<Rightarrow> jobj option \<Rightarrow> final_agreement" where
  "judge our_totals num_sub_games result_digest theirs =
     (case theirs of
        None \<Rightarrow> resolve_final_agreement (fst our_totals) (snd our_totals) JNull JNull
      | Some m \<Rightarrow>
          if \<not> json_eq (jget m ''num_sub_games'' JNull) (JInt (int num_sub_games)) \<or>
             \<not> json_eq (jget m ''result_digest'' JNull) (JStr result_digest)
          then Final_agreement False ''disputed_zeroed'' 0 0
          else resolve_final_agreement (fst our_totals) (snd our_totals)
                 (jget m ''police_total'' JNull) (jget m ''thief_total'' JNull))"

text \<open>
  \<open>call\<close> is the outcome of delivering our message, of which only the unreachable peer is suppressed;
  \<open>b\<close> is the audit inbox when it returned. Pacing only delays the call.
\<close>

definition exchange_and_resolve_agreement ::
    "(jobj \<Rightarrow> jobj res) \<Rightarrow> nat \<Rightarrow> (nat \<Rightarrow> inbox \<Rightarrow> inbox) \<Rightarrow> string \<Rightarrow> string \<Rightarrow> role \<Rightarrow> int \<times> int \<Rightarrow> nat
       \<Rightarrow> string \<Rightarrow> (inbox, final_agreement) eff" where
  "exchange_and_resolve_agreement call attempts arrive game_uid config_sha256 sender our_totals
       num_sub_games result_digest b =
     (let message = build_result_agreement_message game_uid sender config_sha256 (fst our_totals)
            (snd our_totals) num_sub_games result_digest;
          proceed = (case await_opponent_agreement attempts arrive (opponent sender) b of
              (b', theirs) \<Rightarrow>
                (b', Inr (judge our_totals num_sub_games result_digest
                            (case theirs of Some (JObj m) \<Rightarrow> Some m | _ \<Rightarrow> None))))
      in case call message of
           Inr _ \<Rightarrow> proceed
         | Inl (PeerUnavailableError _) \<Rightarrow> proceed
         | Inl e \<Rightarrow> (b, Inl e))"

definition finalize_series_agreement ::
    "(pyfloat \<Rightarrow> string) \<Rightarrow> (string \<Rightarrow> string) \<Rightarrow> (jobj \<Rightarrow> jobj res) \<Rightarrow> nat \<Rightarrow> (nat \<Rightarrow> inbox \<Rightarrow> inbox)
       \<Rightarrow> string \<Rightarrow> string \<Rightarrow> role \<Rightarrow> series_result \<Rightarrow> (inbox, series_result) eff" where
  "finalize_series_agreement fr sha call attempts arrive game_uid config_sha256 us se =
     (if se_terminated_reason se \<noteq> ''completed'' then eret se
      else ebind (exchange_and_resolve_agreement call attempts arrive game_uid config_sha256 us
                    (se_police_total se, se_thief_total se) (length (se_sub_games se))
                    (compute_result_digest fr sha (se_sub_games se)))
             (\<lambda>a. eret (se\<lparr>se_police_total := fa_police_total a, se_thief_total := fa_thief_total a,
                           se_agreed := fa_agreed a, se_agreement_status := fa_status a\<rparr>)))"

section \<open>The identity of a game\<close>

definition terms_from_shared_config :: "shared_config \<Rightarrow> jobj" where
  "terms_from_shared_config c =
     (let terms =
        [(''board_size'', attr (sc_board c) ''grid_size''),
         (''thief_start'', JList (sc_thief_start c)),
         (''cop_start'', JList (sc_cop_start c)),
         (''axis_origin_corner'', attr (sc_board c) ''axis_origin_corner''),
         (''axis_start_index'', attr (sc_board c) ''axis_start_index''),
         (''setting'', attr (sc_world c) ''map_area''),
         (''hint_max_words'', attr (sc_world c) ''hint_max_words''),
         (''barriers_max'', attr (sc_movement c) ''max_barriers''),
         (''max_steps'', attr (sc_movement c) ''max_moves''),
         (''emit_intensity'', attr (sc_pheromones c) ''pheromone_center_intensity''),
         (''decay_per_step'', attr (sc_pheromones c) ''pheromone_decay''),
         (''smell_grid_size'', attr (sc_pheromones c) ''pheromone_grid_size''),
         (''num_games'', attr (sc_network c) ''num_games'')];
          v = attr (sc_pheromones c) ''pheromone_min_center_intensity''
      in if \<not> is_null v then terms @ [(''min_center_intensity'', v)] else terms)"

definition canonical_terms_json :: "(pyfloat \<Rightarrow> string) \<Rightarrow> jobj \<Rightarrow> string" where
  "canonical_terms_json fr terms = canonical_json fr (JObj terms)"

definition derive_game_id :: "string list \<Rightarrow> string" where
  "derive_game_id group_ids =
     (let ids = sort group_ids
      in if 1 < length ids then join ''-vs-'' ids
         else case ids of [] \<Rightarrow> ''unknown'' | i # _ \<Rightarrow> i)"

text \<open>\<^verbatim>\<open>str(uuid.UUID(h))\<close> for 32 lower-case hexadecimal digits.\<close>

definition uuid_str :: "string \<Rightarrow> string" where
  "uuid_str h =
     take 8 h @ ''-'' @ take 4 (drop 8 h) @ ''-'' @ take 4 (drop 12 h) @ ''-'' @ take 4 (drop 16 h) @ ''-'' @
     drop 20 h"

definition derive_game_uid ::
    "(pyfloat \<Rightarrow> string) \<Rightarrow> (string \<Rightarrow> string) \<Rightarrow> jobj \<Rightarrow> string list \<Rightarrow> string" where
  "derive_game_uid fr sha terms group_ids =
     uuid_str (take 32 (sha (canonical_terms_json fr terms @ ''|'' @ join ''|'' (sort group_ids))))"

text \<open>The nonce is drawn by the runtime.\<close>

definition build_signed_negotiate_message ::
    "(pyfloat \<Rightarrow> string) \<Rightarrow> (string \<Rightarrow> string) \<Rightarrow> string \<Rightarrow> jobj \<Rightarrow> json \<Rightarrow> string \<Rightarrow> int \<Rightarrow> string \<Rightarrow> jobj" where
  "build_signed_negotiate_message fr sha nonce terms group_id role_text number correlation_id =
     [(''terms'', JObj terms),
      (''nonce'', JStr nonce),
      (''signature'', JStr (sha (canonical_terms_json fr terms @ ''|'' @ nonce))),
      (''group_id'', group_id),
      (''role'', JStr role_text),
      (''sub_game_number'', JInt number),
      (''envelope'', JObj [(''correlation_id'', JStr correlation_id), (''group_id'', group_id)])]"

section \<open>The program\<close>

definition series_summary :: "string \<Rightarrow> string \<Rightarrow> string list \<Rightarrow> series_result \<Rightarrow> jobj" where
  "series_summary game_id game_uid written se =
     [(''mode'', JStr ''run-series''),
      (''game_id'', JStr game_id),
      (''game_uid'', JStr game_uid),
      (''sub_games_played'', JInt (int (length (se_sub_games se)))),
      (''agreed'', JBool (se_agreed se)),
      (''police_total'', JInt (se_police_total se)),
      (''thief_total'', JInt (se_thief_total se)),
      (''agreement_status'', JStr (se_agreement_status se)),
      (''terminated_reason'', JStr (se_terminated_reason se)),
      (''final_state'', JStr (state_value (se_final_state se))),
      (''artifacts_written'', JList (map JStr written))]"

definition summary_exit_code :: "jobj \<Rightarrow> int" where
  "summary_exit_code summary =
     (if json_eq (jget summary ''result'' JNull) (JStr (result_value TECHNICAL_LOSS)) then 1
      else if \<not> json_eq (jget summary ''terminated_reason'' (JStr ''completed'')) (JStr ''completed'') then 1
      else let status = jget summary ''agreement_status'' JNull;
               disputed = json_eq status (JStr ''disputed_zeroed'') \<or> json_eq status (JStr ''unverified_self_play'')
           in if disputed \<or> jget summary ''agreed'' JNull = JBool False then 1 else 0)"

text \<open>
  The headless series: the sub-games on the machine, then the exchange through the audit inbox, which the
  server has filled meanwhile (\<open>b\<close>).
\<close>

definition run_series_headless ::
    "digest \<Rightarrow> (json \<Rightarrow> string) \<Rightarrow> (pyfloat \<Rightarrow> string) \<Rightarrow> (string \<Rightarrow> string) \<Rightarrow> (nat \<Rightarrow> deps)
       \<Rightarrow> (nat \<Rightarrow> nat \<Rightarrow> turn_env) \<Rightarrow> bool \<Rightarrow> int \<Rightarrow> unit res option \<Rightarrow> (jobj \<Rightarrow> jobj res)
       \<Rightarrow> (nat \<Rightarrow> inbox \<Rightarrow> inbox) \<Rightarrow> string \<Rightarrow> string \<Rightarrow> (machine \<times> inbox, series_result) eff" where
  "run_series_headless H rp fr sha fac envs smoke num_games poll call arrive game_uid config_sha256 = (\<lambda>(m, b).
     (case run_series H rp fac envs (if smoke then 1 else num_games) None poll m of
        (m', Inl e) \<Rightarrow> ((m', b), Inl e)
      | (m', Inr se) \<Rightarrow>
          (case finalize_series_agreement fr sha call 100 arrive game_uid config_sha256 THIEF se b of
             (b', r) \<Rightarrow> ((m', b'), r))))"

end
