(* ===== verification/AgreementClaims.thy ===== *)
theory AgreementClaims
  imports Agreement Router SubGameClaims
begin

text \<open>
  What the end of a series guarantees: the digest of the results binds every sub-game, the message of one
  peer passes the router of the other, both peers reach the same verdict, no total is invented, and the
  program exits with 0 exactly on a completed and agreed series.
\<close>

section \<open>The digested text determines the records\<close>

lemma quoted_result_then:
  "quote_str (result_value a) @ x = quote_str (result_value b) @ y \<Longrightarrow> a = b \<and> x = y"
  by (cases a; cases b) (simp_all add: quote_str_def escape_char_def)

definition view :: "sub_game_record \<Rightarrow> nat \<times> sub_game_result \<times> int \<times> int \<times> nat" where
  "view r = (sg_number r, sg_result r, sg_police_score r, sg_thief_score r, sg_steps_taken r)"

lemma entry_text:
  "canonical_json fr (JObj (digest_entry r)) =
     CHR ''{'' # quote_str ''police_score'' @ CHR '':'' # str_of_int (sg_police_score r) @ CHR '','' #
     quote_str ''result'' @ CHR '':'' # quote_str (result_value (sg_result r)) @ CHR '','' #
     quote_str ''steps'' @ CHR '':'' # str_of_int (int (sg_steps_taken r)) @ CHR '','' #
     quote_str ''sub_game_number'' @ CHR '':'' # str_of_int (int (sg_number r)) @ CHR '','' #
     quote_str ''thief_score'' @ CHR '':'' # str_of_int (sg_thief_score r) @ [CHR ''}'']"
  by (simp add: digest_entry_def less_char_def)

lemma entry_then:
  assumes "canonical_json fr (JObj (digest_entry r)) @ x = canonical_json fr (JObj (digest_entry s)) @ y"
  shows "view r = view s \<and> x = y"
proof -
  have c: "\<not> numeric (CHR '','')" "\<not> numeric (CHR ''}'')" by (simp_all add: numeric_def)
  show ?thesis
    using assms unfolding entry_text view_def
    by (auto dest!: int_then [OF c(1)] int_then [OF c(2)] quoted_result_then)
qed

lemma join_entries_inject:
  assumes "join '','' (map (\<lambda>r. canonical_json fr (JObj (digest_entry r))) rs) @ [CHR '']''] =
    join '','' (map (\<lambda>r. canonical_json fr (JObj (digest_entry r))) ss) @ [CHR '']'']"
  shows "map view rs = map view ss"
  using assms
proof (induction rs arbitrary: ss)
  case Nil
  then show ?case by (cases ss rule: list.exhaust; cases "tl ss") (auto simp: entry_text simp del: canonical_json.simps)
next
  case (Cons r rs)
  let ?e = "\<lambda>r. canonical_json fr (JObj (digest_entry r))"
  have unfold: "join '','' (map ?e (r # rs)) @ [CHR '']''] =
      ?e r @ (case rs of [] \<Rightarrow> [CHR '']''] | _ \<Rightarrow> CHR '','' # join '','' (map ?e rs) @ [CHR '']''])" for r rs
    by (cases rs) (simp_all del: canonical_json.simps)
  show ?case
  proof (cases ss)
    case Nil
    with Cons.prems show ?thesis unfolding unfold by (simp add: entry_text del: canonical_json.simps)
  next
    case (Cons s ts)
    with Cons.prems have "?e r @ (case rs of [] \<Rightarrow> [CHR '']''] | _ \<Rightarrow> CHR '','' # join '','' (map ?e rs) @ [CHR '']'']) =
      ?e s @ (case ts of [] \<Rightarrow> [CHR '']''] | _ \<Rightarrow> CHR '','' # join '','' (map ?e ts) @ [CHR '']''])"
      unfolding unfold [symmetric] by (simp del: canonical_json.simps)
    from entry_then [OF this] have "view r = view s"
      and rest: "(case rs of [] \<Rightarrow> [CHR '']''] | _ \<Rightarrow> CHR '','' # join '','' (map ?e rs) @ [CHR '']'']) =
        (case ts of [] \<Rightarrow> [CHR '']''] | _ \<Rightarrow> CHR '','' # join '','' (map ?e ts) @ [CHR '']''])"
      by blast+
    moreover from rest have "map view rs = map view ts"
      using Cons.IH [of ts] by (cases rs; cases ts) (simp_all del: canonical_json.simps)
    ultimately show ?thesis by (simp add: Cons)
  qed
qed

lemma digest_text_inject:
  assumes "canonical_json fr (JList (map (\<lambda>r. JObj (digest_entry r)) rs)) =
    canonical_json fr (JList (map (\<lambda>r. JObj (digest_entry r)) ss))"
  shows "map view rs = map view ss"
  using assms by (intro join_entries_inject) (simp add: comp_def del: canonical_json.simps(7))

section \<open>The messages on the wire\<close>

lemma own_message_matches:
  "is_opponent_agreement (JObj (build_result_agreement_message uid us sha p t n d)) us"
  by (cases us) (simp_all add: is_opponent_agreement_def envelope_of_def message_type_is_def
      build_result_agreement_message_def)

text \<open>What \<^verbatim>\<open>submit_audit\<close> of a router does to its audit inbox.\<close>

definition delivered :: "(json \<Rightarrow> string) \<Rightarrow> router \<Rightarrow> jobj \<Rightarrow> inbox \<Rightarrow> inbox" where
  "delivered rp r m b = audit_inbox (fst (call_tool rp submit_audit (JObj m) (r\<lparr>audit_inbox := b\<rparr>)))"

lemma agreement_message_admitted:
  assumes "st \<notin> {ERROR, QUIT}"
  shows "ib_queue (delivered rp (build_game_server me uid sha (Some st))
      (build_result_agreement_message uid (opponent me) sha p t n d) (new_inbox 100)) =
    [(''audit:0:result_agreement'', JObj (build_result_agreement_message uid (opponent me) sha p t n d))]"
proof -
  have i: "str_of_int 0 = ''0''" by code_simp
  show ?thesis
    using assms
    by (cases me)
      (simp_all add: delivered_def handle_audit_def logged_def handle_audit_core_def
        build_result_agreement_message_def AUDIT_TYPES_def binding_reason_def build_game_server_def
        new_router_def DEAD_STATES_FOR_AUDIT_def is_idempotent_replay_def is_duplicate_conflict_def
        ib_enqueue_def new_inbox_def inbox_size_def Let_def log_call_def i)
qed

text \<open>
  A message that arrives during a sleep that leaves at least one poll is found; in the last sleep it would
  come too late.
\<close>

lemma await_arrival:
  assumes "pop_matching (\<lambda>m. is_opponent_agreement m opp) b = (b, None)"
    and "pop_matching (\<lambda>m. is_opponent_agreement m opp) (deliver b) = (b', Some m)"
    and "1 \<le> j" and "j < n"
  shows "await_opponent_agreement n (\<lambda>k. if k = j then deliver else id) opp b = (b', Some m)"
  using assms(4)
proof (induction n)
  case 0
  then show ?case by simp
next
  case (Suc n)
  show ?case
  proof (cases "n = j")
    case True
    then obtain n' where "n = Suc n'" using assms(3) by (cases n) auto
    with assms(1,2) show ?thesis by (simp add: True [symmetric])
  next
    case False
    with Suc have "await_opponent_agreement n (\<lambda>k. if k = j then deliver else id) opp b = (b', Some m)" by simp
    with False assms(1) show ?thesis by simp
  qed
qed

lemma exchange_found:
  assumes "st \<notin> {ERROR, QUIT}" and "1 \<le> j" and "j < attempts"
  shows "\<exists>b. exchange_and_resolve_agreement (\<lambda>_. Inr ack) attempts
      (\<lambda>k. if k = j then delivered rp (build_game_server me uid sha (Some st))
                (build_result_agreement_message uid (opponent me) sha p t n d) else id)
      uid sha me totals num dig (new_inbox 100) =
    (b, Inr (judge totals num dig (Some (build_result_agreement_message uid (opponent me) sha p t n d))))"
proof -
  let ?m = "build_result_agreement_message uid (opponent me) sha p t n d"
  let ?deliver = "delivered rp (build_game_server me uid sha (Some st)) ?m"
  let ?p = "\<lambda>m. is_opponent_agreement m (opponent me)"
  have none: "pop_matching ?p (new_inbox 100) = (new_inbox 100, None)"
    by (simp add: pop_matching_extract new_inbox_def)
  obtain b where some: "pop_matching ?p (?deliver (new_inbox 100)) = (b, Some (JObj ?m))"
    by (simp add: pop_matching_extract agreement_message_admitted [OF assms(1)] own_message_matches)
  show ?thesis
    using await_arrival [where deliver = ?deliver, OF none some assms(2,3)]
    by (simp add: exchange_and_resolve_agreement_def Let_def)
qed

lemma judge_message:
  "judge (p, t) n d (Some (build_result_agreement_message uid us sha p' t' n' d')) =
     (if n = n' \<and> d = d' \<and> p = p' \<and> t = t' then Final_agreement True ''agreed'' p t
      else Final_agreement False ''disputed_zeroed'' 0 0)"
  by (auto simp: judge_def build_result_agreement_message_def resolve_final_agreement_def)

lemma judge_cases:
  "judge (p, t) n d theirs = v \<Longrightarrow>
     v = Final_agreement False ''unverified_self_play'' p t \<or>
     v = Final_agreement False ''disputed_zeroed'' 0 0 \<or>
     v = Final_agreement True ''agreed'' p t \<and>
       (\<exists>m. theirs = Some m \<and> json_eq (jget m ''num_sub_games'' JNull) (JInt (int n)) \<and>
          json_eq (jget m ''result_digest'' JNull) (JStr d) \<and>
          json_eq (JInt p) (jget m ''police_total'' JNull) \<and> json_eq (JInt t) (jget m ''thief_total'' JNull))"
  by (auto simp: judge_def resolve_final_agreement_def split: option.splits if_splits)

text \<open>Only an error other than the unreachable peer gets out of the exchange.\<close>

lemma exchange_cases:
  assumes "await_opponent_agreement attempts arrive (opponent us) b = (b1, r)"
  obtains e m where "call m = Inl e" and "\<forall>why. e \<noteq> PeerUnavailableError why"
    and "exchange_and_resolve_agreement call attempts arrive uid csha us totals n d b = (b, Inl e)"
  | "exchange_and_resolve_agreement call attempts arrive uid csha us totals n d b =
      (b1, Inr (judge totals n d (case r of Some (JObj m) \<Rightarrow> Some m | _ \<Rightarrow> None)))"
proof (cases "call (build_result_agreement_message uid us csha (fst totals) (snd totals) n d)")
  case (Inl e)
  then show ?thesis using assms that
    by (cases e) (simp_all add: exchange_and_resolve_agreement_def)
next
  case (Inr u)
  then show ?thesis using assms that(2) by (simp add: exchange_and_resolve_agreement_def)
qed

lemma finalize_honest:
  "case finalize_series_agreement fr sha call attempts arrive uid csha us se b of
     (b', Inr se') \<Rightarrow>
       se_sub_games se' = se_sub_games se \<and> se_run_results se' = se_run_results se \<and>
       se_terminated_reason se' = se_terminated_reason se \<and> se_final_state se' = se_final_state se \<and>
       (if se_terminated_reason se \<noteq> ''completed'' then se' = se \<and> b' = b
        else let found = snd (await_opponent_agreement attempts arrive (opponent us) b);
                 own = (se_police_total se, se_thief_total se);
                 totals = (se_police_total se', se_thief_total se')
             in (se_agreed se' \<longleftrightarrow> se_agreement_status se' = ''agreed'') \<and>
                (if se_agreement_status se' = ''disputed_zeroed'' then totals = (0, 0) else totals = own) \<and>
                (if se_agreed se' then (\<exists>m. found = Some (JObj m) \<and>
                   json_eq (jget m ''num_sub_games'' JNull) (JInt (int (length (se_sub_games se)))) \<and>
                   json_eq (jget m ''result_digest'' JNull) (JStr (compute_result_digest fr sha (se_sub_games se))) \<and>
                   json_eq (JInt (fst own)) (jget m ''police_total'' JNull) \<and>
                   json_eq (JInt (snd own)) (jget m ''thief_total'' JNull))
                 else se_agreement_status se' \<in> {''disputed_zeroed'', ''unverified_self_play''}))
   | (b', Inl e) \<Rightarrow> b' = b \<and> (\<exists>m. call m = Inl e) \<and> (\<forall>why. e \<noteq> PeerUnavailableError why)"
proof (cases "se_terminated_reason se = ''completed''")
  case False
  then show ?thesis by (simp add: finalize_series_agreement_def eret_def)
next
  case True
  let ?own = "(se_police_total se, se_thief_total se)"
  let ?n = "length (se_sub_games se)" and ?d = "compute_result_digest fr sha (se_sub_games se)"
  obtain b1 r where aw: "await_opponent_agreement attempts arrive (opponent us) b = (b1, r)" by fastforce
  let ?theirs = "case r of Some (JObj m) \<Rightarrow> Some m | _ \<Rightarrow> None"
  obtain v where v: "judge ?own ?n ?d ?theirs = v" by blast
  have r: "r = Some (JObj m)" if "?theirs = Some m" for m
    using that by (auto split: option.splits json.splits)
  from aw show ?thesis
  proof (cases rule: exchange_cases [where call = call and uid = uid and csha = csha and totals = ?own and n = ?n
        and d = ?d])
    case 1
    then show ?thesis
      using True by (auto simp: finalize_series_agreement_def ebind_def)
  next
    case 2
    then have "finalize_series_agreement fr sha call attempts arrive uid csha us se b =
        (b1, Inr (se\<lparr>se_police_total := fa_police_total v, se_thief_total := fa_thief_total v,
                     se_agreed := fa_agreed v, se_agreement_status := fa_status v\<rparr>))"
      using True v by (simp add: finalize_series_agreement_def ebind_def eret_def)
    moreover from judge_cases [OF v] r have "(fa_agreed v \<longleftrightarrow> fa_status v = ''agreed'') \<and>
      (if fa_status v = ''disputed_zeroed'' then (fa_police_total v, fa_thief_total v) = (0, 0)
       else (fa_police_total v, fa_thief_total v) = ?own) \<and>
      (if fa_agreed v then (\<exists>m. r = Some (JObj m) \<and>
         json_eq (jget m ''num_sub_games'' JNull) (JInt (int ?n)) \<and>
         json_eq (jget m ''result_digest'' JNull) (JStr ?d) \<and>
         json_eq (JInt (fst ?own)) (jget m ''police_total'' JNull) \<and>
         json_eq (JInt (snd ?own)) (jget m ''thief_total'' JNull))
       else fa_status v \<in> {''disputed_zeroed'', ''unverified_self_play''})"
      by (auto simp: Final_agreement_def simp del: json_eq.simps)
    ultimately show ?thesis using True aw by (auto simp: Let_def simp del: json_eq.simps split: if_splits)
  qed
qed

section \<open>Properties\<close>

text \<open>
  C6. Both peers reach one verdict. Each builds its message, the other's router admits it and the poll finds
  it whenever it arrives before the last sleep; then both agree on the totals, when the totals, the
  number of games and the digests are equal, or both report a dispute with zero for both.
\<close>

theorem peers_reach_one_verdict:
  assumes "1 \<le> i" and "i < attempts" and "1 \<le> j" and "j < attempts'"
    and "st \<notin> {ERROR, QUIT}" and "st' \<notin> {ERROR, QUIT}"
  shows "\<exists>b b' v.
    exchange_and_resolve_agreement (\<lambda>_. Inr ack_ok) attempts
      (\<lambda>k. if k = i then delivered rp (build_game_server THIEF uid sha (Some st))
                (build_result_agreement_message uid POLICE sha pp tp np dp) else id)
      uid sha THIEF (pt, tt) nt dt (new_inbox 100) = (b, Inr v) \<and>
    exchange_and_resolve_agreement (\<lambda>_. Inr ack_ok) attempts'
      (\<lambda>k. if k = j then delivered rp (build_game_server POLICE uid sha (Some st'))
                (build_result_agreement_message uid THIEF sha pt tt nt dt) else id)
      uid sha POLICE (pp, tp) np dp (new_inbox 100) = (b', Inr v) \<and>
    v = (if nt = np \<and> dt = dp \<and> pt = pp \<and> tt = tp then Final_agreement True ''agreed'' pt tt
         else Final_agreement False ''disputed_zeroed'' 0 0)"
proof -
  let ?v = "if nt = np \<and> dt = dp \<and> pt = pp \<and> tt = tp then Final_agreement True ''agreed'' pt tt
    else Final_agreement False ''disputed_zeroed'' 0 0"
  have eq: "(if np = nt \<and> dp = dt \<and> pp = pt \<and> tp = tt then Final_agreement True ''agreed'' pp tp
    else Final_agreement False ''disputed_zeroed'' 0 0) = ?v" by auto
  note thief = exchange_found [where me = THIEF and totals = "(pt, tt)" and num = nt and dig = dt
      and ack = ack_ok and rp = rp and uid = uid and sha = sha and p = pp and t = tp and n = np and d = dp,
      OF assms(5,1,2), unfolded judge_message opponent.simps]
  note police = exchange_found [where me = POLICE and totals = "(pp, tp)" and num = np and dig = dp
      and ack = ack_ok and rp = rp and uid = uid and sha = sha and p = pt and t = tt and n = nt and d = dt,
      OF assms(6,3,4), unfolded judge_message opponent.simps eq]
  from thief police show ?thesis by (elim exE) (intro exI conjI, assumption+, rule refl)
qed

theorem peers_reach_one_verdict_witness:
  "\<exists>b b' v.
    exchange_and_resolve_agreement (\<lambda>_. Inr ack_ok) 100
      (\<lambda>k. if k = 99 then delivered (\<lambda>_. []) (build_game_server THIEF ''u'' ''s'' (Some SERIES_COMPLETE))
                (build_result_agreement_message ''u'' POLICE ''s'' 30 60 6 ''d'') else id)
      ''u'' ''s'' THIEF (30, 60) 6 ''d'' (new_inbox 100) = (b, Inr v) \<and>
    exchange_and_resolve_agreement (\<lambda>_. Inr ack_ok) 100
      (\<lambda>k. if k = 50 then delivered (\<lambda>_. []) (build_game_server POLICE ''u'' ''s'' (Some SERIES_COMPLETE))
                (build_result_agreement_message ''u'' THIEF ''s'' 30 60 6 ''d'') else id)
      ''u'' ''s'' POLICE (30, 60) 6 ''d'' (new_inbox 100) = (b', Inr v) \<and>
    v = Final_agreement True ''agreed'' 30 60"
  using peers_reach_one_verdict [of 99 100 50 100 SERIES_COMPLETE SERIES_COMPLETE "\<lambda>_. []" "''u''" "''s''"
      30 60 6 "''d''" 30 60 6 "''d''"]
  by simp

text \<open>
  No total is ever invented: closing a series keeps its sub-games, its reason and its final state, and
  the totals become either the peer's own or zero for both. The series counts as agreed exactly when a message of the
  opponent was found with the same number of games, digest and totals; a series that did not complete
  is left alone, and only an error other than an unreachable peer gets out.
\<close>

lemma totals_never_invented:
  "case finalize_series_agreement fr sha call attempts arrive uid csha us se b of
     (b', Inr se') \<Rightarrow>
       se_sub_games se' = se_sub_games se \<and> se_run_results se' = se_run_results se \<and>
       se_terminated_reason se' = se_terminated_reason se \<and> se_final_state se' = se_final_state se \<and>
       (if se_terminated_reason se \<noteq> ''completed'' then se' = se \<and> b' = b
        else let found = snd (await_opponent_agreement attempts arrive (opponent us) b);
                 own = (se_police_total se, se_thief_total se);
                 totals = (se_police_total se', se_thief_total se')
             in (se_agreed se' \<longleftrightarrow> se_agreement_status se' = ''agreed'') \<and>
                (if se_agreement_status se' = ''disputed_zeroed'' then totals = (0, 0) else totals = own) \<and>
                (if se_agreed se' then (\<exists>m. found = Some (JObj m) \<and>
                   json_eq (jget m ''num_sub_games'' JNull) (JInt (int (length (se_sub_games se)))) \<and>
                   json_eq (jget m ''result_digest'' JNull) (JStr (compute_result_digest fr sha (se_sub_games se))) \<and>
                   json_eq (JInt (fst own)) (jget m ''police_total'' JNull) \<and>
                   json_eq (JInt (snd own)) (jget m ''thief_total'' JNull))
                 else se_agreement_status se' \<in> {''disputed_zeroed'', ''unverified_self_play''}))
   | (b', Inl e) \<Rightarrow> b' = b \<and> (\<exists>m. call m = Inl e) \<and> (\<forall>why. e \<noteq> PeerUnavailableError why)"
  by (rule finalize_honest)

text \<open>
  C22. The digest binds every game: when a series is agreed with an opponent that sent the digest of its own
  records, and the two digested texts do not collide, both hold the same games: number, result, both scores
  and steps. Equal totals alone would not do.
\<close>

theorem agreement_binds_every_game:
  assumes "judge totals num (compute_result_digest fr sha ours)
      (Some (build_result_agreement_message uid us csha p t n (compute_result_digest fr sha theirs))) = v"
    and "fa_agreed v"
    and "compute_result_digest fr sha ours = compute_result_digest fr sha theirs \<Longrightarrow>
           compute_result_digest fr id ours = compute_result_digest fr id theirs"
  shows "map view (sort_key sg_number ours) = map view (sort_key sg_number theirs)"
proof -
  obtain a b where totals: "totals = (a, b)" by fastforce
  have "compute_result_digest fr sha ours = compute_result_digest fr sha theirs"
    using assms(1,2) by (auto simp: totals judge_message Final_agreement_def split: if_splits)
  from assms(3) [OF this] show ?thesis
    unfolding compute_result_digest_def canonical_sha256_hex_def id_apply by (rule digest_text_inject)
qed

definition sample_record :: sub_game_record where
  "sample_record = \<lparr>sg_number = 1, sg_result = SURVIVAL, sg_police_score = 5, sg_thief_score = 10,
     sg_steps_taken = 35, sg_audit_verified = True\<rparr>"

theorem agreement_binds_every_game_witness:
  "map view (sort_key sg_number [sample_record]) =
     map view (sort_key sg_number [sample_record\<lparr>sg_audit_verified := False\<rparr>])"
proof (rule agreement_binds_every_game)
  let ?d = "compute_result_digest (\<lambda>_. ''0.1'') id"
  have "?d [sample_record] = ?d [sample_record\<lparr>sg_audit_verified := False\<rparr>]"
    by (simp add: compute_result_digest_def digest_entry_def sample_record_def)
  then show "judge (5, 10) 1 (?d [sample_record]) (Some (build_result_agreement_message ''u'' POLICE ''c'' 5 10 1
      (?d [sample_record\<lparr>sg_audit_verified := False\<rparr>]))) = Final_agreement True ''agreed'' 5 10"
    by (simp add: judge_message)
qed (simp_all add: Final_agreement_def)



text \<open>
  C40. Both peers derive the same identity from the terms they agreed on: the order in which a peer's configuration
  lists its members or the groups does not matter, and each can recompute the signature of the other's
  offer from the terms it received.
\<close>

theorem identity_is_symmetric:
  assumes "distinct (map fst terms)" and "distinct (map fst terms')" and "set terms = set terms'"
    and "mset ids = mset ids'"
  shows "derive_game_uid fr sha terms ids = derive_game_uid fr sha terms' ids' \<and>
    derive_game_id ids = derive_game_id ids' \<and>
    jget (build_signed_negotiate_message fr sha nonce terms gid role_text number cid) ''signature'' JNull =
      JStr (sha (canonical_terms_json fr terms' @ ''|'' @ nonce))"
proof -
  let ?f = "\<lambda>(k, v). (k :: string, canonical_json fr v)"
  have keys: "map fst (map ?f xs) = map fst xs" for xs by auto
  have "sort_key fst (map ?f terms) = sort_key fst (map ?f terms')"
    by (rule sort_key_unique) (simp_all only: keys assms set_map)
  then have c: "canonical_terms_json fr terms = canonical_terms_json fr terms'"
    by (simp add: canonical_terms_json_def)
  have "sort ids = sort ids'" using assms(4) by (metis mset_sort properties_for_sort sorted_sort)
  with c show ?thesis
    by (simp add: derive_game_uid_def derive_game_id_def build_signed_negotiate_message_def)
qed

theorem identity_is_symmetric_witness:
  "derive_game_uid (\<lambda>_. []) id [(''b'', JInt 1), (''a'', JNull)] [''y'', ''x''] =
     derive_game_uid (\<lambda>_. []) id [(''a'', JNull), (''b'', JInt 1)] [''x'', ''y'']"
proof -
  have "set [(''b'', JInt 1), (''a'', JNull)] = set [(''a'', JNull), (''b'', JInt 1)]" by auto
  from identity_is_symmetric [OF _ _ this, where ids = "[''y'', ''x'']" and ids' = "[''x'', ''y'']"
      and fr = "\<lambda>_. []" and sha = id] show ?thesis by simp
qed

end
