(* ===== verification/Client.thy ===== *)
theory Client
  imports RateLimit PyJson
begin

text \<open>
  The calls to the opponent (\<^verbatim>\<open>infrastructure/mcp_client.py\<close>): how a failure is classified, the bounded
  retry of an overloaded peer and the bounded health poll. The transport is a parameter: \<open>reply i\<close> is what
  the attempt number \<open>i\<close> of a call meets. A call returns the backoffs it slept and its outcome.
\<close>

section \<open>What a call can meet\<close>

text \<open>
  A result; one of the exceptions in \<open>_CONNECTION_FAILURES\<close>; a rejected tool call with its message; a
  protocol error with its code, its data and its message.
\<close>

datatype call_reply =
    Data json
  | ConnectionFailure string
  | ToolError string
  | Mcp int json string

definition DEFAULT_RETRY_BACKOFF_SEC :: real where
  "DEFAULT_RETRY_BACKOFF_SEC = 5"

definition DEFAULT_MAX_RETRIES :: nat where
  "DEFAULT_MAX_RETRIES = 3"

definition OVERLOAD_TOOL_ERROR_MESSAGES :: "string list" where
  "OVERLOAD_TOOL_ERROR_MESSAGES =
     [''overloaded: rate_limit_exceeded'', ''overloaded: queue_depth_exceeded'']"

definition REQUEST_TIMEOUT :: int where
  "REQUEST_TIMEOUT = 408"

definition is_connection_timeout :: "int \<Rightarrow> bool" where
  "is_connection_timeout code \<longleftrightarrow> code = REQUEST_TIMEOUT"

definition is_overload_tool_error :: "string \<Rightarrow> bool" where
  "is_overload_tool_error message \<longleftrightarrow> message \<in> set OVERLOAD_TOOL_ERROR_MESSAGES"

text \<open>
  The hint of the peer is taken as it is: any finite number, negative ones included, and \<^verbatim>\<open>True\<close> as 1. A
  non-finite hint is outside the model and reads as the default.
\<close>

definition retry_after :: "json \<Rightarrow> real" where
  "retry_after data =
     (case data of
        JObj d \<Rightarrow>
          (case num_of (jget d ''retry_after_seconds'' JNull) of
             Some (Fin x) \<Rightarrow> x | _ \<Rightarrow> DEFAULT_RETRY_BACKOFF_SEC)
      | _ \<Rightarrow> DEFAULT_RETRY_BACKOFF_SEC)"

section \<open>The retry loop\<close>

text \<open>What the loop does with one reply: it returns, sleeps and goes round, or raises.\<close>

datatype next_move = Answer json | Retry real | Raise py_exc

definition unavailable :: "string \<Rightarrow> string \<Rightarrow> next_move" where
  "unavailable url why = Raise (PeerUnavailableError (''peer at '' @ url @ why))"

definition on_reply :: "string \<Rightarrow> nat \<Rightarrow> call_reply \<Rightarrow> next_move" where
  "on_reply url attempts r =
     (let exhausted = unavailable url ('' stayed overloaded after '' @ str_of_nat attempts @ '' retries'')
      in case r of
           Data d \<Rightarrow> Answer d
         | ConnectionFailure why \<Rightarrow> unavailable url ('' did not respond: '' @ why)
         | ToolError message \<Rightarrow>
             if is_overload_tool_error message \<and> attempts < DEFAULT_MAX_RETRIES
             then Retry DEFAULT_RETRY_BACKOFF_SEC
             else if is_overload_tool_error message then exhausted
             else unavailable url ('' rejected the call: '' @ message)
         | Mcp code data message \<Rightarrow>
             if code = OVERLOAD_ERROR_CODE \<and> attempts < DEFAULT_MAX_RETRIES then Retry (retry_after data)
             else if code = OVERLOAD_ERROR_CODE then exhausted
             else if \<not> is_connection_timeout code then Raise McpError
             else unavailable url ('' did not respond: '' @ message))"

lemma on_reply_retry: "on_reply url attempts r = Retry w \<Longrightarrow> attempts < DEFAULT_MAX_RETRIES"
  by (cases r) (auto simp: on_reply_def unavailable_def Let_def split: if_splits)

function call :: "string \<Rightarrow> (nat \<Rightarrow> call_reply) \<Rightarrow> nat \<Rightarrow> real list \<times> json res" where
  "call url reply attempts =
     (case on_reply url attempts (reply attempts) of
        Answer d \<Rightarrow> ([], Inr d)
      | Raise e \<Rightarrow> ([], Inl e)
      | Retry w \<Rightarrow> (case call url reply (Suc attempts) of (ws, r) \<Rightarrow> (w # ws, r)))"
  by pat_completeness auto
termination
  by (relation "measure (\<lambda>(url, reply, attempts). Suc DEFAULT_MAX_RETRIES - attempts)")
    (auto dest: on_reply_retry)

declare call.simps [simp del]

section \<open>The health poll\<close>

text \<open>
  \<open>health i\<close> is the outcome of the \<open>i\<close>th \<^verbatim>\<open>call_health\<close>; \<open>latest\<close> the text of the last error. The number of
  polls made is returned with the outcome.
\<close>

fun health_loop :: "string \<Rightarrow> (nat \<Rightarrow> json res) \<Rightarrow> nat \<Rightarrow> nat \<Rightarrow> string \<Rightarrow> nat \<times> json res" where
  "health_loop url health i 0 latest =
     (i, Inl (PeerUnavailableError (''peer at '' @ url @ '' never became healthy: '' @ latest)))"
| "health_loop url health i (Suc n) latest =
     (case health i of
        Inr d \<Rightarrow> (Suc i, Inr d)
      | Inl (PeerUnavailableError why) \<Rightarrow> health_loop url health (Suc i) n why
      | Inl e \<Rightarrow> (Suc i, Inl e))"

definition wait_for_health :: "string \<Rightarrow> (nat \<Rightarrow> json res) \<Rightarrow> nat \<Rightarrow> nat \<times> json res" where
  "wait_for_health url health attempts = health_loop url health 0 attempts ''None''"

section \<open>Lemmas\<close>

lemma call_shape:
  "call url reply a = (ws, r) \<Longrightarrow> a \<le> DEFAULT_MAX_RETRIES \<Longrightarrow>
     a + length ws \<le> DEFAULT_MAX_RETRIES \<and>
     (\<forall>i < length ws. on_reply url (a + i) (reply (a + i)) = Retry (ws ! i)) \<and>
     (case r of Inr d \<Rightarrow> on_reply url (a + length ws) (reply (a + length ws)) = Answer d
      | Inl e \<Rightarrow> on_reply url (a + length ws) (reply (a + length ws)) = Raise e)"
proof (induction url reply a arbitrary: ws rule: call.induct)
  case (1 url reply a)
  show ?case
  proof (cases "on_reply url a (reply a)")
    case (Retry w)
    obtain vs where vs: "call url reply (Suc a) = (vs, r)" "ws = w # vs"
      using "1.prems"(1) Retry by (subst (asm) call.simps) (auto split: prod.splits)
    have "Suc a \<le> DEFAULT_MAX_RETRIES" using on_reply_retry [OF Retry] by simp
    note ih = "1.IH" [OF Retry vs(1) this]
    have "on_reply url (a + i) (reply (a + i)) = Retry (ws ! i)" if "i < length ws" for i
      using that ih Retry vs(2) by (cases i) auto
    with ih vs(2) show ?thesis by (cases r) simp_all
  qed (use "1.prems" in \<open>subst (asm) call.simps, auto\<close>)+
qed

lemma on_reply_cases:
  "(\<exists>d. r = Data d \<and> on_reply url a r = Answer d) \<or> (\<exists>w. on_reply url a r = Retry w) \<or>
   (\<exists>why. on_reply url a r = Raise (PeerUnavailableError why)) \<or>
   (\<exists>code data message. r = Mcp code data message \<and> on_reply url a r = Raise McpError)"
  by (cases r) (auto simp: on_reply_def unavailable_def Let_def)

fun peer_down :: "'a res \<Rightarrow> bool" where
  "peer_down (Inl (PeerUnavailableError _)) = True"
| "peer_down _ = False"

lemma peer_downE: "peer_down r \<Longrightarrow> (\<And>why. r = Inl (PeerUnavailableError why) \<Longrightarrow> P) \<Longrightarrow> P"
  by (cases r rule: peer_down.cases) auto

lemma health_loop_stops: "\<not> peer_down (health i) \<Longrightarrow> health_loop url health i (Suc n) latest = (Suc i, health i)"
  by (cases "health i" rule: peer_down.cases) auto

lemma health_loop_shape:
  "health_loop url health i n latest = (k, r) \<Longrightarrow>
     i \<le> k \<and> k \<le> i + n \<and>
     (if peer_down r then k = i + n \<and> (\<forall>j. i \<le> j \<and> j < i + n \<longrightarrow> peer_down (health j))
      else i < k \<and> r = health (k - 1) \<and> (\<forall>j. i \<le> j \<and> Suc j < k \<longrightarrow> peer_down (health j)))"
proof (induction n arbitrary: i latest)
  case 0
  then show ?case by auto
next
  case (Suc n)
  show ?case
  proof (cases "peer_down (health i)")
    case True
    then obtain why where "health i = Inl (PeerUnavailableError why)" by (rule peer_downE)
    with Suc.prems have "health_loop url health (Suc i) n why = (k, r)" by simp
    note ih = Suc.IH [OF this]
    have ge: "i \<le> j \<longleftrightarrow> j = i \<or> Suc i \<le> j" for j by auto
    from ih True show ?thesis by (auto simp: ge split: if_splits)
  next
    case False
    with Suc.prems have "k = Suc i \<and> r = health i" by (simp add: health_loop_stops del: health_loop.simps)
    with False show ?thesis by auto
  qed
qed

section \<open>Properties\<close>


text \<open>
  The health poll is bounded and stops at the first answer: it makes at most the given number of calls,
  reports the peer unavailable exactly after all of them failed so, and otherwise returns what the last call
  made said.
\<close>

lemma health_poll_bounded:
  "case wait_for_health url health attempts of (polls, r) \<Rightarrow>
     polls \<le> attempts \<and>
     (if peer_down r then polls = attempts \<and> list_all (\<lambda>j. peer_down (health j)) [0 ..< attempts]
      else 0 < polls \<and> r = health (polls - 1) \<and> list_all (\<lambda>j. peer_down (health j)) [0 ..< polls - 1])"
  using health_loop_shape [where i = 0 and n = attempts and latest = "''None''" and url = url and health = health]
  by (auto simp: wait_for_health_def list_all_iff split: prod.splits)

end
