(* ===== verification/PyConv.thy ===== *)
theory PyConv
  imports Hints Config Canonical
begin

text \<open>
  Conversions of untyped values: indexing and length, \<^verbatim>\<open>int\<close>, \<^verbatim>\<open>dict\<close>, \<^verbatim>\<open>str.strip\<close>, and sets of values. Every
  place where Python raises is a branch.
\<close>

section \<open>Indexing and length\<close>

text \<open>\<^verbatim>\<open>x[k]\<close> with a string key.\<close>

definition at_key :: "json \<Rightarrow> string \<Rightarrow> json res" where
  "at_key x k = (case x of JObj d \<Rightarrow> jindex d k | _ \<Rightarrow> Inl TypeError)"

definition py_len :: "json \<Rightarrow> nat res" where
  "py_len x =
     (case x of JList xs \<Rightarrow> Inr (length xs) | JStr s \<Rightarrow> Inr (length s) | JObj d \<Rightarrow> Inr (length d)
      | _ \<Rightarrow> Inl TypeError)"

section \<open>Sets of values\<close>

text \<open>Every element must be hashable; members are told apart by \<^verbatim>\<open>==\<close>.\<close>

definition json_in :: "json \<Rightarrow> json list \<Rightarrow> bool" where
  "json_in x xs \<longleftrightarrow> list_ex (\<lambda>y. json_eq y x) xs"

fun dedup :: "json list \<Rightarrow> json list" where
  "dedup [] = []"
| "dedup (x # xs) = (if json_in x xs then dedup xs else x # dedup xs)"

definition py_set :: "json list \<Rightarrow> json list res" where
  "py_set xs = (if list_all hashable xs then Inr (dedup xs) else Inl TypeError)"

text \<open>\<^verbatim>\<open>sorted\<close> of a set needs values of one ordered kind, unless there is nothing to compare.\<close>

definition sortable :: "json list \<Rightarrow> bool" where
  "sortable xs \<longleftrightarrow>
     length xs \<le> 1 \<or> list_all (\<lambda>x. num_of x \<noteq> None) xs \<or> list_all (\<lambda>x. case x of JStr _ \<Rightarrow> True | _ \<Rightarrow> False) xs"

section \<open>Texts and numbers\<close>

definition strip :: "string \<Rightarrow> string" where
  "strip s = rev (dropWhile is_space (rev (dropWhile is_space s)))"

definition is_digit :: "char \<Rightarrow> bool" where
  "is_digit c \<longleftrightarrow> 48 \<le> (of_char c :: nat) \<and> (of_char c :: nat) \<le> 57"

text \<open>The digits of a number, with single underscores between them; the flag says that a digit came before.\<close>

fun digits_of :: "bool \<Rightarrow> string \<Rightarrow> string option" where
  "digits_of prev [] = (if prev then Some [] else None)"
| "digits_of prev (c # s) =
     (if is_digit c then map_option (Cons c) (digits_of True s)
      else if c = CHR ''_'' \<and> prev then digits_of False s else None)"

text \<open>\<^verbatim>\<open>int(text)\<close>: white space around, an optional sign, at most 4300 digits.\<close>

definition int_of_text :: "string \<Rightarrow> int option" where
  "int_of_text s =
     (let t = strip s;
          negative = (take 1 t = ''-'');
          body = (if negative \<or> take 1 t = ''+'' then drop 1 t else t)
      in case digits_of False body of
           None \<Rightarrow> None
         | Some ds \<Rightarrow> if 4300 < length ds then None
             else Some (if negative then - int (nat_of_str ds) else int (nat_of_str ds)))"

definition py_int :: "json \<Rightarrow> int res" where
  "py_int x =
     (case x of
        JInt i \<Rightarrow> Inr i
      | JBool b \<Rightarrow> Inr (if b then 1 else 0)
      | JFloat (Fin r) \<Rightarrow> Inr (if 0 \<le> r then \<lfloor>r\<rfloor> else \<lceil>r\<rceil>)
      | JFloat NaN \<Rightarrow> Inl (ValueError ''cannot convert float NaN to integer'')
      | JFloat _ \<Rightarrow> Inl OverflowError
      | JStr s \<Rightarrow> (case int_of_text s of
            Some i \<Rightarrow> Inr i | None \<Rightarrow> Inl (ValueError ''invalid literal for int()''))
      | _ \<Rightarrow> Inl TypeError)"

lemma py_int_JInt [simp]: "py_int (JInt i) = Inr i"
  by (simp add: py_int_def)

section \<open>Dictionaries\<close>

text \<open>
  \<^verbatim>\<open>dict(x)\<close> of a dict or of an iterable of pairs. The keys may be any hashable value; a key that is given twice
  keeps its first place and its last value.
\<close>

type_synonym pydict = "(json \<times> json) list"

fun dict_put :: "pydict \<Rightarrow> json \<times> json \<Rightarrow> pydict" where
  "dict_put [] kv = [kv]"
| "dict_put ((k, v) # d) kv = (if json_eq k (fst kv) then (k, snd kv) # d else (k, v) # dict_put d kv)"

definition pair_of :: "json \<Rightarrow> (json \<times> json) res" where
  "pair_of x =
     rbind (py_tuple x) (\<lambda>xs. case xs of
       [k, v] \<Rightarrow> (if hashable k then Inr (k, v) else Inl TypeError)
     | _ \<Rightarrow> Inl (ValueError ''dictionary update sequence element''))"

definition py_dict :: "json \<Rightarrow> pydict res" where
  "py_dict x =
     (case x of
        JObj d \<Rightarrow> Inr (map (\<lambda>(k, v). (JStr k, v)) d)
      | _ \<Rightarrow> rbind (py_tuple x) (\<lambda>xs. rbind (traverse pair_of xs) (\<lambda>ps. Inr (foldl dict_put [] ps))))"

definition pydict_get :: "pydict \<Rightarrow> string \<Rightarrow> json \<Rightarrow> json" where
  "pydict_get d k dflt =
     (case List.find (\<lambda>(k', _). json_eq k' (JStr k)) d of Some (_, v) \<Rightarrow> v | None \<Rightarrow> dflt)"

end
