(* ===== verification/Server.thy ===== *)
theory Server
  imports PyConv
begin

text \<open>
  The peer's own server around the router: the bearer-token gate of the public mode
  (\<^verbatim>\<open>infrastructure/auth_middleware.py\<close>, \<^verbatim>\<open>public_auth.py\<close>, \<^verbatim>\<open>sdk/public_mode.py\<close>), the start and the staged
  stop of the HTTP server (\<^verbatim>\<open>server_lifecycle.py\<close>), and the mail credentials (\<^verbatim>\<open>gmail_credentials.py\<close>). What the
  web server does is a parameter: how long its task takes to start and to finish.
\<close>

section \<open>The bearer token\<close>

text \<open>
  Header bytes are the characters 0 to 255, on which decoding Latin-1 is the identity and never fails. When a
  name is given twice the last value counts. \<^verbatim>\<open>hmac.compare_digest\<close> takes only ASCII strings.
\<close>

definition ascii :: "string \<Rightarrow> bool" where
  "ascii s \<longleftrightarrow> list_all (\<lambda>c. (of_char c :: nat) < 128) s"

definition compare_digest :: "string \<Rightarrow> string \<Rightarrow> bool res" where
  "compare_digest a b = (if ascii a \<and> ascii b then Inr (a = b) else Inl TypeError)"

text \<open>\<^verbatim>\<open>text.partition(' ')\<close>, without the separator.\<close>

definition partition_space :: "string \<Rightarrow> string \<times> string" where
  "partition_space t = (takeWhile (\<lambda>c. c \<noteq> CHR '' '') t, tl (dropWhile (\<lambda>c. c \<noteq> CHR '' '') t))"

definition auth_check :: "string \<Rightarrow> (string \<times> string) list \<Rightarrow> string option res" where
  "auth_check expected_token headers =
     (case map_of (rev headers) ''authorization'' of
        None \<Rightarrow> Inr (Some ''missing_authorization'')
      | Some raw \<Rightarrow>
          (case partition_space raw of (scheme, value) \<Rightarrow>
             if scheme \<noteq> ''Bearer'' \<or> value = [] then Inr (Some ''malformed_authorization'')
             else rbind (compare_digest value expected_token) (\<lambda>same.
               Inr (if \<not> same then Some ''invalid_token'' else None))))"

text \<open>What becomes of a request: the inner application runs, or a 401 with its reason, or an exception.\<close>

datatype gate = Forward | Unauthorized string

definition middleware_call :: "string \<Rightarrow> string \<Rightarrow> (string \<times> string) list \<Rightarrow> gate res" where
  "middleware_call expected_token scope_type headers =
     (if scope_type \<noteq> ''http'' then Inr Forward
      else rbind (auth_check expected_token headers) (\<lambda>reason.
        Inr (case reason of Some why \<Rightarrow> Unauthorized why | None \<Rightarrow> Forward)))"

section \<open>The tokens of the environment\<close>

datatype public_error = PublicModeError | PublicAuthError string

definition env_get :: "(string \<times> string) list \<Rightarrow> string \<Rightarrow> string" where
  "env_get env k = (case map_of env k of None \<Rightarrow> [] | Some v \<Rightarrow> v)"

definition resolve_public_tokens ::
    "(string \<times> string) list \<Rightarrow> bool \<Rightarrow> public_error + (string option \<times> string option)" where
  "resolve_public_tokens env public =
     (if \<not> public then Inr (None, None)
      else let token = strip (env_get env ''PUBLIC_BIND_TOKEN'');
               opponent_token = strip (env_get env ''OPPONENT_MCP_TOKEN'')
           in if token = [] then Inl PublicModeError
              else Inr (Some token, if opponent_token = [] then None else Some opponent_token))"

definition resolve_bind_token :: "(string \<times> string) list \<Rightarrow> public_error + string" where
  "resolve_bind_token env =
     (case map_of env ''PUBLIC_BIND_TOKEN'' of
        None \<Rightarrow> Inl (PublicAuthError ''not set'')
      | Some token \<Rightarrow>
          if token = [] then Inl (PublicAuthError ''not set'')
          else if length token < 32 then Inl (PublicAuthError ''too short'')
          else Inr token)"

definition verify_bearer_token :: "string option \<Rightarrow> string \<Rightarrow> bool res" where
  "verify_bearer_token presented expected =
     (case presented of None \<Rightarrow> Inr False | Some p \<Rightarrow> compare_digest p expected)"

section \<open>The life of the server\<close>

definition ALLOWED_LOCAL_HOSTS :: "string list" where
  "ALLOWED_LOCAL_HOSTS = [''127.0.0.1'', ''localhost'', ''::1'']"

datatype shutdown_outcome = GRACEFUL | FORCED | CANCELLED | ALREADY_STOPPED

record shutdown_result =
  sd_outcome :: shutdown_outcome
  sd_graceful_timed_out :: bool
  sd_forced_timed_out :: bool

definition exit_code :: "shutdown_result \<Rightarrow> int" where
  "exit_code r = (if sd_outcome r \<in> {GRACEFUL, ALREADY_STOPPED} then 0 else 1)"

text \<open>The server task does not exist before the start; then it runs, and it ends normally or with an exception.\<close>

datatype server_task = NotStarted | Running | Finished "unit res"

record managed_server =
  sv_host :: string
  sv_port :: int
  sv_task :: server_task
  should_exit :: bool
  force_exit :: bool
  cancelled :: bool

definition managed_server_init :: "string \<Rightarrow> int \<Rightarrow> managed_server res" where
  "managed_server_init host port =
     (if host \<notin> set ALLOWED_LOCAL_HOSTS then Inl (ValueError ''refusing to bind'')
      else Inr \<lparr>sv_host = host, sv_port = port, sv_task = NotStarted, should_exit = False,
                force_exit = False, cancelled = False\<rparr>)"

text \<open>
  The start waits until the server listens or its task is done: \<open>started i\<close> and \<open>ended i\<close> are what the \<open>i\<close>th check
  sees. A server that does neither is waited for without end.
\<close>

partial_function (option) start_loop :: "(nat \<Rightarrow> bool) \<Rightarrow> (nat \<Rightarrow> unit res option) \<Rightarrow> nat \<Rightarrow> nat option" where
  "start_loop started ended i =
     (if \<not> started i \<and> ended i = None then start_loop started ended (Suc i) else Some i)"

definition start_server ::
    "(nat \<Rightarrow> bool) \<Rightarrow> (nat \<Rightarrow> unit res option) \<Rightarrow> managed_server \<Rightarrow> (managed_server \<times> unit res) option" where
  "start_server started ended sv =
     (case start_loop started ended 0 of
        None \<Rightarrow> None
      | Some i \<Rightarrow> Some (case ended i of
            None \<Rightarrow> (sv\<lparr>sv_task := Running\<rparr>, Inr ())
          | Some r \<Rightarrow> (sv\<lparr>sv_task := Finished r\<rparr>, r)))"

text \<open>
  One bounded wait: the task ended with \<open>r\<close> within the time, or it did not. An exception of the task passes
  through; the shield keeps the task running when the wait times out.
\<close>

definition await_bounded :: "unit res option \<Rightarrow> (managed_server, bool) eff" where
  "await_bounded ended sv =
     (case ended of
        None \<Rightarrow> (sv, Inr False)
      | Some (Inr _) \<Rightarrow> (sv\<lparr>sv_task := Finished (Inr ())\<rparr>, Inr True)
      | Some (Inl e) \<Rightarrow> (sv\<lparr>sv_task := Finished (Inl e)\<rparr>, Inl e))"

definition Shutdown_result :: "shutdown_outcome \<Rightarrow> bool \<Rightarrow> bool \<Rightarrow> shutdown_result" where
  "Shutdown_result oc g f = \<lparr>sd_outcome = oc, sd_graceful_timed_out = g, sd_forced_timed_out = f\<rparr>"

text \<open>
  The stop: \<open>graceful\<close> and \<open>forced\<close> are what the two bounded waits see, \<open>final\<close> how the task ends after the
  cancellation, of which only the cancellation itself is suppressed.
\<close>

definition stop_server ::
    "unit res option \<Rightarrow> unit res option \<Rightarrow> unit res \<Rightarrow> (managed_server, shutdown_result) eff" where
  "stop_server graceful forced final sv =
     (if sv_task sv \<noteq> Running then (sv, Inr (Shutdown_result ALREADY_STOPPED False False))
      else ebind (await_bounded graceful) (\<lambda>done1.
        if done1 then eret (Shutdown_result GRACEFUL False False)
        else ebind (emodify (\<lambda>s. s\<lparr>force_exit := True\<rparr>)) (\<lambda>_.
          ebind (await_bounded forced) (\<lambda>done2.
            if done2 then eret (Shutdown_result FORCED True False)
            else ebind (emodify (\<lambda>s. s\<lparr>cancelled := True, sv_task := Finished final\<rparr>)) (\<lambda>_.
              case final of
                Inl CancelledError \<Rightarrow> eret (Shutdown_result CANCELLED True True)
              | Inl e \<Rightarrow> eraise e
              | Inr _ \<Rightarrow> eret (Shutdown_result CANCELLED True True)))))
          (sv\<lparr>should_exit := True\<rparr>))"

section \<open>Mail credentials\<close>

definition REQUIRED_SCOPE :: string where
  "REQUIRED_SCOPE = ''https://www.googleapis.com/auth/gmail.send''"

definition FORBIDDEN_BROAD_SCOPES :: "string list" where
  "FORBIDDEN_BROAD_SCOPES =
     [''https://www.googleapis.com/auth/gmail.modify'', ''https://www.googleapis.com/auth/gmail.compose'',
      ''https://www.googleapis.com/auth/gmail.readonly'', ''https://mail.google.com/'']"

datatype credential_error = CredentialResolutionError string

definition assert_scope_is_send_only :: "string list \<Rightarrow> credential_error + unit" where
  "assert_scope_is_send_only scopes =
     (let forbidden = filter (\<lambda>s. s \<in> set FORBIDDEN_BROAD_SCOPES) scopes
      in if forbidden \<noteq> [] then Inl (CredentialResolutionError ''forbidden broad Gmail scope(s) requested'')
         else if REQUIRED_SCOPE \<notin> set scopes then Inl (CredentialResolutionError ''missing required scope'')
         else Inr ())"

text \<open>\<open>present\<close> is whether a file exists; the directory is given without a trailing slash.\<close>

definition resolve_credential_paths ::
    "(string \<Rightarrow> bool) \<Rightarrow> (string \<times> string) list \<Rightarrow> credential_error + (string \<times> string)" where
  "resolve_credential_paths present env =
     (let directory = env_get env ''GOOGLE_OAUTH_CREDENTIAL_DIR'';
          credentials_path = directory @ ''/credentials.json'';
          token_path = directory @ ''/token.json''
      in if directory = [] then Inl (CredentialResolutionError ''GOOGLE_OAUTH_CREDENTIAL_DIR is not set'')
         else if \<not> present credentials_path
         then Inl (CredentialResolutionError (''missing credentials file at '' @ credentials_path))
         else if \<not> present token_path
         then Inl (CredentialResolutionError (''missing token file at '' @ token_path))
         else Inr (credentials_path, token_path))"

section \<open>Lemmas\<close>

lemma partition_bearer:
  "partition_space raw = (''Bearer'', value) \<and> value \<noteq> [] \<longleftrightarrow> raw = ''Bearer '' @ value \<and> value \<noteq> []"
proof
  assume p: "partition_space raw = (''Bearer'', value) \<and> value \<noteq> []"
  have "takeWhile (\<lambda>c. c \<noteq> CHR '' '') raw @ dropWhile (\<lambda>c. c \<noteq> CHR '' '') raw = raw"
    by (rule takeWhile_dropWhile_id)
  moreover from p have "dropWhile (\<lambda>c. c \<noteq> CHR '' '') raw = CHR '' '' # value"
    by (cases "dropWhile (\<lambda>c. c \<noteq> CHR '' '') raw")
      (auto simp: partition_space_def dropWhile_eq_Cons_conv)
  ultimately show "raw = ''Bearer '' @ value \<and> value \<noteq> []"
    using p by (auto simp: partition_space_def)
next
  assume "raw = ''Bearer '' @ value \<and> value \<noteq> []"
  then show "partition_space raw = (''Bearer'', value) \<and> value \<noteq> []"
    by (simp add: partition_space_def)
qed

lemma start_loop_reaches:
  "(\<forall>j < k. \<not> started (i + j) \<and> ended (i + j) = None) \<Longrightarrow> started (i + k) \<or> ended (i + k) \<noteq> None \<Longrightarrow>
     start_loop started ended i = Some (i + k)"
proof (induction k arbitrary: i)
  case 0
  then show ?case by (subst start_loop.simps) auto
next
  case (Suc k)
  have "start_loop started ended (Suc i) = Some (Suc i + k)"
    using Suc.prems by (intro Suc.IH) (auto dest: spec [where x = "Suc j" for j])
  moreover from Suc.prems(1) have "\<not> started i" "ended i = None" by (auto dest: spec [of _ 0])
  ultimately show ?case by (subst start_loop.simps) simp
qed

section \<open>Properties\<close>



text \<open>
  The start returns exactly when the server listens or its task ends, at the first check that sees either, and a
  task that failed makes the start fail with its exception.
\<close>

lemma start_returns_when_up:
  assumes "started k \<or> ended k \<noteq> None" and "\<forall>j < k. \<not> started j \<and> ended j = None"
  shows "start_server started ended sv = Some (case ended k of
      None \<Rightarrow> (sv\<lparr>sv_task := Running\<rparr>, Inr ())
    | Some r \<Rightarrow> (sv\<lparr>sv_task := Finished r\<rparr>, r))"
  using start_loop_reaches [of k started 0 ended] assms by (simp add: start_server_def)

text \<open>
  C31. Stopping a running server escalates honestly: cancellation only after both waits ran out, force only after the
  first, the flags of the result say which waits ran out, the exit code is 0 exactly for a clean stop, and in
  every case, exceptions included, the task has ended.
\<close>

theorem stop_escalates_honestly:
  assumes "sv_task sv = Running" and "\<not> force_exit sv" and "\<not> cancelled sv"
  shows "case stop_server graceful forced final sv of (sv', r) \<Rightarrow>
    sv_task sv' \<noteq> Running \<and> should_exit sv' \<and>
    (force_exit sv' \<longleftrightarrow> graceful = None) \<and>
    (cancelled sv' \<longleftrightarrow> graceful = None \<and> forced = None) \<and>
    (case r of
       Inr res \<Rightarrow> (exit_code res = 0 \<longleftrightarrow> \<not> force_exit sv') \<and>
         sd_graceful_timed_out res = force_exit sv' \<and> sd_forced_timed_out res = cancelled sv'
     | Inl e \<Rightarrow> Some (Inl e) \<in> {graceful, forced, Some final})"
proof -
  consider "graceful = None" "forced = None" | e where "graceful = Some (Inl e)" | "graceful = Some (Inr ())"
    | e where "graceful = None" "forced = Some (Inl e)" | "graceful = None" "forced = Some (Inr ())"
    by (metis (full_types) obj_sumE old.unit.exhaust option.exhaust)
  then show ?thesis
  proof cases
    case 1
    show ?thesis
    proof (cases final)
      case (Inl e)
      with 1 assms show ?thesis
        by (cases e) (simp_all add: stop_server_def await_bounded_def eff_defs Shutdown_result_def exit_code_def)
    qed (use 1 assms in \<open>simp add: stop_server_def await_bounded_def eff_defs Shutdown_result_def exit_code_def\<close>)
  qed (use assms in \<open>simp_all add: stop_server_def await_bounded_def eff_defs Shutdown_result_def exit_code_def\<close>)
qed

theorem stop_escalates_honestly_witness:
  "case stop_server None (Some (Inr ())) (Inr ())
     \<lparr>sv_host = ''localhost'', sv_port = 8001, sv_task = Running, should_exit = False, force_exit = False,
      cancelled = False\<rparr> of (sv', r) \<Rightarrow> sv_task sv' \<noteq> Running \<and> force_exit sv' \<and> \<not> cancelled sv'"
  using stop_escalates_honestly [where sv = "\<lparr>sv_host = ''localhost'', sv_port = 8001, sv_task = Running,
      should_exit = False, force_exit = False, cancelled = False\<rparr>" and graceful = None
      and forced = "Some (Inr ())" and final = "Inr ()"]
  by (auto split: prod.splits)

end
