(* ===== verification/Replay.thy ===== *)
theory Replay
  imports Turn PyConv
begin

text \<open>
  The offline verifier of published artifacts: rebuilding the sealed payloads from the steps of a log
  (\<^verbatim>\<open>services/replay_checks.py\<close>), the audit and the checks per log and per score, loading a directory
  (\<^verbatim>\<open>replay_loader.py\<close>), the verdict (\<^verbatim>\<open>replay_verifier.py\<close>) and the verification of both sides
  (\<^verbatim>\<open>bilateral_verify.py\<close>). A file holds any JSON, so a rebuilt payload keeps untyped values. Findings are
  values; their texts are left out. \<open>H\<close> is the digest and \<open>rp\<close> the runtime's \<^verbatim>\<open>str\<close> of floats and containers.
\<close>

section \<open>Operations on untyped values\<close>

definition float_le :: "pyfloat \<Rightarrow> pyfloat \<Rightarrow> bool" where
  "float_le x y \<longleftrightarrow> float_lt x y \<or> float_eq x y"

text \<open>\<^verbatim>\<open>0 <= x < n\<close>, the second comparison made only after the first holds.\<close>

definition in_range :: "json \<Rightarrow> json \<Rightarrow> bool res" where
  "in_range x n =
     (case num_of x of
        None \<Rightarrow> Inl TypeError
      | Some f \<Rightarrow>
          if \<not> float_le (Fin 0) f then Inr False
          else (case num_of n of None \<Rightarrow> Inl TypeError | Some g \<Rightarrow> Inr (float_lt f g)))"

section \<open>Payloads rebuilt from a log\<close>

record raw_payload =
  rw_step :: json
  rw_role :: json
  rw_sub_game_number :: json
  rw_position :: "json list"
  rw_move :: json
  rw_intent :: json
  rw_hint :: json
  rw_scent_digest :: json
  rw_scent_grid :: "json list list"
  rw_timestamp :: json
  rw_nonce :: json
  rw_config_sha256 :: json
  rw_barrier_placed :: "json list option"
  rw_capture_claim :: "json list option"
  rw_claim_response :: json
  rw_win_claim :: json
  rw_schema_version :: json
  rw_legacy_state :: json

text \<open>\<^verbatim>\<open>pos=(-?\d+),(-?\d+)\<close>, searched from the left.\<close>

definition match_int :: "string \<Rightarrow> (int \<times> string) option" where
  "match_int s =
     (let neg = (case s of c # _ \<Rightarrow> c = CHR ''-'' | [] \<Rightarrow> False);
          t = (if neg then tl s else s);
          ds = takeWhile is_digit t; v = int (nat_of_str ds)
      in if ds = [] then None else Some (if neg then - v else v, drop (length ds) t))"

definition match_position :: "string \<Rightarrow> (int \<times> int) option" where
  "match_position s =
     (if take 4 s \<noteq> ''pos='' then None
      else case match_int (drop 4 s) of
          Some (r, c # rest) \<Rightarrow>
            (if c \<noteq> CHR '','' then None else map_option (\<lambda>(q, _). (r, q)) (match_int rest))
        | _ \<Rightarrow> None)"

fun search_position :: "string \<Rightarrow> (int \<times> int) option" where
  "search_position [] = None"
| "search_position (c # s) =
     (case match_position (c # s) of Some p \<Rightarrow> Some p | None \<Rightarrow> search_position s)"

definition position_from_legacy_state :: "json \<Rightarrow> (int \<times> int) res" where
  "position_from_legacy_state state =
     (case state of
        JStr s \<Rightarrow> Inr (case search_position s of Some p \<Rightarrow> p | None \<Rightarrow> (0, 0))
      | _ \<Rightarrow> Inl TypeError)"

definition tuple_if :: "json \<Rightarrow> json list option res" where
  "tuple_if x = (if truthy x then rbind (py_tuple x) (\<lambda>xs. Inr (Some xs)) else Inr None)"

definition payload_from_step :: "json \<Rightarrow> raw_payload res" where
  "payload_from_step v =
     rbind (obj_or_raise v) (\<lambda>step.
     rbind (if jhas step ''position'' then rbind (py_tuple (jget step ''position'' JNull)) (\<lambda>p. Inr (p, JNull))
            else let state = jget step ''state'' (JStr []) in
              rbind (position_from_legacy_state state) (\<lambda>(r, c). Inr ([JInt r, JInt c], state)))
       (\<lambda>(position, legacy_state).
     rbind (jindex step ''step'') (\<lambda>st.
     rbind (jindex step ''role'') (\<lambda>rl.
     rbind (jindex step ''sub_game_number'') (\<lambda>num.
     rbind (jindex step ''move'') (\<lambda>mv.
     rbind (tuple_if (jget step ''barrier_placed'' JNull)) (\<lambda>barrier.
     rbind (tuple_if (jget step ''capture_claim'' JNull)) (\<lambda>claim.
     rbind (jindex step ''intent'') (\<lambda>it.
     rbind (jindex step ''hint'') (\<lambda>ht.
     rbind (jindex step ''scent_digest'') (\<lambda>sd.
     rbind (if jhas step ''scent_grid'' then
              rbind (py_tuple (jget step ''scent_grid'' JNull)) (\<lambda>rows. traverse py_tuple rows)
            else Inr []) (\<lambda>grid.
     rbind (jindex step ''timestamp'') (\<lambda>ts.
     rbind (jindex step ''nonce'') (\<lambda>nc.
     rbind (jindex step ''config_sha256'') (\<lambda>sha.
       Inr \<lparr>rw_step = st, rw_role = rl, rw_sub_game_number = num, rw_position = position, rw_move = mv,
            rw_intent = it, rw_hint = ht, rw_scent_digest = sd, rw_scent_grid = grid, rw_timestamp = ts,
            rw_nonce = nc, rw_config_sha256 = sha, rw_barrier_placed = barrier, rw_capture_claim = claim,
            rw_claim_response = jget step ''claim_response'' JNull,
            rw_win_claim = jget step ''win_claim'' (JBool False),
            rw_schema_version = jget step ''schema_version'' (JStr ''sealed-turn/1''),
            rw_legacy_state = legacy_state\<rparr>)))))))))))))))"

text \<open>\<^verbatim>\<open>SealedTurnPayload.to_canonical_dict\<close> on such a payload; unpacking a legacy position needs two cells.\<close>

definition raw_cell :: "json list option \<Rightarrow> json" where
  "raw_cell x = (case x of Some (y # ys) \<Rightarrow> JList (y # ys) | _ \<Rightarrow> JNull)"

definition raw_canonical_dict :: "(json \<Rightarrow> string) \<Rightarrow> raw_payload \<Rightarrow> jobj res" where
  "raw_canonical_dict rp p =
     rbind (if json_in (rw_schema_version p) (map JStr LEGACY_SCHEMAS) then
              (case rw_position p of
                 [r, c] \<Rightarrow> Inr (''state'', if \<not> is_null (rw_legacy_state p) then rw_legacy_state p
                   else JStr (''pos='' @ py_str rp r @ '','' @ py_str rp c @ '';visited=1''))
               | _ \<Rightarrow> Inl (ValueError ''values to unpack''))
            else Inr (''position'', JList (rw_position p)))
       (\<lambda>place. Inr
          [(''schema_version'', rw_schema_version p),
           (''step'', rw_step p),
           (''role'', rw_role p),
           (''sub_game_number'', rw_sub_game_number p),
           place,
           (''move'', rw_move p),
           (''intent'', rw_intent p),
           (''hint'', rw_hint p),
           (''scent_digest'', rw_scent_digest p),
           (''scent_grid'', JList (map JList (rw_scent_grid p))),
           (''barrier_placed'', raw_cell (rw_barrier_placed p)),
           (''capture_claim'', raw_cell (rw_capture_claim p)),
           (''claim_response'', rw_claim_response p),
           (''win_claim'', rw_win_claim p),
           (''config_sha256'', rw_config_sha256 p),
           (''timestamp'', rw_timestamp p),
           (''nonce'', rw_nonce p)])"

section \<open>The audit of rebuilt records\<close>

text \<open>The stored hash may be anything; comparing digests needs two ASCII strings.\<close>

definition digest_matches :: "digest \<Rightarrow> (json \<Rightarrow> string) \<Rightarrow> raw_payload \<times> json \<Rightarrow> bool res" where
  "digest_matches H rp r =
     rbind (raw_canonical_dict rp (fst r)) (\<lambda>d.
       case snd r of
         JStr h \<Rightarrow> (if list_all (\<lambda>c. (of_char c :: nat) < 128) h then Inr (H (JObj d) = h) else Inl TypeError)
       | _ \<Rightarrow> Inl TypeError)"

fun nonces_reused :: "json list \<Rightarrow> json list \<Rightarrow> bool" where
  "nonces_reused seen [] = False"
| "nonces_reused seen (n # ns) = (json_in n seen \<or> nonces_reused (n # seen) ns)"

definition raw_audit :: "digest \<Rightarrow> (json \<Rightarrow> string) \<Rightarrow> (raw_payload \<times> json) list \<Rightarrow> bool res" where
  "raw_audit H rp records =
     rbind (traverse (digest_matches H rp) records) (\<lambda>oks.
       let ns = map (\<lambda>r. rw_nonce (fst r)) records;
           mismatched = map (\<lambda>(r, ok). rw_step (fst r)) (filter (\<lambda>(r, ok). \<not> ok) (zip records oks))
       in if \<not> list_all hashable ns then Inl TypeError
          else rbind (py_set mismatched) (\<lambda>ms.
            if \<not> sortable ms then Inl TypeError
            else Inr (mismatched = [] \<and> \<not> nonces_reused [] ns)))"

definition raw_steps_in_order :: "raw_payload list \<Rightarrow> bool" where
  "raw_steps_in_order ps \<longleftrightarrow>
     list_all (\<lambda>(i, p). json_eq (rw_step p) (JInt (int i))) (List.enumerate 0 ps)"

section \<open>The checks of one log\<close>

datatype finding =
    AuditFailed json
  | OutOfOrder json
  | OutOfBounds json string
  | WrongRoleField json json string
  | UnknownFields json json "string list"
  | ScoreMismatch json
  | TotalsNotZeroed
  | TotalsMismatch
  | GameUidInconsistent
  | ConfigHashDiffers
  | CountsDiffer
  | DuplicateSubGame string
  | StepCountDiffers json
  | ScoreRecomputationFailed
  | LoadFailed
  | MissingArtifacts

definition LOG_STEP_EXTRA_KEYS :: "string list" where
  "LOG_STEP_EXTRA_KEYS = [''commit_hash'']"

definition check_bounds :: "json \<Rightarrow> json \<Rightarrow> jobj \<Rightarrow> string \<Rightarrow> finding list res" where
  "check_bounds number board_n step name =
     (let cell = jget step name JNull
      in if is_null cell then Inr []
         else rbind (item_at cell 0) (\<lambda>r. rbind (in_range r board_n) (\<lambda>ok1.
              if \<not> ok1 then Inr [OutOfBounds number name]
              else rbind (item_at cell 1) (\<lambda>c. rbind (in_range c board_n) (\<lambda>ok2.
                Inr (if \<not> ok2 then [OutOfBounds number name] else []))))))"

definition check_role_fields :: "jobj \<Rightarrow> json \<Rightarrow> finding list" where
  "check_role_fields step number =
     (let st = jget step ''step'' JNull;
          flag = (\<lambda>bad name. if bad then [WrongRoleField number st name] else [])
      in if json_eq (jget step ''role'' JNull) (JStr ''thief'') then
           flag (\<not> is_null (jget step ''barrier_placed'' JNull)) ''barrier_placed'' @
           flag (\<not> is_null (jget step ''capture_claim'' JNull)) ''capture_claim''
         else if json_eq (jget step ''role'' JNull) (JStr ''police'') then
           flag (\<not> is_null (jget step ''claim_response'' JNull)) ''claim_response'' @
           flag (truthy (jget step ''win_claim'' JNull)) ''win_claim''
         else [])"

definition check_unknown_fields :: "jobj \<Rightarrow> json \<Rightarrow> finding list" where
  "check_unknown_fields step number =
     (if \<not> json_eq (jget step ''schema_version'' JNull) (JStr CURRENT_SCHEMA_VERSION) then []
      else let extra = filter (\<lambda>k. k \<notin> set CANONICAL_FIELD_SET \<and> k \<notin> set LOG_STEP_EXTRA_KEYS) (map fst step)
           in if extra \<noteq> [] then [UnknownFields number (jget step ''step'' JNull) (sort extra)] else [])"

definition check_step :: "json \<Rightarrow> json \<Rightarrow> json \<Rightarrow> finding list res" where
  "check_step number board_n v =
     rbind (obj_or_raise v) (\<lambda>step.
     rbind (check_bounds number board_n step ''barrier_placed'') (\<lambda>f1.
     rbind (check_bounds number board_n step ''capture_claim'') (\<lambda>f2.
       Inr (f1 @ f2 @ check_role_fields step number @ check_unknown_fields step number))))"

text \<open>Iterating over \<^verbatim>\<open>log["steps"]\<close>: a string gives characters, on which the rebuilding raises.\<close>

definition rebuild :: "json \<Rightarrow> (raw_payload \<times> json) res" where
  "rebuild v = rbind (payload_from_step v) (\<lambda>p. rbind (at_key v ''commit_hash'') (\<lambda>h. Inr (p, h)))"

definition verify_log :: "digest \<Rightarrow> (json \<Rightarrow> string) \<Rightarrow> jobj \<Rightarrow> json \<Rightarrow> finding list res" where
  "verify_log H rp log_dict board_n =
     (let number = jget log_dict ''sub_game_number'' (JStr ''?'') in
      rbind (jindex log_dict ''steps'') (\<lambda>steps_json.
      rbind (py_tuple steps_json) (\<lambda>steps.
      rbind (traverse rebuild steps) (\<lambda>records.
      rbind (raw_audit H rp records) (\<lambda>ok.
      rbind (traverse (check_step number board_n) steps) (\<lambda>fs.
        Inr ((if \<not> ok then [AuditFailed number] else []) @
             (if \<not> raw_steps_in_order (map fst records) then [OutOfOrder number] else []) @
             concat fs)))))))"

section \<open>The checks of the scores\<close>

definition scoring_from_terms :: "json \<Rightarrow> jobj res" where
  "scoring_from_terms terms =
     rbind (at_key terms ''scoring'') (\<lambda>v. rbind (obj_or_raise v) (\<lambda>section.
       construct Scoring_fields [] (clean section)))"

definition outcome_of :: "json \<Rightarrow> sub_game_result res" where
  "outcome_of v =
     (case List.find (\<lambda>r. json_eq (JStr (result_value r)) v) [CAPTURE, SURVIVAL, TECHNICAL_LOSS] of
        Some r \<Rightarrow> Inr r | None \<Rightarrow> Inl (ValueError ''not a valid SubGameResult''))"

text \<open>\<^verbatim>\<open>score_sub_game\<close> on scores that are whatever the file says.\<close>

definition expected_scores :: "jobj \<Rightarrow> sub_game_result \<Rightarrow> json \<times> json" where
  "expected_scores sc r =
     (case r of
        CAPTURE \<Rightarrow> (attr sc ''capture_cop'', attr sc ''capture_thief'')
      | SURVIVAL \<Rightarrow> (attr sc ''survival_cop'', attr sc ''survival_thief'')
      | TECHNICAL_LOSS \<Rightarrow> (attr sc ''technical_loss'', attr sc ''technical_loss''))"

text \<open>\<^verbatim>\<open>a + b\<close> of a running sum and a value: numbers only.\<close>

definition add_float :: "pyfloat \<Rightarrow> pyfloat \<Rightarrow> pyfloat" where
  "add_float x y =
     (case (x, y) of
        (Fin a, Fin b) \<Rightarrow> Fin (a + b)
      | (NaN, _) \<Rightarrow> NaN | (_, NaN) \<Rightarrow> NaN
      | (PosInf, NegInf) \<Rightarrow> NaN | (NegInf, PosInf) \<Rightarrow> NaN
      | (Fin _, z) \<Rightarrow> z | (z, _) \<Rightarrow> z)"

definition py_add :: "json \<Rightarrow> json \<Rightarrow> json res" where
  "py_add x y =
     (case (x, y) of
        (JInt a, JInt b) \<Rightarrow> Inr (JInt (a + b))
      | (JInt a, JBool b) \<Rightarrow> Inr (JInt (a + (if b then 1 else 0)))
      | _ \<Rightarrow> (case (num_of x, num_of y) of
            (Some f, Some g) \<Rightarrow> Inr (JFloat (add_float f g)) | _ \<Rightarrow> Inl TypeError))"

definition pair_eq :: "json \<times> json \<Rightarrow> json \<times> json \<Rightarrow> bool" where
  "pair_eq a b \<longleftrightarrow> json_eq (fst a) (fst b) \<and> json_eq (snd a) (snd b)"

text \<open>One entry: the findings so far and the two sums.\<close>

definition score_entry ::
    "jobj \<Rightarrow> finding list \<times> json \<times> json \<Rightarrow> json \<Rightarrow> (finding list \<times> json \<times> json) res" where
  "score_entry sc = (\<lambda>(fs, police_sum, thief_sum) entry.
     rbind (at_key entry ''result'') (\<lambda>rv.
     rbind (outcome_of rv) (\<lambda>outcome.
     rbind (at_key entry ''police_score'') (\<lambda>p.
     rbind (at_key entry ''thief_score'') (\<lambda>t.
     rbind (if \<not> pair_eq (p, t) (expected_scores sc outcome)
            then rbind (at_key entry ''sub_game_number'') (\<lambda>n. Inr (fs @ [ScoreMismatch n])) else Inr fs) (\<lambda>fs'.
     rbind (py_add police_sum p) (\<lambda>police_sum'.
     rbind (py_add thief_sum t) (\<lambda>thief_sum'.
       Inr (fs', police_sum', thief_sum')))))))))"

definition verify_scores :: "jobj \<Rightarrow> jobj \<Rightarrow> finding list res" where
  "verify_scores result sc =
     rbind (jindex result ''sub_games'') (\<lambda>gv. rbind (py_tuple gv) (\<lambda>games.
     rbind (rfold (score_entry sc) ([], JInt 0, JInt 0) games) (\<lambda>(fs, police_sum, thief_sum).
     rbind (jindex result ''police_total'') (\<lambda>pt. rbind (jindex result ''thief_total'') (\<lambda>tt.
       Inr (fs @
         (if json_eq (jget result ''agreement_status'' JNull) (JStr ''disputed_zeroed'') then
            (if \<not> pair_eq (pt, tt) (JInt 0, JInt 0) then [TotalsNotZeroed] else [])
          else if \<not> pair_eq (police_sum, thief_sum) (pt, tt) then [TotalsMismatch] else [])))))))"

section \<open>The bundle\<close>

text \<open>
  A directory is its files in the order of their names, each with what parsing its text gives. \<^verbatim>\<open>glob\<close> takes
  the names with the prefix and the suffix.
\<close>

type_synonym directory = "(string \<times> json res) list"

definition glob :: "string \<Rightarrow> directory \<Rightarrow> directory" where
  "glob stem dir =
     filter (\<lambda>(name, _). take (length stem) name = stem \<and>
       length stem + 5 \<le> length name \<and> drop (length name - 5) name = ''.json'') (sort_key fst dir)"

definition load_json :: "json res \<Rightarrow> jobj res" where
  "load_json file =
     rbind file (\<lambda>v. case v of JObj d \<Rightarrow> Inr d | _ \<Rightarrow> Inl (SchemaValidationError ''not a JSON object''))"

record replay_bundle =
  rb_declaration :: "jobj option"
  rb_configs :: "jobj list"
  rb_logs :: "jobj list"
  rb_result :: "jobj option"

definition all_dicts :: "replay_bundle \<Rightarrow> jobj list" where
  "all_dicts b =
     rb_configs b @ rb_logs b @ (case rb_declaration b of Some d \<Rightarrow> [d] | None \<Rightarrow> []) @
     (case rb_result b of Some d \<Rightarrow> [d] | None \<Rightarrow> [])"

definition load_one :: "directory \<Rightarrow> jobj option res" where
  "load_one files =
     (case files of [] \<Rightarrow> Inr None | (_, f) # _ \<Rightarrow> rbind (load_json f) (\<lambda>d. Inr (Some d)))"

definition load_bundle :: "directory \<Rightarrow> replay_bundle res" where
  "load_bundle dir =
     rbind (load_one (glob ''declaration_'' dir)) (\<lambda>decl.
     rbind (traverse (\<lambda>(_, f). load_json f) (glob ''config_'' dir)) (\<lambda>configs.
     rbind (traverse (\<lambda>(_, f). load_json f) (glob ''log_'' dir)) (\<lambda>logs.
     rbind (load_one (glob ''result_'' dir)) (\<lambda>result.
       Inr \<lparr>rb_declaration = decl, rb_configs = configs, rb_logs = logs, rb_result = result\<rparr>))))"

section \<open>The verdict\<close>

definition check_game_uid :: "replay_bundle \<Rightarrow> finding list res" where
  "check_game_uid b =
     rbind (py_set (map (\<lambda>d. jget d ''game_uid'' JNull) (all_dicts b))) (\<lambda>uids.
       Inr (if length uids \<noteq> 1 \<or> json_in JNull uids then [GameUidInconsistent] else []))"

definition check_config_hashes :: "replay_bundle \<Rightarrow> finding list res" where
  "check_config_hashes b =
     rbind (py_set (map (\<lambda>d. jget d ''config_sha256'' JNull) (rb_configs b) @
         (case rb_result b of None \<Rightarrow> [] | Some d \<Rightarrow> [jget d ''config_sha256'' JNull]))) (\<lambda>hashes.
       Inr (if 1 < length hashes then [ConfigHashDiffers] else []))"

definition check_counts :: "replay_bundle \<Rightarrow> jobj \<Rightarrow> finding list res" where
  "check_counts b result =
     rbind (if result = [] then Inr 0 else rbind (jindex result ''sub_games'') py_len) (\<lambda>n.
       Inr (if \<not> (length (rb_configs b) = length (rb_logs b) \<and> length (rb_logs b) = n) \<or> rb_configs b = []
            then [CountsDiffer] else []))"

text \<open>A set of the numbers that occur more than once.\<close>

definition duplicates :: "json list \<Rightarrow> json list" where
  "duplicates ns = filter (\<lambda>n. 1 < length (filter (\<lambda>m. json_eq m n) ns)) ns"

definition check_duplicates :: "string \<Rightarrow> jobj list \<Rightarrow> finding list res" where
  "check_duplicates label items =
     rbind (py_set (duplicates (map (\<lambda>d. jget d ''sub_game_number'' JNull) items))) (\<lambda>ds.
       if ds = [] then Inr [] else if \<not> sortable ds then Inl TypeError else Inr [DuplicateSubGame label])"

definition check_no_duplicate_sub_games :: "replay_bundle \<Rightarrow> finding list res" where
  "check_no_duplicate_sub_games b =
     rbind (check_duplicates ''config'' (rb_configs b)) (\<lambda>f1.
     rbind (check_duplicates ''log'' (rb_logs b)) (\<lambda>f2. Inr (f1 @ f2)))"

text \<open>The log with a number is the last that claims it.\<close>

definition check_step_count :: "jobj list \<Rightarrow> json \<Rightarrow> finding list res" where
  "check_step_count logs entry =
     rbind (at_key entry ''sub_game_number'') (\<lambda>n.
       if \<not> hashable n then Inl TypeError
       else case List.find (\<lambda>l. json_eq (jget l ''sub_game_number'' JNull) n) (rev logs) of
           None \<Rightarrow> Inr []
         | Some found \<Rightarrow>
             rbind (rbind (jindex found ''steps'') py_len) (\<lambda>k.
             rbind (at_key entry ''steps'') (\<lambda>declared.
               Inr (if \<not> json_eq (JInt (int k)) declared then [StepCountDiffers n] else []))))"

definition check_step_counts :: "replay_bundle \<Rightarrow> jobj \<Rightarrow> finding list res" where
  "check_step_counts b result =
     (if \<not> list_all (\<lambda>l. hashable (jget l ''sub_game_number'' JNull)) (rb_logs b) then Inl TypeError
      else rbind (jindex result ''sub_games'') (\<lambda>gv. rbind (py_tuple gv) (\<lambda>games.
        rbind (traverse (check_step_count (rb_logs b)) games) (\<lambda>fs. Inr (concat fs)))))"

definition board_size_of :: "jobj \<Rightarrow> json res" where
  "board_size_of config =
     rbind (jindex config ''terms'') (\<lambda>terms. rbind (at_key terms ''board_and_agents'') (\<lambda>b.
       at_key b ''grid_size''))"

text \<open>Loading and the recomputation of scores are guarded; every other exception leaves the verifier.\<close>

fun caught_on_load :: "py_exc \<Rightarrow> bool" where
  "caught_on_load (SchemaValidationError _) = True"
| "caught_on_load (ValueError _) = True"
| "caught_on_load _ = False"

fun caught_on_scores :: "py_exc \<Rightarrow> bool" where
  "caught_on_scores (KeyError _) = True"
| "caught_on_scores TypeError = True"
| "caught_on_scores _ = False"

definition guarded :: "(py_exc \<Rightarrow> bool) \<Rightarrow> finding \<Rightarrow> finding list res \<Rightarrow> finding list res" where
  "guarded caught_here f r =
     (case r of Inr fs \<Rightarrow> Inr fs | Inl e \<Rightarrow> if caught_here e then Inr [f] else Inl e)"

definition verify_bundle ::
    "digest \<Rightarrow> (json \<Rightarrow> string) \<Rightarrow> replay_bundle \<Rightarrow> finding list res" where
  "verify_bundle H rp b =
     (case (rb_result b, rb_configs b, rb_logs b) of
        (Some result, config # _, _ # _) \<Rightarrow>
          rbind (check_game_uid b) (\<lambda>f1.
          rbind (check_config_hashes b) (\<lambda>f2.
          rbind (check_counts b result) (\<lambda>f3.
          rbind (check_no_duplicate_sub_games b) (\<lambda>f4.
          rbind (check_step_counts b result) (\<lambda>f5.
          rbind (board_size_of config) (\<lambda>n.
          rbind (traverse (\<lambda>log. verify_log H rp log n) (rb_logs b)) (\<lambda>f6.
          rbind (guarded caught_on_scores ScoreRecomputationFailed
                   (rbind (jindex config ''terms'') (\<lambda>terms. rbind (scoring_from_terms terms) (\<lambda>sc.
                      verify_scores result sc)))) (\<lambda>f7.
            Inr (f1 @ f2 @ f3 @ f4 @ f5 @ concat f6 @ f7)))))))))
      | _ \<Rightarrow> Inr [MissingArtifacts])"

definition verify_replay :: "digest \<Rightarrow> (json \<Rightarrow> string) \<Rightarrow> directory \<Rightarrow> finding list res" where
  "verify_replay H rp dir =
     (case load_bundle dir of
        Inl e \<Rightarrow> (if caught_on_load e then Inr [LoadFailed] else Inl e)
      | Inr b \<Rightarrow> verify_bundle H rp b)"

definition verdict :: "finding list \<Rightarrow> string" where
  "verdict fs = (if fs = [] then ''VERIFIED'' else ''TAMPERED'')"

section \<open>Both sides\<close>

text \<open>
  The schema is that of the first step of the first log: a file that does not parse counts as none. A parsed
  file of another shape makes the look raise.
\<close>

definition peek_schema_version :: "directory \<Rightarrow> json res" where
  "peek_schema_version dir =
     (case glob ''log_'' dir of
        [] \<Rightarrow> Inr JNull
      | (_, Inl (ValueError _)) # _ \<Rightarrow> Inr JNull
      | (_, Inl e) # _ \<Rightarrow> Inl e
      | (_, Inr v) # _ \<Rightarrow>
          rbind (obj_or_raise v) (\<lambda>d.
            let steps = jget d ''steps'' JNull in
            if \<not> truthy steps then Inr JNull
            else rbind (item_at steps 0) (\<lambda>s. rbind (obj_or_raise s) (\<lambda>st.
              Inr (jget st ''schema_version'' JNull)))))"

record side_verification =
  sd_verdict :: string
  sd_ok :: bool
  sd_findings :: "finding list"
  sd_independently_verified :: bool
  sd_schema_version :: json

definition LEGACY_VERDICT :: string where
  "LEGACY_VERDICT = ''NOT_INDEPENDENTLY_VERIFIED_FROM_THIS_SIDE_LEGACY_SCHEMA''"

definition verify_side :: "digest \<Rightarrow> (json \<Rightarrow> string) \<Rightarrow> directory \<Rightarrow> side_verification res" where
  "verify_side H rp dir =
     rbind (peek_schema_version dir) (\<lambda>schema.
       if \<not> is_null schema \<and> \<not> json_eq schema (JStr CURRENT_SCHEMA_VERSION)
       then Inr \<lparr>sd_verdict = LEGACY_VERDICT, sd_ok = True, sd_findings = [],
                 sd_independently_verified = False, sd_schema_version = schema\<rparr>
       else rbind (verify_replay H rp dir) (\<lambda>fs.
         Inr \<lparr>sd_verdict = verdict fs, sd_ok = (fs = []), sd_findings = fs,
              sd_independently_verified = True, sd_schema_version = schema\<rparr>))"

definition verify_bilateral ::
    "digest \<Rightarrow> (json \<Rightarrow> string) \<Rightarrow> directory \<Rightarrow> directory
       \<Rightarrow> (side_verification \<times> side_verification \<times> bool) res" where
  "verify_bilateral H rp police_dir thief_dir =
     rbind (verify_side H rp police_dir) (\<lambda>police.
     rbind (verify_side H rp thief_dir) (\<lambda>thief.
       Inr (police, thief, sd_independently_verified police \<and> sd_ok police \<and>
              sd_independently_verified thief \<and> sd_ok thief)))"

end
