(* ===== verification/Artifacts.thy ===== *)
theory Artifacts
  imports SubGame Replay
begin

text \<open>
  The published artifacts of a series: their models (\<^verbatim>\<open>services/artifact_models.py\<close>), how they are built from
  the runtime's results (\<^verbatim>\<open>artifact_builders.py\<close>), names and the guarded save (\<^verbatim>\<open>artifacts.py\<close>), and the whole set
  (\<^verbatim>\<open>series_artifacts.py\<close>). Writing threads the directory, so an exception keeps the files already written. A
  written file parses to the value that was written; the text that is scanned for secrets is the parameter
  \<open>dumps\<close>.
\<close>

section \<open>Models\<close>

definition CONFIG_SCHEMA :: string where "CONFIG_SCHEMA = ''config/1''"
definition LOG_SCHEMA :: string where "LOG_SCHEMA = ''log/1''"
definition RESULT_SCHEMA :: string where "RESULT_SCHEMA = ''result/1''"

record config_artifact =
  ca_game_uid :: string
  ca_game_id :: string
  ca_sub_game_number :: nat
  ca_config_sha256 :: string
  ca_terms :: jobj

definition config_to_dict :: "config_artifact \<Rightarrow> jobj" where
  "config_to_dict a =
     [(''schema_version'', JStr CONFIG_SCHEMA),
      (''game_uid'', JStr (ca_game_uid a)),
      (''game_id'', JStr (ca_game_id a)),
      (''sub_game_number'', JInt (int (ca_sub_game_number a))),
      (''config_sha256'', JStr (ca_config_sha256 a)),
      (''terms'', JObj (ca_terms a))]"

definition config_validate :: "config_artifact \<Rightarrow> unit res" where
  "config_validate a =
     (if ca_game_uid a = [] \<or> ca_game_id a = []
      then Inl (SchemaValidationError ''config artifact needs game_uid and game_id'')
      else rguard (length (ca_config_sha256 a) = 64)
             (SchemaValidationError ''config_sha256 must be a 64-char digest''))"

record log_artifact =
  la_game_uid :: string
  la_game_id :: string
  la_sub_game_number :: nat
  la_steps :: "json list"
  la_audit_verdict :: string
  la_audit_reason :: string

definition log_to_dict :: "log_artifact \<Rightarrow> jobj" where
  "log_to_dict a =
     [(''schema_version'', JStr LOG_SCHEMA),
      (''game_uid'', JStr (la_game_uid a)),
      (''game_id'', JStr (la_game_id a)),
      (''sub_game_number'', JInt (int (la_sub_game_number a))),
      (''steps'', JList (la_steps a)),
      (''audit_verdict'', JStr (la_audit_verdict a)),
      (''audit_reason'', JStr (la_audit_reason a))]"

definition log_validate :: "log_artifact \<Rightarrow> unit res" where
  "log_validate a =
     (if la_game_uid a = [] then Inl (SchemaValidationError ''log artifact needs game_uid'')
      else rguard (la_audit_verdict a \<in> {''verified'', ''tamper_forfeit''})
             (SchemaValidationError ''bad audit_verdict''))"

record result_artifact =
  ra_game_uid :: string
  ra_game_id :: string
  ra_git_commit :: string
  ra_group_id :: json
  ra_config_sha256 :: string
  ra_sub_games :: "json list"
  ra_police_total :: int
  ra_thief_total :: int
  ra_agreement_status :: string
  ra_agreed :: bool

definition result_to_dict :: "result_artifact \<Rightarrow> jobj" where
  "result_to_dict a =
     [(''schema_version'', JStr RESULT_SCHEMA),
      (''game_uid'', JStr (ra_game_uid a)),
      (''game_id'', JStr (ra_game_id a)),
      (''git_commit'', JStr (ra_git_commit a)),
      (''group_id'', ra_group_id a),
      (''config_sha256'', JStr (ra_config_sha256 a)),
      (''sub_games'', JList (ra_sub_games a)),
      (''police_total'', JInt (ra_police_total a)),
      (''thief_total'', JInt (ra_thief_total a)),
      (''agreement_status'', JStr (ra_agreement_status a)),
      (''agreed'', JBool (ra_agreed a))]"

definition result_validate :: "result_artifact \<Rightarrow> unit res" where
  "result_validate a =
     (if ra_game_uid a = [] \<or> \<not> truthy (ra_group_id a)
      then Inl (SchemaValidationError ''result artifact needs game_uid and group_id'')
      else rguard (length (ra_config_sha256 a) = 64)
             (SchemaValidationError ''config_sha256 must be a 64-char digest''))"

section \<open>Building them\<close>

definition build_config_artifact ::
    "string \<Rightarrow> string \<Rightarrow> nat \<Rightarrow> string \<Rightarrow> jobj \<Rightarrow> config_artifact" where
  "build_config_artifact uid gid n csha terms =
     \<lparr>ca_game_uid = uid, ca_game_id = gid, ca_sub_game_number = n, ca_config_sha256 = csha,
      ca_terms = terms\<rparr>"

definition log_step :: "sealed_record \<Rightarrow> json" where
  "log_step r = JObj (to_canonical_dict (sr_payload r) @ [(''commit_hash'', JStr (sr_commit_hash r))])"

definition build_log_artifact ::
    "string \<Rightarrow> string \<Rightarrow> nat \<Rightarrow> sealed_record list \<Rightarrow> audit_report \<Rightarrow> log_artifact" where
  "build_log_artifact uid gid n records audit =
     \<lparr>la_game_uid = uid, la_game_id = gid, la_sub_game_number = n, la_steps = map log_step records,
      la_audit_verdict = audit_outcome_value (ar_outcome audit), la_audit_reason = ar_reason audit\<rparr>"

fun WINNER :: "sub_game_result \<Rightarrow> json" where
  "WINNER CAPTURE = JStr ''police''"
| "WINNER SURVIVAL = JStr ''thief''"
| "WINNER TECHNICAL_LOSS = JNull"

definition result_entry :: "sub_game_record \<Rightarrow> json" where
  "result_entry r =
     JObj [(''sub_game_number'', JInt (int (sg_number r))),
           (''result'', JStr (result_value (sg_result r))),
           (''winner'', WINNER (sg_result r)),
           (''police_score'', JInt (sg_police_score r)),
           (''thief_score'', JInt (sg_thief_score r)),
           (''steps'', JInt (int (sg_steps_taken r))),
           (''audit_ok'', JBool (sg_audit_verified r))]"

definition build_result_artifact ::
    "string \<Rightarrow> string \<Rightarrow> string \<Rightarrow> json \<Rightarrow> string \<Rightarrow> series_result \<Rightarrow> result_artifact" where
  "build_result_artifact uid gid commit group_id csha se =
     (let completed = se_terminated_reason se = ''completed'' in
      \<lparr>ra_game_uid = uid, ra_game_id = gid, ra_git_commit = commit, ra_group_id = group_id,
       ra_config_sha256 = csha, ra_sub_games = map result_entry (se_sub_games se),
       ra_police_total = se_police_total se, ra_thief_total = se_thief_total se,
       ra_agreement_status = (if completed then se_agreement_status se else se_terminated_reason se),
       ra_agreed = (if completed then se_agreed se else False)\<rparr>)"

section \<open>Names and the guarded save\<close>

definition pad2 :: "nat \<Rightarrow> string" where
  "pad2 n = (if n < 10 then ''0'' @ str_of_nat n else str_of_nat n)"

definition declaration_filename :: "string \<Rightarrow> string" where
  "declaration_filename gid = ''declaration_'' @ gid @ ''.json''"

definition config_filename :: "string \<Rightarrow> nat \<Rightarrow> string" where
  "config_filename gid n = ''config_'' @ gid @ ''_g'' @ pad2 n @ ''.json''"

definition log_filename :: "string \<Rightarrow> nat \<Rightarrow> string" where
  "log_filename gid n = ''log_'' @ gid @ ''_g'' @ pad2 n @ ''.json''"

definition result_filename :: "string \<Rightarrow> string" where
  "result_filename gid = ''result_'' @ gid @ ''.json''"

definition CREDENTIAL_NEEDLES :: "string list" where
  "CREDENTIAL_NEEDLES =
     [''password'', ''api_key'', ''apikey'', ''client_secret'', ''credentials.json'', ''token.json'',
      ''-----begin'']"

definition assert_no_credentials :: "(json \<Rightarrow> string) \<Rightarrow> jobj \<Rightarrow> unit res" where
  "assert_no_credentials dumps data =
     (let serialized = lower (dumps (JObj data))
      in rguard (\<not> list_ex (\<lambda>needle. contains needle serialized) CREDENTIAL_NEEDLES)
           (SchemaValidationError ''artifact appears to contain a secret''))"

definition save_artifact ::
    "(json \<Rightarrow> string) \<Rightarrow> unit res \<Rightarrow> jobj \<Rightarrow> string \<Rightarrow> (directory, string) eff" where
  "save_artifact dumps validation data path dir =
     (case rbind validation (\<lambda>_. assert_no_credentials dumps data) of
        Inl e \<Rightarrow> (dir, Inl e)
      | Inr _ \<Rightarrow> (AList.update path (Inr (JObj data)) dir, Inr path))"

section \<open>The whole set\<close>

text \<open>One sub-game: its config and its log.\<close>

definition write_sub_game ::
    "digest \<Rightarrow> (json \<Rightarrow> string) \<Rightarrow> string \<Rightarrow> string \<Rightarrow> string \<Rightarrow> jobj \<Rightarrow> sub_game_record \<times> run_result
       \<Rightarrow> (directory, string list) eff" where
  "write_sub_game H dumps uid gid csha terms = (\<lambda>(g, run).
     let n = sg_number g;
         conf = build_config_artifact uid gid n csha terms;
         lg = build_log_artifact uid gid n (rr_records run) (audit_sealed_records H (rr_records run))
     in ebind (save_artifact dumps (config_validate conf) (config_to_dict conf) (config_filename gid n)) (\<lambda>p1.
        ebind (save_artifact dumps (log_validate lg) (log_to_dict lg) (log_filename gid n)) (\<lambda>p2.
          eret [p1, p2])))"

fun write_sub_games ::
    "digest \<Rightarrow> (json \<Rightarrow> string) \<Rightarrow> string \<Rightarrow> string \<Rightarrow> string \<Rightarrow> jobj \<Rightarrow> (sub_game_record \<times> run_result) list
       \<Rightarrow> (directory, string list) eff" where
  "write_sub_games H dumps uid gid csha terms [] = eret []"
| "write_sub_games H dumps uid gid csha terms (g # gs) =
     ebind (write_sub_game H dumps uid gid csha terms g) (\<lambda>ps.
     ebind (write_sub_games H dumps uid gid csha terms gs) (\<lambda>qs. eret (ps @ qs)))"

text \<open>
  The declaration, built from local setup and hardware, is the parameter \<open>declaration\<close> with the outcome of its
  own validation. A zip of two lengths raises after the shorter one.
\<close>

definition write_series_artifacts ::
    "digest \<Rightarrow> (json \<Rightarrow> string) \<Rightarrow> unit res \<times> jobj \<Rightarrow> string \<Rightarrow> string \<Rightarrow> string \<Rightarrow> string \<Rightarrow> json \<Rightarrow> jobj
       \<Rightarrow> series_result \<Rightarrow> (directory, string list) eff" where
  "write_series_artifacts H dumps declaration uid gid csha commit group_id terms se =
     (let result = build_result_artifact uid gid commit group_id csha se in
      ebind (save_artifact dumps (fst declaration) (snd declaration) (declaration_filename gid)) (\<lambda>p.
      ebind (write_sub_games H dumps uid gid csha terms (zip (se_sub_games se) (se_run_results se))) (\<lambda>ps.
      ebind (elift (rguard (length (se_sub_games se) = length (se_run_results se))
               (ValueError ''zip() arguments have different lengths''))) (\<lambda>_.
      ebind (save_artifact dumps (result_validate result) (result_to_dict result) (result_filename gid)) (\<lambda>q.
        eret (p # ps @ [q]))))))"

definition assert_consistent_game_uid :: "jobj list \<Rightarrow> json res" where
  "assert_consistent_game_uid artifacts =
     rbind (py_set (map (\<lambda>a. jget a ''game_uid'' JNull) artifacts)) (\<lambda>uids.
       case uids of
         [u] \<Rightarrow> (if is_null u then Inl (SchemaValidationError ''artifacts do not share one game_uid'') else Inr u)
       | _ \<Rightarrow> Inl (SchemaValidationError ''artifacts do not share one game_uid''))"

end
