(* ===== verification/ReplayProps.thy ===== *)
theory ReplayProps
  imports Artifacts SubGameClaims
begin

text \<open>
  The verifier against the runtime: rebuilding is the inverse of writing a step, the audit of rebuilt records is
  the audit of the sealed ones, and each check on a written series passes.
\<close>

section \<open>Rebuilding is the inverse of writing\<close>

definition raw_of :: "payload \<Rightarrow> raw_payload" where
  "raw_of p =
     \<lparr>rw_step = JInt (p_step p), rw_role = JStr (p_role p), rw_sub_game_number = JInt (p_sub_game_number p),
      rw_position = [JInt (fst (p_position p)), JInt (snd (p_position p))],
      rw_move = opt_json JStr (p_move p), rw_intent = JStr (p_intent p), rw_hint = JStr (p_hint p),
      rw_scent_digest = JStr (p_scent_digest p),
      rw_scent_grid = map (map (\<lambda>x. JFloat (Fin x))) (p_scent_grid p),
      rw_timestamp = JStr (p_timestamp p), rw_nonce = JStr (p_nonce p),
      rw_config_sha256 = JStr (p_config_sha256 p),
      rw_barrier_placed = map_option (\<lambda>c. [JInt (fst c), JInt (snd c)]) (p_barrier_placed p),
      rw_capture_claim = map_option (\<lambda>c. [JInt (fst c), JInt (snd c)]) (p_capture_claim p),
      rw_claim_response = opt_json JBool (p_claim_response p), rw_win_claim = JBool (p_win_claim p),
      rw_schema_version = JStr (p_schema_version p), rw_legacy_state = JNull\<rparr>"

lemma traverse_tuples:
  "traverse py_tuple (map (\<lambda>xs. JList (map (\<lambda>x. JFloat (Fin x)) xs)) g) =
     Inr (map (map (\<lambda>x. JFloat (Fin x))) g)"
  by (induction g) simp_all

lemma tuple_if_cell:
  "tuple_if (opt_json cell_json c) = Inr (map_option (\<lambda>c. [JInt (fst c), JInt (snd c)]) c)"
  by (cases c) (simp_all add: tuple_if_def opt_json_def cell_json_def)

lemma raw_cell_opt: "raw_cell (map_option (\<lambda>c. [JInt (fst c), JInt (snd c)]) c) = opt_json cell_json c"
  by (cases c) (simp_all add: raw_cell_def opt_json_def cell_json_def)

lemma current_not_legacy: "CURRENT_SCHEMA_VERSION \<notin> set LEGACY_SCHEMAS"
  by (simp add: CURRENT_SCHEMA_VERSION_def LEGACY_SCHEMAS_def)

definition current :: "sealed_record \<Rightarrow> bool" where
  "current r \<longleftrightarrow> p_schema_version (sr_payload r) = CURRENT_SCHEMA_VERSION"

lemma payload_from_log_step:
  assumes "current r"
  shows "payload_from_step (log_step r) = Inr (raw_of (sr_payload r))"
  using assms current_not_legacy
  by (simp add: current_def payload_from_step_def log_step_def to_canonical_dict_def raw_of_def tuple_if_cell
      cell_json_def [of "p_position (sr_payload r)"] grid_json_def traverse_tuples)

lemma rebuild_log_step:
  assumes "current r"
  shows "rebuild (log_step r) = Inr (raw_of (sr_payload r), JStr (sr_commit_hash r))"
proof -
  have "at_key (log_step r) ''commit_hash'' = Inr (JStr (sr_commit_hash r))"
    using assms current_not_legacy by (simp add: current_def at_key_def log_step_def to_canonical_dict_def)
  then show ?thesis by (simp add: rebuild_def payload_from_log_step [OF assms])
qed

lemma raw_canonical:
  assumes "current r"
  shows "raw_canonical_dict rp (raw_of (sr_payload r)) = Inr (to_canonical_dict (sr_payload r))"
  using assms current_not_legacy
  by (simp add: current_def raw_canonical_dict_def raw_of_def to_canonical_dict_def json_in_def LEGACY_SCHEMAS_def
      raw_cell_opt cell_json_def [of "p_position (sr_payload r)"] grid_json_def comp_def
      CURRENT_SCHEMA_VERSION_def)

section \<open>The audits agree\<close>

definition ascii_text :: "string \<Rightarrow> bool" where
  "ascii_text s \<longleftrightarrow> list_all (\<lambda>c. (of_char c :: nat) < 128) s"

lemma digest_matches_record:
  assumes "current r" and "ascii_text (sr_commit_hash r)"
  shows "digest_matches H rp (raw_of (sr_payload r), JStr (sr_commit_hash r)) = Inr (recompute_matches H r)"
  using assms
  by (simp add: digest_matches_def raw_canonical ascii_text_def recompute_matches_def commit_hash_def)

lemma json_in_strs: "json_in (JStr s) (map JStr ss) \<longleftrightarrow> s \<in> set ss"
  by (induction ss) (auto simp: json_in_def)

lemma nonces_reused_strs:
  "nonces_reused (map JStr seen) (map JStr ns) \<longleftrightarrow> \<not> (distinct ns \<and> set ns \<inter> set seen = {})"
proof (induction ns arbitrary: seen)
  case Nil
  then show ?case by simp
next
  case (Cons n ns)
  from Cons.IH [of "n # seen"] show ?case by (auto simp: json_in_strs)
qed

definition raw_pair :: "sealed_record \<Rightarrow> raw_payload \<times> json" where
  "raw_pair r = (raw_of (sr_payload r), JStr (sr_commit_hash r))"

lemma dedup_ints: "\<exists>ys. dedup (map JInt xs) = map JInt ys"
proof (induction xs)
  case (Cons x xs)
  then obtain ys where "dedup (map JInt xs) = map JInt ys" by blast
  then show ?case by (auto intro: exI [of _ "x # ys"])
qed simp

lemma mismatched_steps:
  "map (\<lambda>(r, ok). rw_step (fst r)) (filter (\<lambda>(r, ok). \<not> ok)
      (zip (map raw_pair rs) (map (recompute_matches H) rs))) =
    map JInt (map (\<lambda>r. p_step (sr_payload r)) (filter (\<lambda>r. \<not> recompute_matches H r) rs))"
  by (induction rs) (simp_all add: raw_pair_def raw_of_def)

lemma raw_audit_records:
  assumes "\<forall>r \<in> set rs. current r \<and> ascii_text (sr_commit_hash r)"
  shows "raw_audit H rp (map raw_pair rs) =
    Inr (list_all (recompute_matches H) rs \<and> distinct (map (\<lambda>r. p_nonce (sr_payload r)) rs))"
proof -
  let ?m = "map JInt (map (\<lambda>r. p_step (sr_payload r)) (filter (\<lambda>r. \<not> recompute_matches H r) rs))"
  have oks: "traverse (digest_matches H rp) (map raw_pair rs) = Inr (map (recompute_matches H) rs)"
    using assms by (induction rs) (simp_all add: raw_pair_def digest_matches_record)
  have ns: "map (\<lambda>r. rw_nonce (fst r)) (map raw_pair rs) = map JStr (map (\<lambda>r. p_nonce (sr_payload r)) rs)"
    by (simp add: raw_pair_def raw_of_def)
  have strs: "list_all hashable (map JStr xs) = True" for xs by (induction xs) simp_all
  have ints: "list_all hashable (map JInt xs)" for xs by (induction xs) simp_all
  obtain ys where "dedup ?m = map JInt ys" using dedup_ints by blast
  then have ms: "py_set ?m = Inr (map JInt ys)" "sortable (map JInt ys) = True"
    using ints by (simp_all only: py_set_def if_True) (simp add: sortable_def list_all_iff)
  have reuse: "nonces_reused [] (map JStr xs) \<longleftrightarrow> \<not> distinct xs" for xs
    using nonces_reused_strs [of "[]" xs] by simp
  show ?thesis
    unfolding raw_audit_def oks rbind.simps Let_def ns mismatched_steps strs ms reuse not_True_eq_False if_False
    by (simp add: filter_empty_conv list_all_iff)
qed

lemma traverse_rebuild:
  "\<forall>r \<in> set rs. current r \<Longrightarrow> traverse rebuild (map log_step rs) = Inr (map raw_pair rs)"
  by (induction rs) (simp_all add: rebuild_log_step raw_pair_def)

lemma replay_audit:
  assumes "\<forall>r \<in> set rs. current r \<and> ascii_text (sr_commit_hash r)"
  shows "rbind (traverse rebuild (map log_step rs)) (raw_audit H rp) = Inr (verified (audit_sealed_records H rs))"
  using assms by (simp add: traverse_rebuild raw_audit_records verified_iff comp_def list_all_iff)

lemma raw_steps_in_order_nth:
  "raw_steps_in_order ps \<longleftrightarrow> (\<forall>i < length ps. json_eq (rw_step (ps ! i)) (JInt (int i)))"
  by (simp add: raw_steps_in_order_def list_all_length nth_enumerate_eq del: json_eq.simps)

lemma steps_in_order_raw:
  "raw_steps_in_order (map fst (map raw_pair rs)) \<longleftrightarrow> steps_in_order rs 0"
proof -
  have "raw_steps_in_order (map fst (map raw_pair rs)) \<longleftrightarrow> (\<forall>i < length rs. p_step (sr_payload (rs ! i)) = int i)"
    by (simp add: raw_steps_in_order_nth raw_pair_def raw_of_def del: json_eq.simps)
  also have "\<dots> \<longleftrightarrow> steps_in_order rs 0"
  proof -
    have "\<forall>i < length rs. [0 .. int (length rs) - 1] ! i = int i" by (auto simp: nth_upto)
    moreover have "length [0 .. int (length rs) - 1] = length rs" by simp
    ultimately show ?thesis
      unfolding steps_in_order_def Let_def list_eq_iff_nth_eq length_map add_0 by auto
  qed
  finally show ?thesis .
qed

section \<open>A log the runtime wrote\<close>

lemma check_step_ok:
  assumes "record_ok H n i r"
  shows "check_step number board_n (log_step r) = Inr []"
proof -
  have c: "CURRENT_SCHEMA_VERSION \<notin> set LEGACY_SCHEMAS" by (rule current_not_legacy)
  have k: "set (map fst (to_canonical_dict (sr_payload r))) = set CANONICAL_FIELD_SET"
    using assms c by (simp add: record_ok_def to_canonical_dict_def CANONICAL_FIELD_SET_def)
  show ?thesis
    using assms c k
    by (auto simp: check_step_def log_step_def check_bounds_def check_role_fields_def check_unknown_fields_def
        record_ok_def to_canonical_dict_def opt_json_def LOG_STEP_EXTRA_KEYS_def Let_def filter_empty_conv
        CANONICAL_FIELD_SET_def)
qed

definition log_dict_of :: "jobj \<Rightarrow> json \<Rightarrow> sealed_record list \<Rightarrow> bool" where
  "log_dict_of d number rs \<longleftrightarrow>
     jget d ''sub_game_number'' (JStr ''?'') = number \<and> map_of d ''steps'' = Some (JList (map log_step rs))"

lemma verify_log_ok:
  assumes "log_dict_of d number rs" and "records_ok H n rs" and "distinct (nonces rs)"
    and "\<forall>x. ascii_text (H x)"
  shows "verify_log H rp d board_n = Inr []"
proof -
  have ok: "record_ok H n i (rs ! i)" if "i < length rs" for i using assms(2) that by (simp add: records_ok_def)
  then have each: "\<exists>i. record_ok H n i r" if "r \<in> set rs" for r using that by (auto simp: in_set_conv_nth)
  have cur: "\<forall>r \<in> set rs. current r \<and> ascii_text (sr_commit_hash r)"
  proof
    fix r assume "r \<in> set rs"
    from each [OF this] show "current r \<and> ascii_text (sr_commit_hash r)"
      using assms(4) by (auto simp: record_ok_def current_def recompute_matches_def commit_hash_def dest: sym)
  qed
  have "list_all (recompute_matches H) rs" using each by (auto simp: list_all_iff record_ok_def)
  then have audit: "raw_audit H rp (map raw_pair rs) = Inr True"
    using assms(3) by (simp add: raw_audit_records [OF cur] nonces_def)
  have "raw_steps_in_order (map fst (map raw_pair rs))"
    using ok by (simp add: raw_steps_in_order_nth raw_pair_def raw_of_def record_ok_def del: json_eq.simps)
  moreover have "traverse (check_step number board_n) (map log_step rs) = Inr (map (\<lambda>_. []) (map log_step rs))"
    using each by (intro traverse_Inr_total) (auto dest: check_step_ok)
  ultimately show ?thesis
    using assms(1) traverse_rebuild [of rs] cur audit
    by (auto simp: verify_log_def log_dict_of_def jindex_def Let_def)
qed

section \<open>What a log without findings says\<close>

lemma traverse_Inr_nth:
  "traverse f xs = Inr ys \<Longrightarrow> i < length xs \<Longrightarrow> f (xs ! i) = Inr (ys ! i)"
proof (induction xs arbitrary: ys i)
  case Nil
  then show ?case by simp
next
  case (Cons x xs)
  then show ?case by (cases i) (auto simp: res_simps)
qed

lemma fresh_nonces:
  "\<not> nonces_reused seen ns \<Longrightarrow> i < j \<Longrightarrow> j < length ns \<Longrightarrow> \<not> json_eq (ns ! i) (ns ! j)"
proof (induction ns arbitrary: seen i j)
  case Nil
  then show ?case by simp
next
  case (Cons n ns)
  have seen: "\<not> nonces_reused zs xs \<Longrightarrow> y \<in> set zs \<Longrightarrow> x \<in> set xs \<Longrightarrow> \<not> json_eq y x" for zs xs y x
  proof (induction xs arbitrary: zs)
    case (Cons a xs)
    then have "\<not> nonces_reused (a # zs) xs" "y \<in> set (a # zs)" "\<not> json_eq y a"
      by (auto simp: json_in_def list_ex_iff simp del: json_eq.simps)
    with Cons.IH [of "a # zs"] Cons.prems(3) show ?case by auto
  qed simp
  from Cons.prems obtain j' where j: "j = Suc j'" "j' < length ns" by (cases j) auto
  from Cons.prems(1) have rest: "\<not> nonces_reused (n # seen) ns" by simp
  show ?case
  proof (cases i)
    case 0
    with seen [OF rest, of n "ns ! j'"] j show ?thesis by (simp del: json_eq.simps)
  next
    case (Suc i')
    with Cons.IH [OF rest, of i' j'] Cons.prems j show ?thesis by (simp del: json_eq.simps)
  qed
qed

definition genuine_step :: "digest \<Rightarrow> (json \<Rightarrow> string) \<Rightarrow> nat \<Rightarrow> json \<Rightarrow> raw_payload \<Rightarrow> bool" where
  "genuine_step H rp i v p \<longleftrightarrow>
     payload_from_step v = Inr p \<and> json_eq (rw_step p) (JInt (int i)) \<and>
     (\<exists>d. raw_canonical_dict rp p = Inr d \<and> at_key v ''commit_hash'' = Inr (JStr (H (JObj d))))"

lemma audit_genuine:
  assumes "raw_audit H rp records = Inr True"
  shows "(\<forall>r \<in> set records. digest_matches H rp r = Inr True) \<and>
    \<not> nonces_reused [] (map (\<lambda>r. rw_nonce (fst r)) records)"
proof -
  from assms obtain oks where oks: "traverse (digest_matches H rp) records = Inr oks"
    and empty: "filter (\<lambda>(r, ok). \<not> ok) (zip records oks) = []"
    and fresh: "\<not> nonces_reused [] (map (\<lambda>r. rw_nonce (fst r)) records)"
    by (auto simp: raw_audit_def res_simps Let_def split: if_splits)
  have len: "length oks = length records" using oks by (rule traverse_Inr_length)
  have "digest_matches H rp (records ! i) = Inr True" if "i < length records" for i
  proof -
    have "(records ! i, oks ! i) \<in> set (zip records oks)" using that len by (auto simp: set_zip)
    with empty have "oks ! i" by (auto simp: filter_empty_conv)
    with traverse_Inr_nth [OF oks that] show ?thesis by simp
  qed
  then have "\<forall>r \<in> set records. digest_matches H rp r = Inr True" by (metis in_set_conv_nth)
  with fresh show ?thesis by simp
qed

lemma verify_log_genuine:
  assumes "verify_log H rp d board_n = Inr []" and "map_of d ''steps'' = Some (JList steps)"
  shows "\<exists>ps. length ps = length steps \<and> (\<forall>i < length steps. genuine_step H rp i (steps ! i) (ps ! i)) \<and>
    (\<forall>i j. i < j \<and> j < length steps \<longrightarrow> \<not> json_eq (rw_nonce (ps ! i)) (rw_nonce (ps ! j)))"
proof -
  from assms obtain records where rec: "traverse rebuild steps = Inr records"
    and audit: "raw_audit H rp records = Inr True" and order: "raw_steps_in_order (map fst records)"
    by (auto simp: verify_log_def res_simps Let_def jindex_def split: if_splits)
  have len: "length records = length steps" using rec by (rule traverse_Inr_length)
  note ag = audit_genuine [OF audit]
  have "genuine_step H rp i (steps ! i) (map fst records ! i)" if i: "i < length steps" for i
  proof -
    obtain p h where ph: "records ! i = (p, h)" by fastforce
    with traverse_Inr_nth [OF rec i] have rb: "payload_from_step (steps ! i) = Inr p"
      "at_key (steps ! i) ''commit_hash'' = Inr h" by (auto simp: rebuild_def res_simps)
    have "digest_matches H rp (p, h) = Inr True" using ag ph i len by (metis nth_mem)
    then obtain dd where "raw_canonical_dict rp p = Inr dd" "h = JStr (H (JObj dd))"
      by (cases h) (auto simp: digest_matches_def res_simps split: if_splits)
    moreover have "json_eq (rw_step (fst (records ! i))) (JInt (int i))"
      using order i len unfolding raw_steps_in_order_nth by (simp del: json_eq.simps)
    then have "json_eq (rw_step p) (JInt (int i))" unfolding ph fst_conv .
    ultimately show ?thesis using rb ph i len by (simp add: genuine_step_def del: json_eq.simps)
  qed
  moreover have "\<not> json_eq (rw_nonce (map fst records ! i)) (rw_nonce (map fst records ! j))"
    if "i < j" "j < length steps" for i j
    using fresh_nonces [OF conjunct2 [OF ag] that(1)] that len by (simp del: json_eq.simps)
  ultimately show ?thesis using len by (intro exI [of _ "map fst records"]) simp
qed

end
