(* ===== verification/ReplayClaims.thy ===== *)
theory ReplayClaims
  imports ReplayProps AgreementClaims
begin

text \<open>
  What the verifier guarantees: the artifacts of a completed series verify, what verifies is genuine, and where a
  tampered file makes the verifier raise instead of reporting it.
\<close>

section \<open>The directory a series writes\<close>

definition config_entry :: "string \<Rightarrow> string \<Rightarrow> string \<Rightarrow> jobj \<Rightarrow> sub_game_record \<times> run_result \<Rightarrow> jobj" where
  "config_entry uid gid csha terms g =
     config_to_dict (build_config_artifact uid gid (sg_number (fst g)) csha terms)"

definition log_entry :: "digest \<Rightarrow> string \<Rightarrow> string \<Rightarrow> sub_game_record \<times> run_result \<Rightarrow> jobj" where
  "log_entry H uid gid g =
     log_to_dict (build_log_artifact uid gid (sg_number (fst g)) (rr_records (snd g))
       (audit_sealed_records H (rr_records (snd g))))"

definition artifact_file :: "string \<Rightarrow> jobj \<Rightarrow> string \<times> json res" where
  "artifact_file name d = (name, Inr (JObj d))"

definition config_file :: "string \<Rightarrow> string \<Rightarrow> string \<Rightarrow> jobj \<Rightarrow> sub_game_record \<times> run_result \<Rightarrow> string \<times> json res" where
  "config_file uid gid csha terms g = artifact_file (config_filename gid (sg_number (fst g))) (config_entry uid gid csha terms g)"

definition log_file :: "digest \<Rightarrow> string \<Rightarrow> string \<Rightarrow> sub_game_record \<times> run_result \<Rightarrow> string \<times> json res" where
  "log_file H uid gid g = artifact_file (log_filename gid (sg_number (fst g))) (log_entry H uid gid g)"

lemma pad2_inject: "pad2 m = pad2 n \<Longrightarrow> m = n"
proof -
  have "nat_of_str (pad2 k) = k" for k
    using nat_of_str_of_nat [of k] by (simp add: pad2_def nat_of_str_def)
  then show "pad2 m = pad2 n \<Longrightarrow> m = n" by metis
qed

lemma filename_inject [simp]:
  "config_filename gid m = config_filename gid n \<longleftrightarrow> m = n"
  "log_filename gid m = log_filename gid n \<longleftrightarrow> m = n"
  by (auto simp: config_filename_def log_filename_def dest: pad2_inject)

lemma filename_kinds [simp]:
  "config_filename gid m \<noteq> log_filename gid n" "log_filename gid n \<noteq> config_filename gid m"
  "config_filename gid m \<noteq> declaration_filename gid" "log_filename gid m \<noteq> declaration_filename gid"
  "result_filename gid \<noteq> declaration_filename gid" "result_filename gid \<noteq> config_filename gid m"
  "result_filename gid \<noteq> log_filename gid m"
  by (simp_all add: config_filename_def log_filename_def declaration_filename_def result_filename_def)

lemma update_append: "k \<notin> set (map fst d) \<Longrightarrow> AList.update k v d = d @ [(k, v)]"
  by (induction d) auto

lemma save_Inr:
  assumes "save_artifact dumps v data path dir = (dir', Inr q)" and "path \<notin> set (map fst dir)"
  shows "dir' = dir @ [artifact_file path data]"
  using assms by (auto simp: save_artifact_def artifact_file_def update_append split: sum.splits)

lemma write_sub_games_dir:
  assumes "write_sub_games H dumps uid gid csha terms gs dir = (dir', Inr ps)"
    and "distinct (map (sg_number \<circ> fst) gs)"
    and "\<forall>g \<in> set gs. config_filename gid (sg_number (fst g)) \<notin> set (map fst dir) \<and>
           log_filename gid (sg_number (fst g)) \<notin> set (map fst dir)"
  shows "dir' = dir @ concat (map (\<lambda>g. [config_file uid gid csha terms g, log_file H uid gid g]) gs)"
  using assms
proof (induction gs arbitrary: dir ps)
  case Nil
  then show ?case by (simp add: eret_def)
next
  case (Cons g gs)
  let ?d1 = "dir @ [config_file uid gid csha terms g]" and ?d2 = "dir @ [config_file uid gid csha terms g, log_file H uid gid g]"
  obtain r c where g: "g = (r, c)" by fastforce
  from Cons.prems(1) obtain p1 p2 d1 d2 qs where
    s1: "save_artifact dumps (config_validate (build_config_artifact uid gid (sg_number r) csha terms))
        (config_entry uid gid csha terms g) (config_filename gid (sg_number r)) dir = (d1, Inr p1)"
    and s2: "save_artifact dumps (log_validate (build_log_artifact uid gid (sg_number r) (rr_records c)
        (audit_sealed_records H (rr_records c)))) (log_entry H uid gid g) (log_filename gid (sg_number r)) d1 = (d2, Inr p2)"
    and rest: "write_sub_games H dumps uid gid csha terms gs d2 = (dir', Inr qs)"
    by (auto simp: g write_sub_game_def ebind_def eret_def config_entry_def log_entry_def Let_def
        split: prod.splits sum.splits)
  from Cons.prems(3) have fresh: "config_filename gid (sg_number r) \<notin> set (map fst dir)"
    "log_filename gid (sg_number r) \<notin> set (map fst dir)" by (simp_all add: g)
  from save_Inr [OF s1 fresh(1)] have d1: "d1 = ?d1" by (simp add: config_file_def g)
  from save_Inr [OF s2] fresh(2) d1 have d2: "d2 = ?d2" by (simp add: config_file_def log_file_def artifact_file_def g)
  from Cons.prems(2) have "sg_number r \<notin> (sg_number \<circ> fst) ` set gs" by (simp add: g)
  then have ne: "\<forall>h \<in> set gs. sg_number (fst h) \<noteq> sg_number r" by (metis comp_apply imageI)
  have "dir' = d2 @ concat (map (\<lambda>g. [config_file uid gid csha terms g, log_file H uid gid g]) gs)"
    using Cons.prems(2,3) ne by (intro Cons.IH [OF rest]) (auto simp: d2 config_file_def log_file_def artifact_file_def g)
  with d2 show ?case by simp
qed

section \<open>Finding the files again\<close>

definition named :: "string \<Rightarrow> string \<Rightarrow> bool" where
  "named stem name \<longleftrightarrow> take (length stem) name = stem \<and> length stem + 5 \<le> length name \<and>
     drop (length name - 5) name = ''.json''"

lemma glob_named: "glob stem dir = sort_key fst (filter (\<lambda>(name, _). named stem name) dir)"
  by (simp add: glob_def named_def filter_sort)

lemma named_file: "named stem (stem @ x @ ''.json'')"
  by (simp add: named_def)

lemma named_kinds [simp]:
  "named ''config_'' (config_filename gid n)" "named ''log_'' (log_filename gid n)"
  "named ''declaration_'' (declaration_filename gid)" "named ''result_'' (result_filename gid)"
  "\<not> named ''config_'' (log_filename gid n)" "\<not> named ''log_'' (config_filename gid n)"
  "\<not> named ''declaration_'' (config_filename gid n)" "\<not> named ''declaration_'' (log_filename gid n)"
  "\<not> named ''result_'' (config_filename gid n)" "\<not> named ''result_'' (log_filename gid n)"
  "\<not> named ''config_'' (declaration_filename gid)" "\<not> named ''log_'' (declaration_filename gid)"
  "\<not> named ''result_'' (declaration_filename gid)" "\<not> named ''config_'' (result_filename gid)"
  "\<not> named ''log_'' (result_filename gid)" "\<not> named ''declaration_'' (result_filename gid)"
  using named_file [of "''config_''" "gid @ ''_g'' @ pad2 n"] named_file [of "''log_''" "gid @ ''_g'' @ pad2 n"]
    named_file [of "''declaration_''" gid] named_file [of "''result_''" gid]
  by (simp_all add: config_filename_def log_filename_def declaration_filename_def result_filename_def)
    (simp_all add: named_def)

lemma sort_key_map: "sort_key f (map g xs) = map g (sort_key (f \<circ> g) xs)"
proof (induction xs)
  case (Cons x xs)
  have "insort_key f (g y) (map g zs) = map g (insort_key (\<lambda>a. f (g a)) y zs)" for y zs by (induction zs) simp_all
  with Cons show ?case by (simp add: comp_def)
qed simp

lemma load_files: "traverse (\<lambda>(_, f). load_json f) (map (\<lambda>g. artifact_file (n g) (d g)) gs) = Inr (map d gs)"
  by (induction gs) (simp_all add: artifact_file_def load_json_def)

lemma mset_eq_map: "mset xs = mset (map f ys) \<Longrightarrow> \<exists>zs. mset zs = mset ys \<and> xs = map f zs"
proof (induction xs arbitrary: ys)
  case (Cons x xs)
  from Cons.prems have "x \<in> f ` set ys" by (metis list.set_intros(1) mset_eq_setD set_map)
  then obtain y us vs where ys: "x = f y" "ys = us @ y # vs" by (auto dest: split_list)
  with Cons.prems have "mset xs = mset (map f (us @ vs))" by simp
  from Cons.IH [OF this] obtain zs where "mset zs = mset (us @ vs)" "xs = map f zs" by blast
  with ys show ?case by (intro exI [of _ "y # zs"]) simp
qed simp

lemma mset_singleton: "mset xs = {#x#} \<Longrightarrow> xs = [x]"
  by (metis mset_single_iff mset.simps(1) mset.simps(2))

lemma pairs_mset: "mset (concat (map (\<lambda>g. [a g, b g]) gs)) = mset (map a gs) + mset (map b gs)"
  by (induction gs) simp_all

text \<open>Whatever the order of the files, loading finds each kind.\<close>

definition files_of :: "string \<Rightarrow> jobj \<Rightarrow> jobj \<Rightarrow> ('g \<Rightarrow> nat) \<Rightarrow> ('g \<Rightarrow> jobj) \<Rightarrow> ('g \<Rightarrow> jobj) \<Rightarrow> 'g list \<Rightarrow> directory" where
  "files_of gid decl result number cf lg gs =
     artifact_file (declaration_filename gid) decl # artifact_file (result_filename gid) result #
     map (\<lambda>g. artifact_file (config_filename gid (number g)) (cf g)) gs @
     map (\<lambda>g. artifact_file (log_filename gid (number g)) (lg g)) gs"

lemma bundle_of_files:
  assumes "mset dir = mset (files_of gid decl result number cf lg gs)"
  obtains gs1 gs2 where "mset gs1 = mset gs" and "mset gs2 = mset gs"
    and "load_bundle dir = Inr \<lparr>rb_declaration = Some decl, rb_configs = map cf gs1,
           rb_logs = map lg gs2, rb_result = Some result\<rparr>"
proof -
  have glob: "mset (glob stem dir) = mset (filter (\<lambda>(name, _). named stem name) (files_of gid decl result number cf lg gs))" for stem
    using arg_cong [OF assms, of "filter_mset (\<lambda>(name, _). named stem name)"] by (simp add: glob_named)
  note kinds = files_of_def artifact_file_def filter_map comp_def
  have one: "glob ''declaration_'' dir = [artifact_file (declaration_filename gid) decl]"
    "glob ''result_'' dir = [artifact_file (result_filename gid) result]"
    by (rule mset_singleton; simp add: glob kinds)+
  have "mset (glob ''config_'' dir) = mset (map (\<lambda>g. artifact_file (config_filename gid (number g)) (cf g)) gs)"
    by (simp add: glob kinds)
  from mset_eq_map [OF this] obtain gs1 where gs1: "mset gs1 = mset gs"
    "glob ''config_'' dir = map (\<lambda>g. artifact_file (config_filename gid (number g)) (cf g)) gs1" by blast
  have "mset (glob ''log_'' dir) = mset (map (\<lambda>g. artifact_file (log_filename gid (number g)) (lg g)) gs)"
    by (simp add: glob kinds)
  from mset_eq_map [OF this] obtain gs2 where gs2: "mset gs2 = mset gs"
    "glob ''log_'' dir = map (\<lambda>g. artifact_file (log_filename gid (number g)) (lg g)) gs2" by blast
  have "load_bundle dir = Inr \<lparr>rb_declaration = Some decl, rb_configs = map cf gs1, rb_logs = map lg gs2, rb_result = Some result\<rparr>"
    unfolding load_bundle_def one gs1(2) gs2(2) load_files
    by (simp add: load_one_def load_json_def artifact_file_def)
  with gs1(1) gs2(1) show ?thesis by (rule that)
qed

section \<open>The checks on what was written\<close>

lemma py_set_const:
  assumes "xs \<noteq> []" and "\<forall>x \<in> set xs. x = JStr u"
  shows "py_set xs = Inr [JStr u]"
proof -
  have "dedup xs = [JStr u]" using assms
  proof (induction xs)
    case (Cons x xs)
    then show ?case by (cases xs) (auto simp: json_in_def list_ex_iff)
  qed simp
  with assms(2) show ?thesis by (auto simp: py_set_def list_all_iff)
qed

lemma duplicates_ints: "distinct ns \<Longrightarrow> duplicates (map (\<lambda>n. JInt (int n)) ns) = []"
proof -
  assume d: "distinct ns"
  have "length (filter (\<lambda>m. m = n) ns) \<le> 1" for n
    using d by (induction ns) (auto simp: filter_empty_conv)
  then show ?thesis
    by (auto simp: duplicates_def filter_empty_conv filter_map comp_def not_less simp del: json_eq.simps)
qed

text \<open>The scoring table of the terms, read by the verifier, is the one the runtime scored with.\<close>

definition same_scoring :: "jobj \<Rightarrow> scoring \<Rightarrow> bool" where
  "same_scoring sc scoring \<longleftrightarrow>
     (\<forall>r. case score_sub_game r scoring False of (p, t) \<Rightarrow> pair_eq (JInt p, JInt t) (expected_scores sc r))"

lemma score_entries:
  assumes "\<forall>g \<in> set gs. \<exists>scoring. same_scoring sc scoring \<and>
      (sg_police_score g, sg_thief_score g) = score_sub_game (sg_result g) scoring False"
  shows "rfold (score_entry sc) (fs, JInt p, JInt t) (map result_entry gs) =
    Inr (fs, JInt (p + sum_list (map sg_police_score gs)), JInt (t + sum_list (map sg_thief_score gs)))"
  using assms
proof (induction gs arbitrary: p t)
  case Nil
  then show ?case by simp
next
  case (Cons g gs)
  have "outcome_of (JStr (result_value (sg_result g))) = Inr (sg_result g)"
    by (cases "sg_result g") (simp_all add: outcome_of_def)
  moreover have "pair_eq (JInt (sg_police_score g), JInt (sg_thief_score g)) (expected_scores sc (sg_result g))"
    using Cons.prems by (force simp: same_scoring_def dest: sym split: prod.splits)
  ultimately have "score_entry sc (fs, JInt p, JInt t) (result_entry g) =
      Inr (fs, JInt (p + sg_police_score g), JInt (t + sg_thief_score g))"
    by (simp add: score_entry_def result_entry_def at_key_def py_add_def)
  with Cons show ?case by (simp add: add.assoc)
qed

text \<open>What the runtime guarantees of the games of a series, and what the terms must say.\<close>

definition sound_game :: "digest \<Rightarrow> jobj \<Rightarrow> sub_game_record \<times> run_result \<Rightarrow> bool" where
  "sound_game H sc g \<longleftrightarrow>
     (\<exists>n. records_ok H n (rr_records (snd g))) \<and> distinct (nonces (rr_records (snd g))) \<and>
     sg_steps_taken (fst g) = length (rr_records (snd g)) \<and>
     (\<exists>scoring. same_scoring sc scoring \<and>
        (sg_police_score (fst g), sg_thief_score (fst g)) = score_sub_game (sg_result (fst g)) scoring False)"

definition usable_terms :: "jobj \<Rightarrow> jobj \<Rightarrow> bool" where
  "usable_terms terms sc \<longleftrightarrow>
     scoring_from_terms (JObj terms) = Inr sc \<and>
     (\<exists>n. rbind (at_key (JObj terms) ''board_and_agents'') (\<lambda>b. at_key b ''grid_size'') = Inr n)"

lemma config_entry_fields:
  "jget (config_entry uid gid csha terms g) ''game_uid'' JNull = JStr uid"
  "jget (config_entry uid gid csha terms g) ''config_sha256'' JNull = JStr csha"
  "jget (config_entry uid gid csha terms g) ''sub_game_number'' JNull = JInt (int (sg_number (fst g)))"
  "jindex (config_entry uid gid csha terms g) ''terms'' = Inr (JObj terms)"
  by (simp_all add: config_entry_def config_to_dict_def build_config_artifact_def)

lemma no_duplicates_written:
  assumes "distinct (map (sg_number \<circ> fst) gs)" and "mset gs' = mset gs"
    and "\<And>g. jget (f g) ''sub_game_number'' JNull = JInt (int (sg_number (fst g)))"
  shows "check_duplicates label (map f gs') = Inr []"
proof -
  have "distinct (map (sg_number \<circ> fst) gs')" using assms(1,2) by (metis mset_map mset_eq_imp_distinct_iff)
  from duplicates_ints [OF this]
  have "duplicates (map (\<lambda>d. jget d ''sub_game_number'' JNull) (map f gs')) = []"
    by (simp add: assms(3) comp_def)
  then show ?thesis by (simp add: check_duplicates_def py_set_def)
qed

definition result_of :: "string \<Rightarrow> string \<Rightarrow> string \<Rightarrow> json \<Rightarrow> string \<Rightarrow> series_result \<Rightarrow> jobj" where
  "result_of uid gid commit group_id csha se =
     result_to_dict (build_result_artifact uid gid commit group_id csha se)"

lemma result_fields:
  "jget (result_of uid gid commit group_id csha se) ''game_uid'' JNull = JStr uid"
  "jget (result_of uid gid commit group_id csha se) ''config_sha256'' JNull = JStr csha"
  "jindex (result_of uid gid commit group_id csha se) ''sub_games'' = Inr (JList (map result_entry (se_sub_games se)))"
  "jindex (result_of uid gid commit group_id csha se) ''police_total'' = Inr (JInt (se_police_total se))"
  "jindex (result_of uid gid commit group_id csha se) ''thief_total'' = Inr (JInt (se_thief_total se))"
  "jget (result_of uid gid commit group_id csha se) ''agreement_status'' JNull =
     JStr (if se_terminated_reason se = ''completed'' then se_agreement_status se else se_terminated_reason se)"
  "result_of uid gid commit group_id csha se \<noteq> []"
  by (simp_all add: result_of_def result_to_dict_def build_result_artifact_def Let_def)

text \<open>The totals are the sums, or zero in a dispute.\<close>

definition honest_totals :: "series_result \<Rightarrow> bool" where
  "honest_totals se \<longleftrightarrow>
     se_terminated_reason se = ''completed'' \<and>
     (if se_agreement_status se = ''disputed_zeroed'' then (se_police_total se, se_thief_total se) = (0, 0)
      else (se_police_total se, se_thief_total se) =
        (sum_list (map sg_police_score (se_sub_games se)), sum_list (map sg_thief_score (se_sub_games se))))"

lemma scores_written:
  assumes "\<forall>g \<in> set (se_sub_games se). \<exists>scoring. same_scoring sc scoring \<and>
      (sg_police_score g, sg_thief_score g) = score_sub_game (sg_result g) scoring False"
    and "honest_totals se"
  shows "verify_scores (result_of uid gid commit group_id csha se) sc = Inr []"
proof (cases "se_agreement_status se = ''disputed_zeroed''")
  case True
  with assms(2) score_entries [OF assms(1), of "[]" 0 0] show ?thesis
    by (simp add: verify_scores_def result_fields honest_totals_def pair_eq_def)
next
  case False
  with assms(2) score_entries [OF assms(1), of "[]" 0 0] show ?thesis
    by (simp add: verify_scores_def result_fields honest_totals_def pair_eq_def)
qed

text \<open>
  A log per game: whatever function writes them, the verifier only reads the uid, the number and the steps. The runtime is
  one provider of such logs.
\<close>

locale game_logs =
  fixes uid :: string
    and lg :: "sub_game_record \<times> run_result \<Rightarrow> jobj"
  assumes lg_uid: "jget (lg g) ''game_uid'' JNull = JStr uid"
    and lg_number: "jget (lg g) ''sub_game_number'' d = JInt (int (sg_number (fst g)))"
    and lg_steps: "map_of (lg g) ''steps'' = Some (JList (map log_step (rr_records (snd g))))"
begin

lemma lg_index: "jindex (lg g) ''steps'' = Inr (JList (map log_step (rr_records (snd g))))"
  by (simp add: jindex_def lg_steps)

lemma lg_dict: "log_dict_of (lg g) (JInt (int (sg_number (fst g)))) (rr_records (snd g))"
  by (simp add: log_dict_of_def lg_number lg_steps)

lemma find_log:
  assumes "g \<in> set gs" and "distinct (map (sg_number \<circ> fst) gs)"
  shows "List.find (\<lambda>l. json_eq (jget l ''sub_game_number'' JNull) (JInt (int (sg_number (fst g))))) (map lg gs) = Some (lg g)"
  using assms
proof (induction gs)
  case (Cons h gs)
  show ?case
  proof (cases "h = g")
    case True
    then show ?thesis by (simp add: lg_number [of g] del: json_eq.simps)
  next
    case False
    with Cons.prems have g: "g \<in> set gs" by simp
    then have "(sg_number \<circ> fst) g \<in> (sg_number \<circ> fst) ` set gs" by (rule imageI)
    with Cons.prems(2) have "sg_number (fst h) \<noteq> sg_number (fst g)" by (simp add: image_iff) metis
    with Cons.IH [OF g] Cons.prems(2) show ?thesis by (simp add: lg_number del: json_eq.simps)
  qed
qed simp

lemma logs_verify:
  assumes "\<forall>g \<in> set gs. sound_game H sc g" and "\<forall>x. ascii_text (H x)"
  shows "traverse (\<lambda>l. verify_log H rp l n) (map lg gs) = Inr (map (\<lambda>_. []) (map lg gs))"
proof (rule traverse_Inr_total)
  fix l assume "l \<in> set (map lg gs)"
  then obtain g where g: "g \<in> set gs" "l = lg g" by auto
  with assms(1) obtain m where "records_ok H m (rr_records (snd g))" "distinct (nonces (rr_records (snd g)))"
    by (auto simp: sound_game_def)
  from verify_log_ok [OF lg_dict this assms(2)] show "verify_log H rp l n = Inr []" by (simp add: g(2))
qed

lemma step_counts:
  assumes "\<forall>g \<in> set gs. sg_steps_taken (fst g) = length (rr_records (snd g))"
    and "distinct (map (sg_number \<circ> fst) gs)" and "mset gs' = mset gs"
  shows "traverse (check_step_count (map lg gs')) (map (result_entry \<circ> fst) gs) =
    Inr (map (\<lambda>_. []) (map (result_entry \<circ> fst) gs))"
proof (rule traverse_Inr_total)
  fix e assume "e \<in> set (map (result_entry \<circ> fst) gs)"
  then obtain g where g: "g \<in> set gs" "e = result_entry (fst g)" by auto
  have "distinct (map (sg_number \<circ> fst) gs')" using assms(2,3) by (metis mset_map mset_eq_imp_distinct_iff)
  moreover have "g \<in> set (rev gs')" using g(1) assms(3) by (metis mset_eq_setD set_rev)
  ultimately have "List.find (\<lambda>l. json_eq (jget l ''sub_game_number'' JNull) (JInt (int (sg_number (fst g)))))
      (map lg (rev gs')) = Some (lg g)"
    by (intro find_log) (simp_all add: rev_map [symmetric])
  then show "check_step_count (map lg gs') e = Inr []"
    using assms(1) g
    by (simp add: check_step_count_def result_entry_def at_key_def rev_map lg_index py_len_def del: json_eq.simps)
qed

text \<open>A directory with a configuration, such a log and an entry of the result for every game, checked field by field.\<close>

lemma bundle_fields:
  assumes "b = \<lparr>rb_declaration = Some decl, rb_configs = map (config_entry uid gid csha terms) gs1,
      rb_logs = map lg gs2, rb_result = Some (result_of uid gid commit group_id csha se)\<rparr>"
    and "gs = zip (se_sub_games se) (se_run_results se)" and "length (se_sub_games se) = length (se_run_results se)"
    and "mset gs1 = mset gs" and "mset gs2 = mset gs" and "gs \<noteq> []" and "distinct (map (sg_number \<circ> fst) gs)"
    and "jget decl ''game_uid'' JNull = JStr uid"
  shows "check_game_uid b = Inr []" and "check_config_hashes b = Inr []"
    and "check_counts b (result_of uid gid commit group_id csha se) = Inr []" and "check_no_duplicate_sub_games b = Inr []"
proof -
  let ?res = "result_of uid gid commit group_id csha se"
  have "py_set (map (\<lambda>d. jget d ''game_uid'' JNull) (all_dicts b)) = Inr [JStr uid]"
    by (rule py_set_const) (auto simp: assms(1,8) all_dicts_def config_entry_fields lg_uid result_fields)
  then show "check_game_uid b = Inr []" by (simp add: check_game_uid_def json_in_def)
  have "py_set (map (\<lambda>d. jget d ''config_sha256'' JNull) (rb_configs b) @ [jget ?res ''config_sha256'' JNull]) =
      Inr [JStr csha]"
    by (rule py_set_const) (auto simp: assms(1) config_entry_fields result_fields)
  then show "check_config_hashes b = Inr []" by (simp add: check_config_hashes_def assms(1))
  have "length gs1 = length gs" "length gs2 = length gs" using assms(4,5) by (metis size_mset)+
  then show "check_counts b ?res = Inr []"
    using assms(2,3,6) by (auto simp: check_counts_def assms(1) result_fields py_len_def)
  show "check_no_duplicate_sub_games b = Inr []"
    using no_duplicates_written [OF assms(7,4) config_entry_fields(3)] no_duplicates_written [OF assms(7,5) lg_number]
    by (simp add: check_no_duplicate_sub_games_def assms(1))
qed

lemma verify_written:
  assumes b: "b = \<lparr>rb_declaration = Some decl, rb_configs = map (config_entry uid gid csha terms) gs1,
      rb_logs = map lg gs2, rb_result = Some (result_of uid gid commit group_id csha se)\<rparr>"
    and gs: "gs = zip (se_sub_games se) (se_run_results se)" "length (se_sub_games se) = length (se_run_results se)"
    and perm: "mset gs1 = mset gs" "mset gs2 = mset gs" and ne: "gs \<noteq> []"
    and dist: "distinct (map (sg_number \<circ> fst) gs)" and sound: "\<forall>g \<in> set gs. sound_game H sc g"
    and terms: "usable_terms terms sc" and totals: "honest_totals se" and H: "\<forall>x. ascii_text (H x)"
    and decl: "jget decl ''game_uid'' JNull = JStr uid"
  shows "verify_bundle H rp b = Inr []"
proof -
  let ?res = "result_of uid gid commit group_id csha se"
  have games: "map fst gs = se_sub_games se" using gs by simp
  have len: "length gs1 = length gs" "length gs2 = length gs" using perm by (metis size_mset)+
  obtain g1 gs1' g2 gs2' where cons: "gs1 = g1 # gs1'" "gs2 = g2 # gs2'"
    using len ne by (cases gs1; cases gs2) auto
  note fields = bundle_fields [OF b gs perm ne dist decl]
  have steps: "\<forall>g \<in> set gs. sg_steps_taken (fst g) = length (rr_records (snd g))"
    using sound by (auto simp: sound_game_def)
  have counts: "check_step_counts b ?res = Inr []"
    using step_counts [OF steps dist perm(2)]
    by (auto simp: check_step_counts_def b result_fields games [symmetric] lg_number list_all_iff)
  have sound2: "\<forall>g \<in> set gs2. sound_game H sc g" using sound perm(2) by (metis mset_eq_setD)
  obtain n where n: "board_size_of (config_entry uid gid csha terms g1) = Inr n"
    using terms by (auto simp: usable_terms_def board_size_of_def config_entry_fields)
  have logs: "traverse (\<lambda>l. verify_log H rp l n) (rb_logs b) = Inr (map (\<lambda>_. []) (map lg gs2))"
    using logs_verify [OF sound2 H] by (simp add: b)
  have "\<forall>g \<in> set (se_sub_games se). \<exists>scoring. same_scoring sc scoring \<and>
      (sg_police_score g, sg_thief_score g) = score_sub_game (sg_result g) scoring False"
    using sound by (auto simp: games [symmetric] sound_game_def)
  then have scores: "verify_scores ?res sc = Inr []" by (rule scores_written [OF _ totals])
  have parts: "rb_result b = Some ?res" "rb_configs b = config_entry uid gid csha terms g1 # map (config_entry uid gid csha terms) gs1'"
    "rb_logs b = lg g2 # map lg gs2'" by (simp_all add: b cons)
  show ?thesis
    using terms logs
    by (simp add: verify_bundle_def parts fields counts scores n config_entry_fields usable_terms_def guarded_def cons)
qed

end

interpretation runtime_logs: game_logs uid "log_entry H uid gid"
  by unfold_locales (simp_all add: log_entry_def log_to_dict_def build_log_artifact_def)

section \<open>Properties\<close>

lemma completed_headless:
  assumes "\<forall>i. deps_ok (fac i)" and "0 < num_games" and "m_state m = INITIALIZING"
    and "run_series_headless H rp fr sha fac envs smoke num_games poll call arrive uid csha (m, b) =
           ((m', b'), Inr se)"
    and "se_terminated_reason se = ''completed''"
  shows "honest_totals se \<and> se_sub_games se = series_records (se_run_results se) \<and> se_run_results se \<noteq> [] \<and>
    (\<forall>i < length (se_run_results se). game_audited H fac envs (se_run_results se) i)"
proof -
  let ?n = "if smoke then 1 else num_games"
  have n: "0 < ?n" using assms(2) by simp
  obtain m1 x where rs: "run_series H rp fac envs ?n None poll m = (m1, x)" by fastforce
  then obtain se0 where x: "x = Inr se0"
    and fin: "finalize_series_agreement fr sha call 100 arrive uid csha THIEF se0 b = (b', Inr se)"
    using assms(4) by (auto simp: run_series_headless_def split: sum.splits prod.splits)
  note fh = finalize_honest [where fr = fr and sha = sha and call = call and attempts = 100 and arrive = arrive
      and uid = uid and csha = csha and us = THIEF and se = se0 and b = b, unfolded fin prod.case sum.case]
  have completed: "se_terminated_reason se0 = ''completed''" using fh assms(5) by (elim conjE) (simp only:)
  note fh' = fh [unfolded completed not_True_eq_False if_False Let_def simp_thms]
  have same: "se_sub_games se = se_sub_games se0" "se_run_results se = se_run_results se0"
    "se_terminated_reason se0 = ''completed''"
    and totals: "if se_agreement_status se = ''disputed_zeroed'' then (se_police_total se, se_thief_total se) = (0, 0)
      else (se_police_total se, se_thief_total se) = (se_police_total se0, se_thief_total se0)"
    using fh' completed by blast+
  have sub: "se_sub_games se0 = series_records (se_run_results se0)"
    using rs x by (auto simp: run_series_def split: sum.splits prod.splits)
  from run_series_cases [OF assms(1) n assms(3), where H = H and rp = rp and envs = envs and max_turns = None
      and poll = poll] rs x
  have out: "series_end H fac envs (nat ?n) (se_run_results se0) (se_terminated_reason se0) (m_state m1)"
    "se_police_total se0 = sum_list (map sg_police_score (se_sub_games se0))"
    "se_thief_total se0 = sum_list (map sg_thief_score (se_sub_games se0))"
    by simp_all
  then have "length (se_run_results se0) = nat ?n" "\<forall>i < nat ?n. game_audited H fac envs (se_run_results se0) i"
    using same(3) by (auto simp: series_end_def)
  moreover have "0 < nat ?n" using n by simp
  moreover have "honest_totals se"
    using totals out(2,3) same assms(5) by (simp add: honest_totals_def)
  ultimately show ?thesis using same sub by auto
qed

lemma zip_records:
  "zip (series_records runs) runs = map (\<lambda>i. (record_of (i + 1) (runs ! i), runs ! i)) [0 ..< length runs]"
  by (rule nth_equalityI) (simp_all add: series_records_map)

lemma audited_games_sound:
  assumes "se_sub_games se = series_records (se_run_results se)" and "\<forall>i. inj (\<lambda>k. te_nonce (envs i k))"
    and "\<forall>i < length (se_run_results se). game_audited H fac envs (se_run_results se) i"
    and "\<forall>i. same_scoring sc (dp_scoring (fac i))"
  shows "\<forall>g \<in> set (zip (se_sub_games se) (se_run_results se)). sound_game H sc g"
proof
  fix g assume "g \<in> set (zip (se_sub_games se) (se_run_results se))"
  then obtain i where i: "i < length (se_run_results se)" "g = (record_of (i + 1) (se_run_results se ! i), se_run_results se ! i)"
    by (auto simp: assms(1) zip_records)
  with assms(3) have a: "scored (fac i) (se_run_results se ! i)" "audited H (fac i) (envs i) (se_run_results se ! i) AUDITING"
    by (auto simp: game_audited_def)
  have "inj (\<lambda>k. te_nonce (envs i k))" using assms(2) by blast
  with a(2) have "distinct (nonces (rr_records (se_run_results se ! i)))"
    by (simp add: audited_def distinct_map inj_on_def inj_def)
  with a assms(4) i(2) show "sound_game H sc g"
    by (auto simp: sound_game_def audited_def scored_def record_of_def)
qed

lemma series_artifacts_verify:
  assumes "\<forall>i. deps_ok (fac i)" and "0 < num_games" and "m_state m = INITIALIZING"
    and "run_series_headless H rp fr sha fac envs smoke num_games poll call arrive uid csha (m, b) =
           ((m', b'), Inr se)"
    and "se_terminated_reason se = ''completed''" and "\<forall>i. inj (\<lambda>k. te_nonce (envs i k))"
    and "usable_terms terms sc" and "\<forall>i. same_scoring sc (dp_scoring (fac i))" and "\<forall>x. ascii_text (H x)"
    and "jget decl ''game_uid'' JNull = JStr uid"
    and "write_series_artifacts H dumps (valid, decl) uid gid csha commit group_id terms se [] = (dir, Inr paths)"
  shows "verify_replay H rp' dir = Inr []"
proof -
  from completed_headless [OF assms(1-5)] have se: "honest_totals se"
    "se_sub_games se = series_records (se_run_results se)" "se_run_results se \<noteq> []"
    "\<forall>i < length (se_run_results se). game_audited H fac envs (se_run_results se) i" by blast+
  let ?gs = "zip (se_sub_games se) (se_run_results se)"
  let ?res = "result_of uid gid commit group_id csha se"
  have len: "length (se_sub_games se) = length (se_run_results se)" by (simp add: se(2) series_records_map)
  have dist: "distinct (map (sg_number \<circ> fst) ?gs)"
    by (simp add: se(2) zip_records comp_def record_of_def distinct_map inj_on_def)
  obtain d1 d2 p ps q where w: "save_artifact dumps valid decl (declaration_filename gid) [] = (d1, Inr p)"
    "write_sub_games H dumps uid gid csha terms ?gs d1 = (d2, Inr ps)"
    "save_artifact dumps (result_validate (build_result_artifact uid gid commit group_id csha se)) ?res
       (result_filename gid) d2 = (dir, Inr q)"
    using assms(11) by (auto simp: write_series_artifacts_def Let_def ebind_def eret_def elift_def rguard_def
        result_of_def split: prod.splits sum.splits if_splits)
  have d1: "d1 = [artifact_file (declaration_filename gid) decl]" using save_Inr [OF w(1)] by simp
  have d2: "d2 = d1 @ concat (map (\<lambda>g. [config_file uid gid csha terms g, log_file H uid gid g]) ?gs)"
    by (rule write_sub_games_dir [OF w(2) dist]) (simp add: d1 artifact_file_def)
  have dir: "dir = artifact_file (declaration_filename gid) decl #
      concat (map (\<lambda>g. [config_file uid gid csha terms g, log_file H uid gid g]) ?gs) @
      [artifact_file (result_filename gid) ?res]"
  proof -
    have "result_filename gid \<notin> set (map fst d2)"
      by (auto simp: d2 d1 config_file_def log_file_def artifact_file_def)
    from save_Inr [OF w(3) this] show ?thesis by (simp add: d2 d1)
  qed
  obtain gs1 gs2 where perm: "mset gs1 = mset ?gs" "mset gs2 = mset ?gs"
    and load: "load_bundle dir = Inr \<lparr>rb_declaration = Some decl, rb_configs = map (config_entry uid gid csha terms) gs1,
       rb_logs = map (log_entry H uid gid) gs2, rb_result = Some ?res\<rparr>"
    by (rule bundle_of_files [of dir gid decl ?res "sg_number \<circ> fst" "config_entry uid gid csha terms" "log_entry H uid gid" ?gs])
      (simp_all add: dir pairs_mset files_of_def config_file_def log_file_def)
  have sound: "\<forall>g \<in> set ?gs. sound_game H sc g"
    by (rule audited_games_sound [OF se(2) assms(6) se(4) assms(8)])
  have ne: "?gs \<noteq> []" using se(3) len by auto
  from runtime_logs.verify_written [OF refl refl len perm ne dist sound assms(7) se(1) assms(9,10)]
  show ?thesis by (simp add: verify_replay_def load)
qed

text \<open>
  C9. What the program publishes verifies: after a completed series whose nonces were never reused, if writing the
  artifacts into an empty directory succeeds, the offline verifier loads them and finds nothing, whether the
  totals were agreed, disputed or never confirmed. The terms must hold the scoring the
  runtime used, and the declaration the same game uid.
\<close>

theorem published_series_verifies:
  assumes "\<forall>i. deps_ok (fac i)" and "0 < num_games" and "m_state m = INITIALIZING"
    and "run_series_headless H rp fr sha fac envs smoke num_games poll call arrive uid csha (m, b) =
           ((m', b'), Inr se)"
    and "se_terminated_reason se = ''completed''" and "\<forall>i. inj (\<lambda>k. te_nonce (envs i k))"
    and "usable_terms terms sc" and "\<forall>i. same_scoring sc (dp_scoring (fac i))" and "\<forall>x. ascii_text (H x)"
    and "jget decl ''game_uid'' JNull = JStr uid"
    and "write_series_artifacts H dumps (valid, decl) uid gid csha commit group_id terms se [] = (dir, Inr paths)"
  shows "verify_replay H rp' dir = Inr []"
  using assms by (rule series_artifacts_verify)

text \<open>An instance: a smoke run against a cooperative peer, published under the sample terms.\<close>

definition size_H :: digest where
  "size_H j = replicate (size j) (CHR ''x'')"

definition sample_terms :: jobj where
  "sample_terms =
     [(''board_and_agents'', JObj [(''grid_size'', JInt 7)]),
      (''scoring'', JObj [(''_note'', JStr ''t''), (''capture_cop'', JInt 20), (''capture_thief'', JInt 5),
         (''survival_cop'', JInt 5), (''survival_thief'', JInt 10), (''tie_score'', JInt 2),
         (''technical_loss'', JInt 0)])]"

definition sample_sc :: jobj where
  "sample_sc = [(''capture_cop'', JInt 20), (''capture_thief'', JInt 5), (''survival_cop'', JInt 5),
     (''survival_thief'', JInt 10), (''tie_score'', JInt 2), (''technical_loss'', JInt 0)]"

lemma sample_terms_usable: "usable_terms sample_terms sample_sc"
  by (simp add: usable_terms_def scoring_from_terms_def sample_terms_def sample_sc_def at_key_def clean_def
      construct_def Scoring_fields_def)

lemma sample_scoring: "same_scoring sample_sc (dp_scoring sample_deps)"
  unfolding same_scoring_def
proof
  fix r show "case score_sub_game r (dp_scoring sample_deps) False of (p, t) \<Rightarrow>
      pair_eq (JInt p, JInt t) (expected_scores sample_sc r)"
    by (cases r) (simp_all add: score_sub_game_def sample_deps_def pair_eq_def expected_scores_def sample_sc_def attr_def)
qed

lemma save_ok: "save_artifact (\<lambda>_. []) (Inr ()) data path dir = (AList.update path (Inr (JObj data)) dir, Inr path)"
  by (simp add: save_artifact_def assert_no_credentials_def CREDENTIAL_NEEDLES_def lower_def Let_def)

lemma audit_verdict_values: "audit_outcome_value oc \<in> {''verified'', ''tamper_forfeit''}"
  by (cases oc) simp_all

lemma write_sub_games_ok:
  assumes "uid \<noteq> []" and "gid \<noteq> []" and "length csha = 64"
  shows "\<exists>dir' ps. write_sub_games H (\<lambda>_. []) uid gid csha terms gs dir = (dir', Inr ps)"
proof (induction gs arbitrary: dir)
  case Nil
  then show ?case by (simp add: eret_def)
next
  case (Cons g gs)
  obtain r c where g: "g = (r, c)" by fastforce
  have v: "config_validate (build_config_artifact uid gid n csha terms) = Inr ()"
    "log_validate (build_log_artifact uid gid n rs a) = Inr ()" for n rs a
    using assms audit_verdict_values [of "ar_outcome a"]
    by (simp_all add: config_validate_def build_config_artifact_def log_validate_def build_log_artifact_def)
  obtain dir1 ps where "write_sub_game H (\<lambda>_. []) uid gid csha terms g dir = (dir1, Inr ps)"
    by (simp add: g write_sub_game_def Let_def ebind_def v save_ok eret_def)
  moreover obtain dir2 qs where "write_sub_games H (\<lambda>_. []) uid gid csha terms gs dir1 = (dir2, Inr qs)"
    using Cons.IH by blast
  ultimately show ?case by (simp add: ebind_def eret_def)
qed

theorem published_series_verifies_witness:
  "\<exists>se m' b' dir paths. run_series_headless size_H (\<lambda>_. []) (\<lambda>_. []) id (\<lambda>_. sample_deps) (\<lambda>_. sample_envs)
      True 6 None (\<lambda>_. Inr ack_ok) (\<lambda>_. id) ''u'' (replicate 64 (CHR ''a'')) (new_machine INITIALIZING, new_inbox 100) =
        ((m', b'), Inr se) \<and>
    write_series_artifacts size_H (\<lambda>_. []) (Inr (), [(''game_uid'', JStr ''u'')]) ''u'' ''g''
      (replicate 64 (CHR ''a'')) ''c'' (JStr ''t'') sample_terms se [] = (dir, Inr paths) \<and>
    verify_replay size_H (\<lambda>_. []) dir = Inr []"
proof -
  let ?csha = "replicate 64 (CHR ''a'')" and ?decl = "[(''game_uid'', JStr ''u'')]"
  have m: "m_state (new_machine INITIALIZING) = INITIALIZING" by (simp add: new_machine_def)
  obtain m' se0 where run: "run_series size_H (\<lambda>_. []) (\<lambda>_. sample_deps) (\<lambda>_. sample_envs) 1 None None
      (new_machine INITIALIZING) = (m', Inr se0)" "se_terminated_reason se0 = ''completed''"
    using smoke_series_completes [where fac = "\<lambda>_. sample_deps" and envs = "\<lambda>_. sample_envs", OF sample_deps_ok m,
        of size_H "\<lambda>_. []"] inj_sample_nonce
    by (auto simp: sample_deps_def sample_envs_def cooperative_brain_env)
  obtain b1 r where aw: "await_opponent_agreement 100 (\<lambda>_. id) (opponent THIEF) (new_inbox 100) = (b1, r)" by fastforce
  obtain b' se where fin: "finalize_series_agreement (\<lambda>_. []) id (\<lambda>_. Inr ack_ok) 100 (\<lambda>_. id) ''u'' ?csha THIEF se0
      (new_inbox 100) = (b', Inr se)" and done1: "se_terminated_reason se = ''completed''"
    using run(2) aw by (simp add: finalize_series_agreement_def ebind_def eret_def exchange_and_resolve_agreement_def)
  have h: "run_series_headless size_H (\<lambda>_. []) (\<lambda>_. []) id (\<lambda>_. sample_deps) (\<lambda>_. sample_envs)
      True 6 None (\<lambda>_. Inr ack_ok) (\<lambda>_. id) ''u'' ?csha (new_machine INITIALIZING, new_inbox 100) = ((m', b'), Inr se)"
    using run(1) fin by (simp add: run_series_headless_def)
  have 1: "\<forall>i::nat. deps_ok sample_deps" by (simp add: sample_deps_ok)
  have 2: "0 < (6::int)" by simp
  from completed_headless [where fac = "\<lambda>_. sample_deps", OF 1 2 m h done1]
  have len: "length (se_sub_games se) = length (se_run_results se)" by (simp add: series_records_map)
  have v: "result_validate (build_result_artifact ''u'' ''g'' ''c'' (JStr ''t'') ?csha se) = Inr ()"
    by (simp add: result_validate_def build_result_artifact_def Let_def)
  obtain d2 ps where "write_sub_games size_H (\<lambda>_. []) ''u'' ''g'' ?csha sample_terms
      (zip (se_sub_games se) (se_run_results se)) [(declaration_filename ''g'', Inr (JObj ?decl))] = (d2, Inr ps)"
    using write_sub_games_ok [of "''u''" "''g''" ?csha] by fastforce
  then obtain dir paths where w: "write_series_artifacts size_H (\<lambda>_. []) (Inr (), ?decl) ''u'' ''g'' ?csha ''c'' (JStr ''t'')
      sample_terms se [] = (dir, Inr paths)"
    using len by (simp add: write_series_artifacts_def Let_def ebind_def save_ok eret_def elift_def v)
  have nonce: "\<forall>i::nat. inj (\<lambda>k. te_nonce (sample_envs k))" using inj_sample_nonce by blast
  have H: "\<forall>x. ascii_text (size_H x)" by (simp add: ascii_text_def size_H_def list_all_iff)
  have sc: "\<forall>i::nat. same_scoring sample_sc (dp_scoring sample_deps)" using sample_scoring by blast
  have decl: "jget ?decl ''game_uid'' JNull = JStr ''u''" by simp
  from published_series_verifies [where fac = "\<lambda>_. sample_deps" and envs = "\<lambda>_. sample_envs",
      OF 1 2 m h done1 nonce sample_terms_usable sc H decl w] h w
  show ?thesis by blast
qed

text \<open>
  C11. The verifier audits what the runtime audits: rebuilding the records from a log in which the steps of any
  current-schema records were written, tampered or not, and auditing them gives the verdict of the runtime's
  own audit of those records.
\<close>

theorem replay_audit_refines:
  assumes "\<forall>r \<in> set rs. current r \<and> ascii_text (sr_commit_hash r)"
  shows "rbind (traverse rebuild (map log_step rs)) (raw_audit H rp) = Inr (verified (audit_sealed_records H rs))"
  using assms by (rule replay_audit)

theorem replay_audit_refines_witness:
  "rbind (traverse rebuild (map log_step [\<lparr>sr_payload = sample_payload, sr_commit_hash = ''ab''\<rparr>])) (raw_audit size_H (\<lambda>_. [])) =
     Inr (verified (audit_sealed_records size_H [\<lparr>sr_payload = sample_payload, sr_commit_hash = ''ab''\<rparr>]))"
  by (rule replay_audit_refines) (simp add: current_def ascii_text_def sample_payload_def CURRENT_SCHEMA_VERSION_def)


text \<open>A digest that tells one dict from all others.\<close>

definition marker_H :: "jobj \<Rightarrow> digest" where
  "marker_H d j = (if j = JObj d then ''1'' else ''0'')"

definition sample_sealed :: sealed_record where
  "sample_sealed =
     (let p = sample_payload\<lparr>p_step := 0, p_role := ''thief'', p_sub_game_number := 1, p_win_claim := False,
                p_barrier_placed := None, p_capture_claim := None, p_schema_version := CURRENT_SCHEMA_VERSION\<rparr>
      in \<lparr>sr_payload = p, sr_commit_hash = ''1''\<rparr>)"

lemma sample_sealed_current: "current sample_sealed"
  by (simp add: current_def sample_sealed_def Let_def)

lemma sample_sealed_matches:
  "recompute_matches (marker_H (to_canonical_dict (sr_payload sample_sealed))) sample_sealed"
  by (simp add: recompute_matches_def commit_hash_def marker_H_def) (simp add: sample_sealed_def Let_def)

lemma sample_sealed_ok: "record_ok (marker_H (to_canonical_dict (sr_payload sample_sealed))) 1 0 sample_sealed"
  using sample_sealed_matches by (simp add: record_ok_def) (simp add: sample_sealed_def Let_def)


text \<open>A directory of one sub-game, with the step of its log and the result of its entry left open.\<close>

definition small_config :: jobj where
  "small_config = [(''game_uid'', JStr ''u''), (''sub_game_number'', JInt 1), (''config_sha256'', JStr ''c''),
     (''terms'', JObj sample_terms)]"

definition small_log :: "json \<Rightarrow> jobj" where
  "small_log step = [(''game_uid'', JStr ''u''), (''sub_game_number'', JInt 1), (''steps'', JList [step])]"

definition small_result :: "string \<Rightarrow> jobj" where
  "small_result outcome =
     [(''game_uid'', JStr ''u''), (''config_sha256'', JStr ''c''),
      (''sub_games'', JList [JObj [(''sub_game_number'', JInt 1), (''result'', JStr outcome),
         (''police_score'', JInt 5), (''thief_score'', JInt 10), (''steps'', JInt 1)]]),
      (''police_total'', JInt 5), (''thief_total'', JInt 10), (''agreement_status'', JStr ''agreed'')]"

definition small_dir :: "json \<Rightarrow> string \<Rightarrow> directory" where
  "small_dir step outcome =
     [artifact_file ''config_g.json'' small_config, artifact_file ''log_g.json'' (small_log step),
      artifact_file ''result_g.json'' (small_result outcome)]"

lemma load_small_dir:
  "load_bundle (small_dir step outcome) = Inr \<lparr>rb_declaration = None, rb_configs = [small_config],
     rb_logs = [small_log step], rb_result = Some (small_result outcome)\<rparr>"
  by (simp add: load_bundle_def small_dir_def load_one_def glob_def artifact_file_def load_json_def)

lemma verify_small_bundle:
  assumes n: "board_size_of small_config = Inr n" and "\<And>d. decl = Some d \<Longrightarrow> jget d ''game_uid'' JNull = JStr ''u''"
  shows "verify_bundle H rp \<lparr>rb_declaration = decl, rb_configs = [small_config], rb_logs = [small_log step],
       rb_result = Some (small_result outcome)\<rparr> =
       rbind (verify_log H rp (small_log step) n) (\<lambda>f6.
       rbind (guarded caught_on_scores ScoreRecomputationFailed
          (verify_scores (small_result outcome) (sample_sc))) (\<lambda>f7.
       Inr (f6 @ f7)))"
proof -
  let ?b = "\<lparr>rb_declaration = decl, rb_configs = [small_config], rb_logs = [small_log step],
     rb_result = Some (small_result outcome)\<rparr>"
  have 1: "check_game_uid ?b = Inr []"
    using assms(2)
    by (cases decl) (simp_all add: check_game_uid_def all_dicts_def small_config_def small_log_def small_result_def py_set_def json_in_def)
  have 2: "check_config_hashes ?b = Inr []"
    by (simp add: check_config_hashes_def small_config_def small_result_def py_set_def json_in_def)
  have 3: "check_counts ?b (small_result outcome) = Inr []"
    by (simp add: check_counts_def small_result_def py_len_def)
  have 4: "check_no_duplicate_sub_games ?b = Inr []"
    by (simp add: check_no_duplicate_sub_games_def check_duplicates_def duplicates_def py_set_def)
  have 5: "check_step_counts ?b (small_result outcome) = Inr []"
    by (simp add: check_step_counts_def small_result_def check_step_count_def at_key_def small_log_def py_len_def)
  have t: "jindex small_config ''terms'' = Inr (JObj sample_terms)" by (simp add: small_config_def)
  have sc: "scoring_from_terms (JObj sample_terms) = Inr sample_sc"
    using sample_terms_usable by (simp add: usable_terms_def)
  show ?thesis
    by (simp add: verify_bundle_def 1 2 3 4 5 n t sc)
       (cases "verify_log H rp (small_log step) n"; simp)
qed

lemma verify_small_dir:
  assumes "board_size_of small_config = Inr n"
  shows "verify_replay H rp (small_dir step outcome) =
       rbind (verify_log H rp (small_log step) n) (\<lambda>f6.
       rbind (guarded caught_on_scores ScoreRecomputationFailed
          (verify_scores (small_result outcome) (sample_sc))) (\<lambda>f7.
       Inr (f6 @ f7)))"
  using verify_small_bundle [OF assms, where decl = None] by (simp add: verify_replay_def load_small_dir)

lemma small_board: "board_size_of small_config = Inr (JInt 7)"
  by (simp add: board_size_of_def small_config_def sample_terms_def at_key_def)


end
