(* ===== verification/PrivateConfig.thy ===== *)
theory PrivateConfig
  imports PyConv
begin

text \<open>
  The private, per-peer configuration (\<^verbatim>\<open>shared/private_config.py\<close>): the parsed \<^verbatim>\<open>game.toml\<close> as untyped values.
  A TOML date is not a value of the model. \<open>rp\<close> is the runtime's \<^verbatim>\<open>str\<close> of floats and containers.
\<close>

section \<open>Records\<close>

record game_identity =
  gi_group_name :: json
  gi_group_id :: json
  gi_sub_game_number :: int
  gi_members :: "json list"
  gi_repos :: pydict

record network_private =
  np_my_port :: int
  np_opponent_url :: json
  np_turn_timeout_seconds :: int

record email_config =
  ec_recipient :: json
  ec_mode :: json
  ec_credentials_dir_env_var :: json

record strategy_config =
  st_thief_class :: json
  st_profile :: json
  st_weights :: jobj

record private_config =
  pv_version :: string
  pv_game :: game_identity
  pv_network :: network_private
  pv_trash_talk :: json
  pv_email :: email_config
  pv_strategy :: strategy_config
  pv_seed :: int

definition KNOWN_PROFILES :: "string list" where
  "KNOWN_PROFILES = [''baseline'', ''advanced'', ''experiment'']"

definition DEFAULT_THIEF_CLASS :: string where
  "DEFAULT_THIEF_CLASS = ''thief_peer.strategy.baseline_thief_brain:BaselineThiefBrain''"

section \<open>Loading\<close>

definition game_identity_of :: "json \<Rightarrow> game_identity res" where
  "game_identity_of raw =
     rbind (at_key raw ''group_name'') (\<lambda>name.
     rbind (at_key raw ''group_id'') (\<lambda>gid.
     rbind (obj_or_raise raw) (\<lambda>d.
     rbind (py_int (jget d ''sub_game_number'' (JInt 1))) (\<lambda>number.
     rbind (py_tuple (jget d ''members'' (JList []))) (\<lambda>members.
     rbind (py_dict (jget d ''repos'' (JObj []))) (\<lambda>repos.
       Inr \<lparr>gi_group_name = name, gi_group_id = gid, gi_sub_game_number = number, gi_members = members,
            gi_repos = repos\<rparr>))))))"

definition network_private_of :: "json \<Rightarrow> network_private res" where
  "network_private_of raw =
     rbind (at_key raw ''my_port'') (\<lambda>p.
     rbind (py_int p) (\<lambda>port.
     rbind (at_key raw ''opponent_url'') (\<lambda>url.
     rbind (obj_or_raise raw) (\<lambda>d.
     rbind (py_int (jget d ''turn_timeout_seconds'' (JInt 180))) (\<lambda>timeout.
       Inr \<lparr>np_my_port = port, np_opponent_url = url, np_turn_timeout_seconds = timeout\<rparr>)))))"

definition email_config_of :: "json \<Rightarrow> email_config res" where
  "email_config_of raw =
     rbind (obj_or_raise raw) (\<lambda>d.
       Inr \<lparr>ec_recipient = jget d ''recipient'' (JStr []), ec_mode = jget d ''mode'' (JStr ''disabled''),
            ec_credentials_dir_env_var = jget d ''credentials_dir_env_var'' (JStr ''GOOGLE_OAUTH_CREDENTIAL_DIR'')\<rparr>)"

text \<open>\<^verbatim>\<open>isinstance(v, int | float) and not isinstance(v, bool)\<close>.\<close>

definition is_weight :: "json \<Rightarrow> bool" where
  "is_weight v \<longleftrightarrow> (case v of JInt _ \<Rightarrow> True | JFloat _ \<Rightarrow> True | _ \<Rightarrow> False)"

definition strategy_config_of :: "json \<Rightarrow> strategy_config res" where
  "strategy_config_of raw =
     rbind (obj_or_raise raw) (\<lambda>d.
     let profile = jget d ''profile'' (JStr ''baseline'') in
     if \<not> hashable profile then Inl TypeError
     else if \<not> json_in profile (map JStr KNOWN_PROFILES) then Inl (ConfigError ''unknown strategy profile'')
     else rbind (obj_or_raise (jget d ''weights'' (JObj []))) (\<lambda>weights.
       if \<not> list_all (\<lambda>(_, v). is_weight v) weights
       then Inl (ConfigError ''strategy.weights values must all be numeric'')
       else Inr \<lparr>st_thief_class = jget d ''thief_class'' (JStr DEFAULT_THIEF_CLASS), st_profile = profile,
                 st_weights = weights\<rparr>))"

definition private_from_dict :: "(json \<Rightarrow> string) \<Rightarrow> jobj \<Rightarrow> private_config res" where
  "private_from_dict rp data =
     (if \<not> jhas data ''game'' \<or> \<not> jhas data ''network'' then Inl (ConfigError ''missing required private config table'')
      else
        rbind (game_identity_of (jget data ''game'' JNull)) (\<lambda>game.
        rbind (network_private_of (jget data ''network'' JNull)) (\<lambda>network.
        rbind (obj_or_raise (jget data ''trash_talk'' (JObj []))) (\<lambda>talk.
        rbind (email_config_of (jget data ''email'' (JObj []))) (\<lambda>email.
        rbind (strategy_config_of (jget data ''strategy'' (JObj []))) (\<lambda>strategy.
        rbind (obj_or_raise (jget data ''play'' (JObj []))) (\<lambda>play.
        rbind (py_int (jget play ''seed'' (JInt 0))) (\<lambda>seed.
          Inr \<lparr>pv_version = py_str rp (jget data ''version'' (JStr ''0.0.0'')), pv_game = game,
               pv_network = network, pv_trash_talk = jget talk ''provider'' (JStr ''template''),
               pv_email = email, pv_strategy = strategy, pv_seed = seed\<rparr>))))))))"

text \<open>\<^verbatim>\<open>load_private_config\<close> after the file was parsed; text that does not parse is a \<open>ConfigError\<close>.\<close>

definition load_private_config :: "(json \<Rightarrow> string) \<Rightarrow> jobj option \<Rightarrow> private_config res" where
  "load_private_config rp parsed =
     (case parsed of
        None \<Rightarrow> Inl (ConfigError ''invalid TOML in private config'')
      | Some data \<Rightarrow> rbind (assert_no_shared_table_override data) (\<lambda>_. private_from_dict rp data))"

section \<open>What loads\<close>

definition private_ok :: "private_config \<Rightarrow> bool" where
  "private_ok p \<longleftrightarrow>
     list_ex (\<lambda>s. st_profile (pv_strategy p) = JStr s) KNOWN_PROFILES \<and>
     list_all (\<lambda>(_, v). is_weight v) (st_weights (pv_strategy p))"

lemma json_eq_str: "json_eq (JStr s) v \<Longrightarrow> v = JStr s"
  by (cases v) simp_all

lemma strategy_config_ok:
  assumes "strategy_config_of raw = Inr s"
  shows "list_ex (\<lambda>n. st_profile s = JStr n) KNOWN_PROFILES \<and> list_all (\<lambda>(_, v). is_weight v) (st_weights s)"
  using assms json_eq_str
  by (fastforce simp: strategy_config_of_def res_simps Let_def json_in_def list_ex_iff split: if_splits)

lemma private_loads_ok:
  assumes "load_private_config rp parsed = Inr p"
  shows "private_ok p \<and> (\<exists>data. parsed = Some data \<and> list_all (\<lambda>k. \<not> jhas data k) SHARED_TABLE_KEYS)"
proof -
  obtain data where d: "parsed = Some data" and no: "\<not> list_ex (jhas data) SHARED_TABLE_KEYS"
    and r: "private_from_dict rp data = Inr p"
    using assms by (auto simp: load_private_config_def assert_no_shared_table_override_def split: option.splits if_splits)
  from r obtain s where "strategy_config_of (jget data ''strategy'' (JObj [])) = Inr s" "pv_strategy p = s"
    by (auto simp: private_from_dict_def res_simps split: if_splits)
  from strategy_config_ok [OF this(1)] this(2) no d show ?thesis
    by (simp add: private_ok_def list_ex_iff list_all_iff)
qed

end
