(* ===== verification/Declaration.thy ===== *)
theory Declaration
  imports PrivateConfig
begin

text \<open>
  The Step-0 declaration of a peer: hardware probing (\<^verbatim>\<open>domain/hardware.py\<close>), the model
  (\<^verbatim>\<open>declaration.py\<close>), building it (\<^verbatim>\<open>declaration_builder.py\<close>), parsing one (\<^verbatim>\<open>declaration_parsing.py\<close>) and
  comparing one with the expected values (\<^verbatim>\<open>declaration_checks.py\<close>). What the machine, git and the clock answer
  are parameters.
\<close>

section \<open>Hardware\<close>

definition HARDWARE_FIELDS :: "string list" where
  "HARDWARE_FIELDS =
     [''operating_system'', ''platform_detail'', ''python_version'', ''cpu_model'', ''cpu_model_status'',
      ''cpu_cores'', ''ram_gb'', ''ram_status'', ''gpu_model'', ''gpu_available'', ''gpu_status'', ''vram_gb'',
      ''vram_status'']"

text \<open>
  What the platform answers: \<open>sysctl\<close> is the outcome of the command with its exit code and output, \<open>cpuinfo\<close> the lines
  of \<^verbatim>\<open>/proc/cpuinfo\<close> (none if it cannot be read), \<open>ram\<close> the page size and count where \<^verbatim>\<open>os.sysconf\<close> gives them.
\<close>

record platform_env =
  pe_system :: string
  pe_platform :: string
  pe_version :: string
  pe_cpu_count :: "nat option"
  pe_sysctl :: "(int \<times> string) option"
  pe_cpuinfo :: "string list"
  pe_processor :: string
  pe_ram :: "(int \<times> int) option"

definition opt_str :: "string option \<Rightarrow> json" where
  "opt_str = case_option JNull JStr"

text \<open>\<^verbatim>\<open>line.split(":", 1)[1].strip()\<close>; a line without a colon raises.\<close>

definition after_colon :: "string \<Rightarrow> string res" where
  "after_colon line =
     (case dropWhile (\<lambda>c. c \<noteq> CHR '':'') line of [] \<Rightarrow> Inl IndexError | _ # rest \<Rightarrow> Inr (strip rest))"

definition processor_fallback :: "platform_env \<Rightarrow> string option \<times> string" where
  "processor_fallback e =
     (if pe_processor e \<noteq> [] then (Some (pe_processor e), ''ok (platform.processor fallback)'')
      else (None, ''unavailable on this platform''))"

definition probe_cpu_model :: "platform_env \<Rightarrow> (string option \<times> string) res" where
  "probe_cpu_model e =
     (if pe_system e = ''Darwin'' then
        (case pe_sysctl e of
           None \<Rightarrow> Inr (None, ''unavailable: cpu probe raised'')
         | Some (code, out) \<Rightarrow>
             if code = 0 \<and> strip out \<noteq> [] then Inr (Some (strip out), ''ok'') else Inr (processor_fallback e))
      else if pe_system e = ''Linux'' then
        (case List.find (\<lambda>line. take 10 line = ''model name'') (pe_cpuinfo e) of
           Some line \<Rightarrow> rbind (after_colon line) (\<lambda>model. Inr (Some model, ''ok''))
         | None \<Rightarrow> Inr (processor_fallback e))
      else Inr (processor_fallback e))"

text \<open>\<open>round2\<close> is \<^verbatim>\<open>round(x, 2)\<close>.\<close>

definition probe_ram_gb :: "(real \<Rightarrow> real) \<Rightarrow> platform_env \<Rightarrow> json \<times> string" where
  "probe_ram_gb round2 e =
     (case pe_ram e of
        Some (page_size, pages) \<Rightarrow>
          (JFloat (Fin (round2 (of_int (page_size * pages) / 1024 ^ 3))), ''ok (os.sysconf)'')
      | None \<Rightarrow> (JNull, ''unavailable: no os.sysconf RAM query on this platform''))"

definition probe_hardware :: "(real \<Rightarrow> real) \<Rightarrow> platform_env \<Rightarrow> jobj res" where
  "probe_hardware round2 e =
     rbind (probe_cpu_model e) (\<lambda>(cpu, cpu_status).
       let (ram, ram_status) = probe_ram_gb round2 e;
           no_gpu = ''unavailable: no reliable cross-platform GPU/VRAM probe''
       in rbind (case split_words (pe_version e) of [] \<Rightarrow> Inl IndexError | v # _ \<Rightarrow> Inr v) (\<lambda>version.
            Inr [(''operating_system'', JStr (if pe_system e \<noteq> [] then pe_system e else ''unknown'')),
                 (''platform_detail'', JStr (pe_platform e)),
                 (''python_version'', JStr version),
                 (''cpu_model'', opt_str cpu),
                 (''cpu_model_status'', JStr cpu_status),
                 (''cpu_cores'', (case pe_cpu_count e of None \<Rightarrow> JNull | Some n \<Rightarrow> JInt (int n))),
                 (''ram_gb'', ram),
                 (''ram_status'', JStr ram_status),
                 (''gpu_model'', JNull),
                 (''gpu_available'', JBool False),
                 (''gpu_status'', JStr no_gpu),
                 (''vram_gb'', JNull),
                 (''vram_status'', JStr no_gpu)]))"

section \<open>The model\<close>

definition SCHEMA_VERSION :: string where
  "SCHEMA_VERSION = ''declaration/2''"

definition ALIASES :: "(string \<times> string) list" where
  "ALIASES = [(''commit_hash'', ''git_commit''), (''config_sha256'', ''shared_config_sha256'')]"

definition TOP_LEVEL_FIELDS :: "string list" where
  "TOP_LEVEL_FIELDS =
     [''schema_version'', ''game_id'', ''game_uid'', ''role'', ''group_id'', ''group_name'', ''members'',
      ''police_repository'', ''thief_repository'', ''police_mcp_url'', ''thief_mcp_url'', ''timezone'',
      ''timestamp'', ''token_budget'', ''num_sub_games'', ''shared_config_sha256'', ''code_version'',
      ''git_commit'', ''strategy_class'', ''banter_provider'', ''hardware'', ''content_sha256'']"

record peer_declaration =
  pd_schema_version :: json
  pd_game_id :: json
  pd_game_uid :: json
  pd_role :: json
  pd_group_id :: json
  pd_group_name :: json
  pd_members :: "json list"
  pd_police_repository :: json
  pd_thief_repository :: json
  pd_police_mcp_url :: json
  pd_thief_mcp_url :: json
  pd_timezone :: json
  pd_timestamp :: json
  pd_token_budget :: json
  pd_num_sub_games :: json
  pd_shared_config_sha256 :: json
  pd_code_version :: json
  pd_git_commit :: json
  pd_strategy_class :: json
  pd_banter_provider :: json
  pd_hardware :: jobj
  pd_content_sha256 :: json

text \<open>\<^verbatim>\<open>getattr\<close> of every hardware field: the snapshot has exactly these.\<close>

definition hardware_to_dict :: "jobj \<Rightarrow> jobj" where
  "hardware_to_dict hw = map (\<lambda>k. (k, attr hw k)) HARDWARE_FIELDS"

definition declaration_to_dict :: "peer_declaration \<Rightarrow> jobj" where
  "declaration_to_dict d =
     [(''schema_version'', pd_schema_version d),
      (''game_id'', pd_game_id d),
      (''game_uid'', pd_game_uid d),
      (''role'', pd_role d),
      (''group_id'', pd_group_id d),
      (''group_name'', pd_group_name d),
      (''members'', JList (pd_members d)),
      (''police_repository'', pd_police_repository d),
      (''thief_repository'', pd_thief_repository d),
      (''police_mcp_url'', pd_police_mcp_url d),
      (''thief_mcp_url'', pd_thief_mcp_url d),
      (''timezone'', pd_timezone d),
      (''timestamp'', pd_timestamp d),
      (''token_budget'', pd_token_budget d),
      (''num_sub_games'', pd_num_sub_games d),
      (''shared_config_sha256'', pd_shared_config_sha256 d),
      (''code_version'', pd_code_version d),
      (''git_commit'', pd_git_commit d),
      (''strategy_class'', pd_strategy_class d),
      (''banter_provider'', pd_banter_provider d),
      (''hardware'', JObj (hardware_to_dict (pd_hardware d))),
      (''content_sha256'', pd_content_sha256 d)]"

text \<open>The length of something that has none, and comparing something that is not a number, raise.\<close>

definition check_digest_length :: "json \<Rightarrow> string \<Rightarrow> unit res" where
  "check_digest_length v name =
     rbind (py_len v) (\<lambda>n. rguard (n = 64) (SchemaValidationError (name @ '' must be a 64-char digest'')))"

definition declaration_validate :: "peer_declaration \<Rightarrow> unit res" where
  "declaration_validate d =
     (if \<not> truthy (pd_group_id d) \<or> \<not> truthy (pd_group_name d)
      then Inl (SchemaValidationError ''declaration needs group_id and group_name'')
      else
        rbind (check_digest_length (pd_shared_config_sha256 d) ''shared_config_sha256'') (\<lambda>_.
        rbind (rguard (json_eq (pd_schema_version d) (JStr SCHEMA_VERSION))
                 (SchemaValidationError ''unsupported schema_version'')) (\<lambda>_.
        rbind (rguard (json_in (pd_role d) [JStr ''police'', JStr ''thief''])
                 (SchemaValidationError ''role must be police or thief'')) (\<lambda>_.
        rbind (lt_int (pd_num_sub_games d) 1) (\<lambda>few.
        rbind (rguard (\<not> few) (SchemaValidationError ''num_sub_games must be >= 1'')) (\<lambda>_.
          check_digest_length (pd_content_sha256 d) ''content_sha256''))))))"

section \<open>Building\<close>

text \<open>
  The commit of the code: \<open>git\<close> is the outcome of the git command where \<^verbatim>\<open>.git\<close> exists (none if it raised), \<open>build\<close> the text
  of \<^verbatim>\<open>BUILD_COMMIT\<close> where that exists.
\<close>

definition git_commit_hash :: "(int \<times> string) option option \<Rightarrow> string option \<Rightarrow> string" where
  "git_commit_hash git build =
     (let fallback = (case build of Some text \<Rightarrow> strip text | None \<Rightarrow> ''unknown'')
      in case git of
           Some (Some (code, out)) \<Rightarrow> if code = 0 \<and> strip out \<noteq> [] then strip out else fallback
         | _ \<Rightarrow> fallback)"

text \<open>\<open>pyproject\<close> is the parsed file, none where it cannot be read or parsed.\<close>

definition code_version :: "(json \<Rightarrow> string) \<Rightarrow> jobj option \<Rightarrow> string res" where
  "code_version rp pyproject =
     (case pyproject of
        None \<Rightarrow> Inr ''0.0.0''
      | Some data \<Rightarrow> rbind (obj_or_raise (jget data ''project'' (JObj []))) (\<lambda>project.
          Inr (py_str rp (jget project ''version'' (JStr ''0.0.0'')))))"

record declaration_context =
  dx_role :: string
  dx_game_id :: string
  dx_game_uid :: string
  dx_token_budget :: json
  dx_num_sub_games :: json
  dx_config_sha256 :: string
  dx_my_mcp_url :: string
  dx_opponent_mcp_url :: json

text \<open>What the outside answers when a declaration is built: hardware, the two readings of the clock, version and commit.\<close>

record build_env =
  be_hardware :: jobj
  be_timezone :: string
  be_timestamp :: string
  be_code_version :: string
  be_git_commit :: string

definition pre_hash_fields :: "private_config \<Rightarrow> declaration_context \<Rightarrow> build_env \<Rightarrow> jobj" where
  "pre_hash_fields p x e =
     (let game = pv_game p; mine = JStr (dx_my_mcp_url x); theirs = dx_opponent_mcp_url x
      in [(''schema_version'', JStr SCHEMA_VERSION),
          (''game_id'', JStr (dx_game_id x)),
          (''game_uid'', JStr (dx_game_uid x)),
          (''role'', JStr (dx_role x)),
          (''group_id'', gi_group_id game),
          (''group_name'', gi_group_name game),
          (''members'', JList (gi_members game)),
          (''police_repository'', pydict_get (gi_repos game) ''police'' (JStr ''local-placeholder://police_peer'')),
          (''thief_repository'', pydict_get (gi_repos game) ''thief'' (JStr ''local-placeholder://thief_peer'')),
          (''police_mcp_url'', if dx_role x = ''police'' then mine else theirs),
          (''thief_mcp_url'', if dx_role x = ''thief'' then mine else theirs),
          (''timezone'', JStr (be_timezone e)),
          (''timestamp'', JStr (be_timestamp e)),
          (''token_budget'', dx_token_budget x),
          (''num_sub_games'', dx_num_sub_games x),
          (''shared_config_sha256'', JStr (dx_config_sha256 x)),
          (''code_version'', JStr (be_code_version e)),
          (''git_commit'', JStr (be_git_commit e)),
          (''strategy_class'', st_thief_class (pv_strategy p)),
          (''banter_provider'', pv_trash_talk p),
          (''hardware'', JObj (hardware_to_dict (be_hardware e)))])"

definition build_declaration ::
    "(pyfloat \<Rightarrow> string) \<Rightarrow> (string \<Rightarrow> string) \<Rightarrow> private_config \<Rightarrow> declaration_context \<Rightarrow> build_env
       \<Rightarrow> peer_declaration" where
  "build_declaration fr sha p x e =
     (let f = pre_hash_fields p x e in
      \<lparr>pd_schema_version = attr f ''schema_version'', pd_game_id = attr f ''game_id'',
       pd_game_uid = attr f ''game_uid'', pd_role = attr f ''role'', pd_group_id = attr f ''group_id'',
       pd_group_name = attr f ''group_name'', pd_members = gi_members (pv_game p),
       pd_police_repository = attr f ''police_repository'', pd_thief_repository = attr f ''thief_repository'',
       pd_police_mcp_url = attr f ''police_mcp_url'', pd_thief_mcp_url = attr f ''thief_mcp_url'',
       pd_timezone = attr f ''timezone'', pd_timestamp = attr f ''timestamp'',
       pd_token_budget = attr f ''token_budget'', pd_num_sub_games = attr f ''num_sub_games'',
       pd_shared_config_sha256 = attr f ''shared_config_sha256'', pd_code_version = attr f ''code_version'',
       pd_git_commit = attr f ''git_commit'', pd_strategy_class = attr f ''strategy_class'',
       pd_banter_provider = attr f ''banter_provider'', pd_hardware = be_hardware e,
       pd_content_sha256 = JStr (canonical_sha256_hex fr sha (JObj f))\<rparr>)"

section \<open>Parsing\<close>

text \<open>One alias: popped, compared with the canonical value where that is there, else put in its place.\<close>

definition normalize_alias :: "string \<times> string \<Rightarrow> jobj \<Rightarrow> jobj res" where
  "normalize_alias = (\<lambda>(alias, canonical) data.
     (case map_of data alias of
        None \<Rightarrow> Inr data
      | Some v \<Rightarrow>
          let rest = filter (\<lambda>(k, _). k \<noteq> alias) data in
          (case map_of rest canonical of
             Some w \<Rightarrow> if \<not> json_eq w v then Inl (SchemaValidationError ''ambiguous declaration input'') else Inr rest
           | None \<Rightarrow> Inr (rest @ [(canonical, v)]))))"

fun normalize_aliases :: "(string \<times> string) list \<Rightarrow> jobj \<Rightarrow> jobj res" where
  "normalize_aliases [] data = Inr data"
| "normalize_aliases (a # as) data = rbind (normalize_alias a data) (normalize_aliases as)"

text \<open>The names in a set of strings that the schema does not know; sorting them for the message may raise.\<close>

definition check_known :: "json list \<Rightarrow> string list \<Rightarrow> string \<Rightarrow> unit res" where
  "check_known names known what =
     rbind (py_set names) (\<lambda>ns.
       let extra = filter (\<lambda>n. \<not> json_in n (map JStr known)) ns
       in if extra = [] then Inr () else if \<not> sortable extra then Inl TypeError
          else Inl (SchemaValidationError what))"

definition parse_declaration :: "jobj \<Rightarrow> peer_declaration res" where
  "parse_declaration data =
     rbind (normalize_aliases ALIASES data) (\<lambda>n.
     rbind (check_known (map (\<lambda>(k, _). JStr k) n) TOP_LEVEL_FIELDS ''unknown declaration field(s)'') (\<lambda>_.
     if \<not> list_all (jhas n) TOP_LEVEL_FIELDS
     then Inl (SchemaValidationError ''declaration missing required fields'')
     else let hw_raw = attr n ''hardware'' in
     rbind (py_tuple hw_raw) (\<lambda>hw_names.
     rbind (check_known hw_names HARDWARE_FIELDS ''unknown hardware field(s)'') (\<lambda>_.
     rbind (py_tuple (attr n ''members'')) (\<lambda>members.
     rbind (py_int (attr n ''token_budget'')) (\<lambda>budget.
     rbind (py_int (attr n ''num_sub_games'')) (\<lambda>games.
     rbind (traverse (\<lambda>k. rbind (at_key hw_raw k) (\<lambda>v. Inr (k, v))) HARDWARE_FIELDS) (\<lambda>hw.
     let d = \<lparr>pd_schema_version = attr n ''schema_version'', pd_game_id = attr n ''game_id'',
              pd_game_uid = attr n ''game_uid'', pd_role = attr n ''role'', pd_group_id = attr n ''group_id'',
              pd_group_name = attr n ''group_name'', pd_members = members,
              pd_police_repository = attr n ''police_repository'', pd_thief_repository = attr n ''thief_repository'',
              pd_police_mcp_url = attr n ''police_mcp_url'', pd_thief_mcp_url = attr n ''thief_mcp_url'',
              pd_timezone = attr n ''timezone'', pd_timestamp = attr n ''timestamp'',
              pd_token_budget = JInt budget, pd_num_sub_games = JInt games,
              pd_shared_config_sha256 = attr n ''shared_config_sha256'',
              pd_code_version = attr n ''code_version'', pd_git_commit = attr n ''git_commit'',
              pd_strategy_class = attr n ''strategy_class'', pd_banter_provider = attr n ''banter_provider'',
              pd_hardware = hw, pd_content_sha256 = attr n ''content_sha256''\<rparr>
     in rbind (declaration_validate d) (\<lambda>_. Inr d)))))))))"

text \<open>The reasons to refuse to play.\<close>

definition declaration_mismatches :: "peer_declaration \<Rightarrow> json \<Rightarrow> json \<Rightarrow> json \<Rightarrow> string list" where
  "declaration_mismatches d expected_config_sha256 expected_group_id expected_schema_version =
     (if \<not> json_eq (pd_shared_config_sha256 d) expected_config_sha256 then [''shared_config_sha256 mismatch''] else []) @
     (if \<not> json_eq (pd_group_id d) expected_group_id then [''identity (group_id) mismatch''] else []) @
     (if \<not> json_eq (pd_schema_version d) expected_schema_version then [''schema version mismatch''] else [])"

end
