(* ===== verification/DeclarationClaims.thy ===== *)
theory DeclarationClaims
  imports Declaration
begin

text \<open>
  The declaration of a peer: what is written parses back to the same declaration, its content digest covers every
  other field, and what parses is valid.
\<close>

section \<open>Lemmas\<close>

lemma attr_members: "distinct (map fst d) \<Longrightarrow> map (\<lambda>k. (k, attr d k)) (map fst d) = d"
proof (induction d)
  case (Cons kv d)
  obtain a b where kv: "kv = (a, b)" by fastforce
  have "map (\<lambda>k. (k, attr (kv # d) k)) (map fst d) = map (\<lambda>k. (k, attr d k)) (map fst d)"
    using Cons.prems kv by (intro map_cong) (auto simp: attr_def)
  also have "\<dots> = d" using Cons by simp
  finally show ?case by (simp add: kv attr_def)
qed simp

lemma keys_map: "map (\<lambda>(k, _). f k) d = map f (map fst d)"
  by (simp add: case_prod_beta)

definition full_hardware :: "jobj \<Rightarrow> bool" where
  "full_hardware hw \<longleftrightarrow> map fst hw = HARDWARE_FIELDS"

lemma hardware_fields_distinct: "distinct HARDWARE_FIELDS"
  by (simp add: HARDWARE_FIELDS_def)

lemma hardware_to_dict_full: "full_hardware hw \<Longrightarrow> hardware_to_dict hw = hw"
  using attr_members [of hw] hardware_fields_distinct by (simp add: full_hardware_def hardware_to_dict_def)

lemma probe_hardware_full: "probe_hardware round2 e = Inr hw \<Longrightarrow> full_hardware hw"
  by (cases "probe_ram_gb round2 e") (auto simp: probe_hardware_def full_hardware_def HARDWARE_FIELDS_def res_simps Let_def)

lemma py_set_strs: "distinct ks \<Longrightarrow> py_set (map JStr ks) = Inr (map JStr ks)"
proof -
  have "dedup (map JStr ks) = map JStr ks" if "distinct ks" for ks
    using that by (induction ks) (auto simp: json_in_def list_ex_iff)
  moreover have "list_all hashable (map JStr ks)" by (induction ks) simp_all
  ultimately show "distinct ks \<Longrightarrow> ?thesis" by (simp add: py_set_def)
qed

lemma check_known_ok:
  assumes "distinct ks" and "set ks \<subseteq> set known"
  shows "check_known (map JStr ks) known what = Inr ()"
  using assms by (auto simp: check_known_def py_set_strs filter_empty_conv json_in_def list_ex_iff)

lemma hardware_lookup:
  assumes "full_hardware hw"
  shows "traverse (\<lambda>k. rbind (at_key (JObj hw) k) (\<lambda>v. Inr (k, v))) HARDWARE_FIELDS = Inr hw"
proof -
  have "at_key (JObj hw) k = Inr (attr hw k)" if "k \<in> set HARDWARE_FIELDS" for k
  proof -
    from that assms have "k \<in> set (map fst hw)" by (simp only: full_hardware_def)
    then obtain v where "map_of hw k = Some v" by (auto simp: map_of_eq_None_iff dest!: weak_map_of_SomeI)
    then show ?thesis by (simp add: at_key_def attr_def jget_def jindex_def)
  qed
  then have "traverse (\<lambda>k. rbind (at_key (JObj hw) k) (\<lambda>v. Inr (k, v))) HARDWARE_FIELDS =
      Inr (map (\<lambda>k. (k, attr hw k)) HARDWARE_FIELDS)"
    by (intro traverse_Inr_total) simp
  then show ?thesis using hardware_to_dict_full [OF assms] by (simp add: hardware_to_dict_def)
qed

definition written_names :: "peer_declaration \<Rightarrow> string list" where
  "written_names d = map fst (declaration_to_dict d)"

lemma written_names_eq: "written_names d = TOP_LEVEL_FIELDS"
  by (simp add: written_names_def declaration_to_dict_def TOP_LEVEL_FIELDS_def)

lemma no_aliases: "normalize_aliases ALIASES (declaration_to_dict d) = Inr (declaration_to_dict d)"
  by (simp add: ALIASES_def normalize_alias_def declaration_to_dict_def)

text \<open>Parsing reads the members only as a map.\<close>

lemma parse_normalized:
  assumes "full_hardware (pd_hardware d)" and "pd_token_budget d = JInt a" and "pd_num_sub_games d = JInt b"
    and "declaration_validate d = Inr ()"
    and norm: "normalize_aliases ALIASES data = Inr n"
    and same: "map_of n = map_of (declaration_to_dict d)" and dist: "distinct (map fst n)"
  shows "parse_declaration data = Inr d"
proof -
  let ?w = "declaration_to_dict d"
  have at: "attr n k = attr ?w k" for k by (simp add: attr_def jget_def same)
  have "set (map fst n) = set (map fst ?w)" using dom_map_of_conv_image_fst [of n] dom_map_of_conv_image_fst [of ?w]
    by (simp only: same set_map)
  then have "set (map fst n) = set TOP_LEVEL_FIELDS" by (simp only: written_names_eq [unfolded written_names_def])
  then have known: "check_known (map (\<lambda>(k, _). JStr k) n) TOP_LEVEL_FIELDS what = Inr ()" for what
    using dist unfolding keys_map by (intro check_known_ok) simp_all
  have hw: "attr ?w ''hardware'' = JObj (pd_hardware d)"
    using hardware_to_dict_full [OF assms(1)] by (simp add: declaration_to_dict_def attr_def)
  have hw_names: "py_tuple (JObj (pd_hardware d)) = Inr (map JStr HARDWARE_FIELDS)"
    using assms(1) by (simp only: py_tuple.simps keys_map full_hardware_def)
  have hw_known: "check_known (map JStr HARDWARE_FIELDS) HARDWARE_FIELDS what = Inr ()" for what
    using hardware_fields_distinct by (rule check_known_ok) simp
  have "list_all (jhas ?w) TOP_LEVEL_FIELDS"
    by (simp add: declaration_to_dict_def TOP_LEVEL_FIELDS_def)
  then have present: "list_all (jhas n) TOP_LEVEL_FIELDS = True" by (simp add: jhas_def same list_all_iff)
  have numbers: "py_int (attr ?w ''token_budget'') = Inr a" "py_int (attr ?w ''num_sub_games'') = Inr b"
    "py_tuple (attr ?w ''members'') = Inr (pd_members d)"
    using assms(2,3) by (simp_all add: declaration_to_dict_def attr_def)
  show ?thesis
    unfolding parse_declaration_def norm known rbind.simps present Let_def at hw hw_names hw_known
      numbers hardware_lookup [OF assms(1)] not_True_eq_False if_False
    using assms(2-4) by (cases d) (simp add: declaration_to_dict_def attr_def)
qed

lemma written_distinct: "distinct (map fst (declaration_to_dict d))"
  using written_names_eq [of d] by (simp add: written_names_def TOP_LEVEL_FIELDS_def)

lemmas parse_written = parse_normalized [OF _ _ _ _ no_aliases refl written_distinct]

text \<open>The same members under the names of the first version of the schema.\<close>

definition legacy_names :: "jobj \<Rightarrow> jobj" where
  "legacy_names d = map (\<lambda>(k, v).
     (if k = ''git_commit'' then ''commit_hash'' else if k = ''shared_config_sha256'' then ''config_sha256'' else k, v)) d"

lemma parse_legacy:
  assumes "full_hardware (pd_hardware d)" and "pd_token_budget d = JInt a" and "pd_num_sub_games d = JInt b"
    and "declaration_validate d = Inr ()"
  shows "parse_declaration (legacy_names (declaration_to_dict d)) = Inr d"
proof -
  let ?n = "filter (\<lambda>(k, _). k \<noteq> ''git_commit'' \<and> k \<noteq> ''shared_config_sha256'') (declaration_to_dict d) @
    [(''git_commit'', pd_git_commit d), (''shared_config_sha256'', pd_shared_config_sha256 d)]"
  have "normalize_aliases ALIASES (legacy_names (declaration_to_dict d)) = Inr ?n"
    by (simp add: ALIASES_def normalize_alias_def declaration_to_dict_def legacy_names_def)
  moreover have "map_of ?n = map_of (declaration_to_dict d)"
    by (rule ext) (simp add: declaration_to_dict_def)
  moreover have "distinct (map fst ?n)" by (simp add: declaration_to_dict_def)
  ultimately show ?thesis using assms by (intro parse_normalized)
qed

section \<open>Claims\<close>

definition content_of :: "jobj \<Rightarrow> jobj" where
  "content_of d = filter (\<lambda>(k, _). k \<noteq> ''content_sha256'') d"

lemma built_content:
  "content_of (declaration_to_dict (build_declaration fr sha p x e)) = pre_hash_fields p x e"
  by (simp add: content_of_def declaration_to_dict_def build_declaration_def pre_hash_fields_def Let_def attr_def)

text \<open>
  C15. A declaration that was built and is valid parses back to itself, also from the field names of the
  first version of the schema, and its content digest is that of all its other fields.
\<close>

theorem declaration_roundtrip:
  assumes "full_hardware (be_hardware e)" and "dx_token_budget x = JInt a" and "dx_num_sub_games x = JInt b"
    and "declaration_validate (build_declaration fr sha p x e) = Inr ()"
  shows "parse_declaration (declaration_to_dict (build_declaration fr sha p x e)) = Inr (build_declaration fr sha p x e) \<and>
    parse_declaration (legacy_names (declaration_to_dict (build_declaration fr sha p x e))) =
      Inr (build_declaration fr sha p x e) \<and>
    pd_content_sha256 (build_declaration fr sha p x e) =
      JStr (canonical_sha256_hex fr sha (JObj (content_of (declaration_to_dict (build_declaration fr sha p x e)))))"
proof -
  let ?d = "build_declaration fr sha p x e"
  have hw: "full_hardware (pd_hardware ?d)" using assms(1) by (simp add: build_declaration_def Let_def)
  have a: "pd_token_budget ?d = JInt a" and b: "pd_num_sub_games ?d = JInt b"
    using assms(2,3) by (simp_all add: build_declaration_def pre_hash_fields_def Let_def attr_def)
  have "pd_content_sha256 ?d = JStr (canonical_sha256_hex fr sha (JObj (pre_hash_fields p x e)))"
    by (simp add: build_declaration_def Let_def)
  with parse_written [OF hw a b assms(4)] parse_legacy [OF hw a b assms(4)] show ?thesis by (simp add: built_content)
qed

text \<open>A peer whose platform answers nothing, in a series of six.\<close>

definition sample_private :: private_config where
  "sample_private =
     \<lparr>pv_version = ''1'', pv_game = \<lparr>gi_group_name = JStr ''Thieves'', gi_group_id = JStr ''t'', gi_sub_game_number = 1,
        gi_members = [JStr ''a''], gi_repos = []\<rparr>,
      pv_network = \<lparr>np_my_port = 8902, np_opponent_url = JStr ''http'', np_turn_timeout_seconds = 180\<rparr>,
      pv_trash_talk = JStr ''template'',
      pv_email = \<lparr>ec_recipient = JStr [], ec_mode = JStr ''disabled'', ec_credentials_dir_env_var = JStr []\<rparr>,
      pv_strategy = \<lparr>st_thief_class = JStr DEFAULT_THIEF_CLASS, st_profile = JStr ''baseline'', st_weights = []\<rparr>,
      pv_seed = 0\<rparr>"

definition sample_context :: declaration_context where
  "sample_context =
     \<lparr>dx_role = ''thief'', dx_game_id = ''g'', dx_game_uid = ''u'', dx_token_budget = JInt 0, dx_num_sub_games = JInt 6,
      dx_config_sha256 = replicate 64 (CHR ''a''), dx_my_mcp_url = ''http'', dx_opponent_mcp_url = JStr ''http''\<rparr>"

definition sample_build_env :: build_env where
  "sample_build_env =
     \<lparr>be_hardware = map (\<lambda>k. (k, JNull)) HARDWARE_FIELDS, be_timezone = ''UTC'', be_timestamp = ''now'',
      be_code_version = ''0.0.0'', be_git_commit = ''unknown''\<rparr>"

lemma sample_declaration_valid:
  "declaration_validate (build_declaration (\<lambda>_. []) (\<lambda>_. replicate 64 (CHR ''a'')) sample_private sample_context
     sample_build_env) = Inr ()"
  by (simp add: declaration_validate_def build_declaration_def pre_hash_fields_def Let_def attr_def sample_private_def
      sample_context_def check_digest_length_def py_len_def json_in_def canonical_sha256_hex_def)

theorem declaration_roundtrip_witness:
  "parse_declaration (legacy_names (declaration_to_dict (build_declaration (\<lambda>_. []) (\<lambda>_. replicate 64 (CHR ''a''))
     sample_private sample_context sample_build_env))) =
   Inr (build_declaration (\<lambda>_. []) (\<lambda>_. replicate 64 (CHR ''a'')) sample_private sample_context sample_build_env)"
proof -
  have "full_hardware (be_hardware sample_build_env)" "dx_token_budget sample_context = JInt 0"
    "dx_num_sub_games sample_context = JInt 6"
    by (simp_all add: full_hardware_def sample_build_env_def sample_context_def comp_def)
  from declaration_roundtrip [OF this sample_declaration_valid] show ?thesis by blast
qed

end
