(* ===== verification/Program.thy ===== *)
theory Program
  imports Agreement Artifacts Client Server Declaration
begin

text \<open>
  The headless programs (\<^verbatim>\<open>sdk/game_runner.py\<close>, \<^verbatim>\<open>subgame_runner.py\<close>, \<^verbatim>\<open>negotiate_push.py\<close>,
  \<^verbatim>\<open>cli_runners.py\<close>) from the configuration files to the exit code: loading, the own server, the wait for the opponent, the
  handshake push, the games, the closing exchange, the stop of the server and the artifacts. Pacing only delays calls.
\<close>

section \<open>Loading\<close>

text \<open>The three files as parsed; none where a file is missing or does not parse.\<close>

record config_files =
  cf_shared :: "json option"
  cf_private :: "jobj option"
  cf_rate_limits :: "json option"
  cf_sha256 :: string

definition file_or_raise :: "json option \<Rightarrow> json res" where
  "file_or_raise parsed = (case parsed of None \<Rightarrow> Inl (ConfigError ''no config'') | Some v \<Rightarrow> Inr v)"

text \<open>Sorting or joining names that are not all strings raises.\<close>

definition group_names :: "json list \<Rightarrow> string list res" where
  "group_names ids = traverse (\<lambda>v. case v of JStr s \<Rightarrow> Inr s | _ \<Rightarrow> Inl TypeError) ids"

record loaded =
  ld_shared :: shared_config
  ld_private :: private_config
  ld_game_id :: string
  ld_game_uid :: string

definition load_configs ::
    "(json \<Rightarrow> string) \<Rightarrow> (pyfloat \<Rightarrow> string) \<Rightarrow> (string \<Rightarrow> string) \<Rightarrow> config_files \<Rightarrow> loaded res" where
  "load_configs rp fr sha files =
     rbind (rbind (file_or_raise (cf_shared files)) load_shared_config) (\<lambda>shared.
     rbind (load_private_config rp (cf_private files)) (\<lambda>private.
     rbind (group_names (sc_agreed_between shared)) (\<lambda>ids.
       Inr \<lparr>ld_shared = shared, ld_private = private, ld_game_id = derive_game_id ids,
            ld_game_uid = derive_game_uid fr sha (terms_from_shared_config shared) ids\<rparr>)))"

section \<open>Around the games\<close>

text \<open>
  What the outside answers: the checks of the server's start, the health polls, the push of the handshake, loading the brain
  and the waits of the stop.
\<close>

record outside =
  os_started :: "nat \<Rightarrow> bool"
  os_ended :: "nat \<Rightarrow> unit res option"
  os_health :: "nat \<Rightarrow> json res"
  os_negotiate :: "jobj \<Rightarrow> json res"
  os_nonce :: string
  os_strategy :: "unit res"
  os_graceful :: "unit res option"
  os_forced :: "unit res option"
  os_final :: "unit res"

text \<open>Only the unreachable peer is suppressed.\<close>

definition opponent_ready :: "string \<Rightarrow> (nat \<Rightarrow> json res) \<Rightarrow> unit res" where
  "opponent_ready url health =
     (case snd (wait_for_health url health 100) of
        Inr _ \<Rightarrow> Inr ()
      | Inl (PeerUnavailableError _) \<Rightarrow> Inr ()
      | Inl e \<Rightarrow> Inl e)"

text \<open>Every \<^verbatim>\<open>Exception\<close> of the push is suppressed; the cancellation of the task is none.\<close>

definition push_negotiate ::
    "(json \<Rightarrow> string) \<Rightarrow> (pyfloat \<Rightarrow> string) \<Rightarrow> (string \<Rightarrow> string) \<Rightarrow> loaded \<Rightarrow> outside \<Rightarrow> string \<Rightarrow> unit res" where
  "push_negotiate rp fr sha ld out role_text =
     (let game = pv_game (ld_private ld);
          message = build_signed_negotiate_message fr sha (os_nonce out) (terms_from_shared_config (ld_shared ld))
            (gi_group_id game) role_text (gi_sub_game_number game)
            (py_str rp (gi_group_id game) @ ''-negotiate-'' @ role_text)
      in case os_negotiate out message of Inl CancelledError \<Rightarrow> Inl CancelledError | _ \<Rightarrow> Inr ())"

text \<open>The pacer and the public middleware read the rate limits; both only with a token.\<close>

definition limits_if :: "bool \<Rightarrow> config_files \<Rightarrow> unit res" where
  "limits_if needed files =
     (if \<not> needed then Inr ()
      else rbind (file_or_raise (cf_rate_limits files)) (\<lambda>v. rbind (load_rate_limits v) (\<lambda>_. Inr ())))"

definition build_pacer :: "string option \<Rightarrow> config_files \<Rightarrow> unit res" where
  "build_pacer opponent_token files = limits_if (opponent_token \<noteq> None) files"

text \<open>The server as far as it got; none of it when the middleware could not be built. The start may not return.\<close>

definition serve ::
    "string option \<Rightarrow> config_files \<Rightarrow> int \<Rightarrow> outside \<Rightarrow> (managed_server option \<times> unit res) option" where
  "serve public_token files port out =
     (case rbind (limits_if (case public_token of None \<Rightarrow> False | Some t \<Rightarrow> t \<noteq> []) files)
             (\<lambda>_. managed_server_init ''127.0.0.1'' port) of
        Inl e \<Rightarrow> Some (None, Inl e)
      | Inr sv \<Rightarrow> map_option (\<lambda>(sv', r). (Some sv', r)) (start_server (os_started out) (os_ended out) sv))"

section \<open>The artifacts of a series\<close>

text \<open>
  What the builder of the declaration meets: the platform, git, the build file, the project file and the clock.
\<close>

record machine_env =
  me_round2 :: "real \<Rightarrow> real"
  me_platform :: platform_env
  me_git :: "(int \<times> string) option option"
  me_build :: "string option"
  me_pyproject :: "jobj option"
  me_timezone :: string
  me_timestamp :: string

definition gather_build_env :: "(json \<Rightarrow> string) \<Rightarrow> machine_env \<Rightarrow> build_env res" where
  "gather_build_env rp me =
     rbind (probe_hardware (me_round2 me) (me_platform me)) (\<lambda>hw.
     rbind (code_version rp (me_pyproject me)) (\<lambda>version.
       Inr \<lparr>be_hardware = hw, be_timezone = me_timezone me, be_timestamp = me_timestamp me,
            be_code_version = version, be_git_commit = git_commit_hash (me_git me) (me_build me)\<rparr>))"

text \<open>\<^verbatim>\<open>write_series_artifacts\<close> from the parsed shared configuration and the private one.\<close>

definition declaration_for ::
    "(json \<Rightarrow> string) \<Rightarrow> (pyfloat \<Rightarrow> string) \<Rightarrow> (string \<Rightarrow> string) \<Rightarrow> machine_env \<Rightarrow> jobj \<Rightarrow> loaded \<Rightarrow> string \<Rightarrow> nat
       \<Rightarrow> peer_declaration res" where
  "declaration_for rp fr sha me terms ld config_sha256 games =
     rbind (obj_or_raise (jget terms ''network_and_league'' (JObj []))) (\<lambda>league.
     rbind (gather_build_env rp me) (\<lambda>be.
       let private = ld_private ld in
       Inr (build_declaration fr sha private
         \<lparr>dx_role = ''thief'', dx_game_id = ld_game_id ld, dx_game_uid = ld_game_uid ld,
          dx_token_budget = jget league ''token_budget_per_series'' (JInt 0),
          dx_num_sub_games = jget league ''num_games'' (JInt (int games)),
          dx_config_sha256 = config_sha256,
          dx_my_mcp_url = ''http://127.0.0.1:'' @ str_of_int (np_my_port (pv_network private)) @ ''/mcp'',
          dx_opponent_mcp_url = np_opponent_url (pv_network private)\<rparr> be)))"

definition publish_series ::
    "digest \<Rightarrow> (json \<Rightarrow> string) \<Rightarrow> (json \<Rightarrow> string) \<Rightarrow> (pyfloat \<Rightarrow> string) \<Rightarrow> (string \<Rightarrow> string) \<Rightarrow> machine_env
       \<Rightarrow> jobj \<Rightarrow> loaded \<Rightarrow> string \<Rightarrow> series_result \<Rightarrow> (directory, string list) eff" where
  "publish_series H rp dumps fr sha me terms ld config_sha256 se =
     ebind (elift (declaration_for rp fr sha me terms ld config_sha256 (length (se_sub_games se)))) (\<lambda>d.
       write_series_artifacts H dumps (declaration_validate d, declaration_to_dict d) (ld_game_uid ld) (ld_game_id ld)
         config_sha256 (git_commit_hash (me_git me) (me_build me)) (gi_group_id (pv_game (ld_private ld))) terms se)"

section \<open>The series program\<close>

text \<open>
  What is left when the program is through: the server as it stands, the directory and the summary or the exception
  that left. The result is none when the server's start never returns, or when the configuration holds values
  outside the typed runtime of the games (\<open>deps_of_config\<close>).
\<close>

record program_end =
  pe_server :: "managed_server option"
  pe_dir :: directory
  pe_summary :: "jobj res"

definition Ended :: "managed_server option \<Rightarrow> directory \<Rightarrow> jobj res \<Rightarrow> program_end" where
  "Ended sv dir r = \<lparr>pe_server = sv, pe_dir = dir, pe_summary = r\<rparr>"

text \<open>Between the start of the server and the \<^verbatim>\<open>try\<close>: an exception here leaves the server as it is.\<close>

definition before_games ::
    "(json \<Rightarrow> string) \<Rightarrow> (pyfloat \<Rightarrow> string) \<Rightarrow> (string \<Rightarrow> string) \<Rightarrow> config_files \<Rightarrow> loaded \<Rightarrow> outside \<Rightarrow> string
       \<Rightarrow> string option \<Rightarrow> unit res" where
  "before_games rp fr sha files ld out url opponent_token =
     rbind (opponent_ready url (os_health out)) (\<lambda>_.
     rbind (push_negotiate rp fr sha ld out ''thief'') (\<lambda>_.
       build_pacer opponent_token files))"

text \<open>The \<^verbatim>\<open>finally\<close>: an exception of the stop replaces the outcome of the body.\<close>

definition stopped :: "outside \<Rightarrow> managed_server \<Rightarrow> 'a res \<Rightarrow> managed_server \<times> 'a res" where
  "stopped out sv r =
     (case stop_server (os_graceful out) (os_forced out) (os_final out) sv of
        (sv', Inl e) \<Rightarrow> (sv', Inl e)
      | (sv', Inr _) \<Rightarrow> (sv', r))"

text \<open>\<open>game\<close> is the part under the \<^verbatim>\<open>try\<close>, \<open>close\<close> what happens after the stop.\<close>

definition with_server ::
    "(json \<Rightarrow> string) \<Rightarrow> (pyfloat \<Rightarrow> string) \<Rightarrow> (string \<Rightarrow> string) \<Rightarrow> config_files \<Rightarrow> outside \<Rightarrow> string
       \<Rightarrow> string option \<Rightarrow> string option \<Rightarrow> loaded \<Rightarrow> directory \<Rightarrow> 'a res \<Rightarrow> ('a \<Rightarrow> (directory, jobj) eff)
       \<Rightarrow> program_end option" where
  "with_server rp fr sha files out url public_token opponent_token ld dir game close =
     (case serve public_token files (np_my_port (pv_network (ld_private ld))) out of
        None \<Rightarrow> None
      | Some (sv, Inl e) \<Rightarrow> Some (Ended sv dir (Inl e))
      | Some (None, Inr _) \<Rightarrow> None
      | Some (Some sv, Inr _) \<Rightarrow>
          (case before_games rp fr sha files ld out url opponent_token of
             Inl e \<Rightarrow> Some (Ended (Some sv) dir (Inl e))
           | Inr _ \<Rightarrow>
               (case stopped out sv game of
                  (sv', Inl e) \<Rightarrow> Some (Ended (Some sv') dir (Inl e))
                | (sv', Inr x) \<Rightarrow> (case close x dir of (dir', r) \<Rightarrow> Some (Ended (Some sv') dir' r)))))"

text \<open>
  The brain is loaded when the first sub-game is set up, under the \<^verbatim>\<open>try\<close>. \<open>mb\<close> is the lifecycle machine and the audit inbox
  as the exchange finds it.
\<close>

definition run_series_program ::
    "digest \<Rightarrow> (json \<Rightarrow> string) \<Rightarrow> (json \<Rightarrow> string) \<Rightarrow> (pyfloat \<Rightarrow> string) \<Rightarrow> (string \<Rightarrow> string) \<Rightarrow> config_files
       \<Rightarrow> outside \<Rightarrow> machine_env \<Rightarrow> (nat \<Rightarrow> nat \<Rightarrow> turn_env) \<Rightarrow> unit res option \<Rightarrow> (jobj \<Rightarrow> jobj res)
       \<Rightarrow> (nat \<Rightarrow> inbox \<Rightarrow> inbox) \<Rightarrow> machine \<times> inbox \<Rightarrow> string \<Rightarrow> bool \<Rightarrow> bool \<Rightarrow> string option \<Rightarrow> string option
       \<Rightarrow> (jobj \<Rightarrow> jobj res) option \<Rightarrow> directory \<Rightarrow> program_end option" where
  "run_series_program H rp dumps fr sha files out me envs poll deliver arrive mb url smoke artifacts public_token
       opponent_token transform dir =
     (case load_configs rp fr sha files of
        Inl e \<Rightarrow> Some (Ended None dir (Inl e))
      | Inr ld \<Rightarrow>
          (case (deps_of_config (ld_shared ld) (ld_game_uid ld) (cf_sha256 files) transform,
                 int_value (attr (sc_network (ld_shared ld)) ''num_games''), cf_shared files) of
             (Some dp, Some num_games, Some (JObj terms)) \<Rightarrow>
               with_server rp fr sha files out url public_token opponent_token ld dir
                 (rbind (os_strategy out) (\<lambda>_.
                    snd (run_series_headless H rp fr sha (\<lambda>_. dp) envs smoke num_games poll deliver arrive
                           (ld_game_uid ld) (cf_sha256 files) mb)))
                 (\<lambda>se. ebind (if artifacts
                              then publish_series H rp dumps fr sha me terms ld (cf_sha256 files) se
                              else eret [])
                         (\<lambda>written. eret (series_summary (ld_game_id ld) (ld_game_uid ld) written se)))
           | _ \<Rightarrow> None))"

section \<open>One sub-game\<close>

definition subgame_summary :: "loaded \<Rightarrow> run_result \<Rightarrow> peer_state \<Rightarrow> jobj" where
  "subgame_summary ld r final =
     [(''mode'', JStr ''run-subgame''),
      (''game_id'', JStr (ld_game_id ld)),
      (''game_uid'', JStr (ld_game_uid ld)),
      (''result'', JStr (result_value (rr_result r))),
      (''steps'', JInt (int (rr_steps_taken r))),
      (''reason'', JStr (rr_reason r)),
      (''final_state'', JStr (state_value final))]"

text \<open>
  The push of the handshake is left out here, and the pacer and the brain are built before the \<^verbatim>\<open>try\<close>.
\<close>

definition play_subgame ::
    "digest \<Rightarrow> (json \<Rightarrow> string) \<Rightarrow> deps \<Rightarrow> (nat \<Rightarrow> turn_env) \<Rightarrow> unit res option \<Rightarrow> machine
       \<Rightarrow> (run_result \<times> peer_state) res" where
  "play_subgame H rp dp envs poll m =
     rbind (initial (dp_grid_size dp) 1 (dp_thief_start dp) m) (\<lambda>s.
       case run H rp dp envs None True poll s of
         (s', Inl e) \<Rightarrow> Inl e
       | (s', Inr r) \<Rightarrow> Inr (r, m_state (ss_machine s')))"

definition run_subgame_program ::
    "digest \<Rightarrow> (json \<Rightarrow> string) \<Rightarrow> (pyfloat \<Rightarrow> string) \<Rightarrow> (string \<Rightarrow> string) \<Rightarrow> config_files \<Rightarrow> outside
       \<Rightarrow> (nat \<Rightarrow> turn_env) \<Rightarrow> unit res option \<Rightarrow> machine \<Rightarrow> string \<Rightarrow> string option \<Rightarrow> string option
       \<Rightarrow> program_end option" where
  "run_subgame_program H rp fr sha files out envs poll m url public_token opponent_token =
     (case load_configs rp fr sha files of
        Inl e \<Rightarrow> Some (Ended None [] (Inl e))
      | Inr ld \<Rightarrow>
          (case deps_of_config (ld_shared ld) (ld_game_uid ld) (cf_sha256 files) None of
             None \<Rightarrow> None
           | Some dp \<Rightarrow>
               (case serve public_token files (np_my_port (pv_network (ld_private ld))) out of
                  None \<Rightarrow> None
                | Some (sv, Inl e) \<Rightarrow> Some (Ended sv [] (Inl e))
                | Some (None, Inr _) \<Rightarrow> None
                | Some (Some sv, Inr _) \<Rightarrow>
                    (case rbind (opponent_ready url (os_health out)) (\<lambda>_. rbind (build_pacer opponent_token files)
                            (\<lambda>_. os_strategy out)) of
                       Inl e \<Rightarrow> Some (Ended (Some sv) [] (Inl e))
                     | Inr _ \<Rightarrow>
                         (case stopped out sv (play_subgame H rp dp envs poll m) of
                            (sv', Inl e) \<Rightarrow> Some (Ended (Some sv') [] (Inl e))
                          | (sv', Inr (r, final)) \<Rightarrow>
                              Some (Ended (Some sv') [] (Inr (subgame_summary ld r final))))))))"

section \<open>The command\<close>

text \<open>
  The exit code of a run: without a token the public mode ends with 2 before anything starts; an exception leaves as a
  traceback with 1; else the summary decides.
\<close>

definition process_exit :: "jobj res \<Rightarrow> int" where
  "process_exit r = (case r of Inl _ \<Rightarrow> 1 | Inr summary \<Rightarrow> summary_exit_code summary)"

definition run_command ::
    "(string \<times> string) list \<Rightarrow> bool \<Rightarrow> (string option \<Rightarrow> string option \<Rightarrow> program_end option)
       \<Rightarrow> (int \<times> program_end option) option" where
  "run_command env public program =
     (case resolve_public_tokens env public of
        Inl _ \<Rightarrow> Some (2, None)
      | Inr (public_token, opponent_token) \<Rightarrow>
          map_option (\<lambda>pe. (process_exit (pe_summary pe), Some pe)) (program public_token opponent_token))"

end
