(* ===== verification/ProgramClaims.thy ===== *)
theory ProgramClaims
  imports Program ReplayClaims DeclarationClaims
begin

text \<open>
  The program as a whole: an exit code of 0 means a published series that the verifier accepts, a confirmed agreement and a
  stopped server; and the way in which a failed start leaves the server running.
\<close>

section \<open>A configuration that loads carries what the verifier needs\<close>

lemma clean_lookup: "map_of (clean d) k = Some v \<Longrightarrow> \<exists>w. map_of d k = Some w"
proof -
  assume "map_of (clean d) k = Some v"
  then have "(k, v) \<in> set (clean d)" by (rule map_of_SomeD)
  then have "(k, v) \<in> set d" by (simp add: clean_def)
  then show ?thesis by (rule weak_map_of_SomeI)
qed

lemma section_of:
  assumes "require_section data key = Inr s"
  obtains d where "map_of data key = Some (JObj d)" and "s = clean d"
proof (cases "map_of data key")
  case (Some v)
  with assms that show ?thesis by (cases v) (auto simp: require_section_def)
qed (use assms in \<open>simp add: require_section_def\<close>)

lemma loaded_terms:
  assumes "config_from_dict data = Inr c"
  shows "usable_terms data (sc_scoring c)"
proof -
  obtain b0 s0 where b: "require_section data ''board_and_agents'' = Inr b0" "construct BoardAndAgents_fields [] b0 = Inr (sc_board c)"
    and s: "require_section data ''scoring'' = Inr s0" "construct Scoring_fields [] s0 = Inr (sc_scoring c)"
    using assms by (auto simp: config_from_dict_def res_simps split: if_splits)
  obtain sd where sd: "map_of data ''scoring'' = Some (JObj sd)" "s0 = clean sd" using s(1) by (rule section_of)
  obtain bd where bd: "map_of data ''board_and_agents'' = Some (JObj bd)" "b0 = clean bd" using b(1) by (rule section_of)
  have "jhas b0 ''grid_size''" using b(2) by (auto simp: construct_def BoardAndAgents_fields_def split: if_splits)
  then obtain n where "map_of bd ''grid_size'' = Some n"
    using clean_lookup [where d = bd and k = "''grid_size''"] bd(2) by (auto simp: jhas_def)
  with sd bd s(2) show ?thesis
    by (simp add: usable_terms_def scoring_from_terms_def at_key_def jindex_def)
qed

lemma int_value_json: "int_value v = Some n \<Longrightarrow> json_eq (JInt n) v"
  by (cases v rule: int_value.cases) (auto split: if_splits)

lemma scoring_same:
  assumes "scoring_of s = Some sc"
  shows "same_scoring s sc"
proof -
  have v: "int_value (attr s ''capture_cop'') = Some (capture_cop sc)"
    "int_value (attr s ''capture_thief'') = Some (capture_thief sc)"
    "int_value (attr s ''survival_cop'') = Some (survival_cop sc)"
    "int_value (attr s ''survival_thief'') = Some (survival_thief sc)"
    "int_value (attr s ''technical_loss'') = Some (technical_loss sc)"
    using assms by (auto simp: scoring_of_def dest!: sym [of _ sc] split: option.splits)
  show ?thesis
    unfolding same_scoring_def
  proof
    fix r
    show "case score_sub_game r sc False of (p, t) \<Rightarrow> pair_eq (JInt p, JInt t) (expected_scores s r)"
      using v [THEN int_value_json]
      by (cases r) (simp_all add: score_sub_game_def pair_eq_def expected_scores_def del: json_eq.simps)
  qed
qed

lemma deps_scoring:
  "deps_of_config c uid sha transform = Some dp \<Longrightarrow> scoring_of (sc_scoring c) = Some (dp_scoring dp)"
  by (auto simp: deps_of_config_def split: option.splits list.splits)

lemma loaded_num_games:
  assumes "config_from_dict data = Inr c" and "int_value (attr (sc_network c) ''num_games'') = Some n"
  shows "0 < n"
proof -
  from assms(1) have "validate_network_and_league (sc_network c) = Inr ()"
    by (auto simp: config_from_dict_def res_simps split: if_splits)
  then have "lt_int (attr (sc_network c) ''num_games'') 1 = Inr False"
    by (auto simp: validate_network_and_league_def res_simps split: if_splits)
  from int_value_least [OF this assms(2)] show ?thesis by simp
qed

section \<open>The pieces of a run that ends well\<close>

lemma stop_server_ends: "sv_task (fst (stop_server graceful forced final sv)) \<noteq> Running"
proof (cases "sv_task sv = Running")
  case True
  show ?thesis
  proof (cases graceful)
    case None
    show ?thesis
    proof (cases forced)
      case N2: None
      have "stop_server graceful forced final sv = (case final of
          Inl CancelledError \<Rightarrow> eret (Shutdown_result CANCELLED True True) | Inl e \<Rightarrow> eraise e
        | Inr _ \<Rightarrow> eret (Shutdown_result CANCELLED True True))
          (sv\<lparr>should_exit := True, force_exit := True, cancelled := True, sv_task := Finished final\<rparr>)"
        using True None N2 by (simp add: stop_server_def await_bounded_def ebind_def emodify_def)
      then show ?thesis by (simp add: eff_defs split: sum.split py_exc.split)
    qed (use True None in \<open>auto simp: stop_server_def await_bounded_def eff_defs split: sum.splits\<close>)
  qed (use True in \<open>auto simp: stop_server_def await_bounded_def eff_defs split: sum.splits\<close>)
qed (simp add: stop_server_def)

lemma stopped_Inr:
  assumes "stopped out sv r = (sv', Inr x)"
  shows "r = Inr x \<and> sv_task sv' \<noteq> Running"
proof -
  obtain res where stop: "stop_server (os_graceful out) (os_forced out) (os_final out) sv = (sv', Inr res)" and r: "r = Inr x"
    using assms by (auto simp: stopped_def split: prod.splits sum.splits)
  from stop_server_ends [of "os_graceful out" "os_forced out" "os_final out" sv] stop r show ?thesis by simp
qed

lemma with_server_Inr:
  assumes "with_server rp fr sha files out url pt ot ld dir game close = Some pe" and "pe_summary pe = Inr summary"
  shows "\<exists>sv x. pe_server pe = Some sv \<and> sv_task sv \<noteq> Running \<and> game = Inr x \<and> close x dir = (pe_dir pe, Inr summary)"
  using assms
  by (auto simp: with_server_def Ended_def dest!: stopped_Inr split: option.splits prod.splits sum.splits)

lemma exit_zero_summary:
  assumes "summary_exit_code (series_summary gid uid files se) = 0"
  shows "se_terminated_reason se = ''completed'' \<and> se_agreed se"
  using assms by (auto simp: summary_exit_code_def series_summary_def Let_def split: if_splits)

lemma published_directory:
  assumes "publish_series H rp dumps fr sha me terms ld csha se [] = (dir, Inr written)"
  shows "\<exists>valid decl commit. jget decl ''game_uid'' JNull = JStr (ld_game_uid ld) \<and>
    write_series_artifacts H dumps (valid, decl) (ld_game_uid ld) (ld_game_id ld) csha commit
      (gi_group_id (pv_game (ld_private ld))) terms se [] = (dir, Inr written)"
proof -
  obtain d where d: "declaration_for rp fr sha me terms ld csha (length (se_sub_games se)) = Inr d"
    and w: "write_series_artifacts H dumps (declaration_validate d, declaration_to_dict d) (ld_game_uid ld) (ld_game_id ld)
      csha (git_commit_hash (me_git me) (me_build me)) (gi_group_id (pv_game (ld_private ld))) terms se [] = (dir, Inr written)"
    using assms by (auto simp: publish_series_def ebind_def elift_def split: sum.splits)
  from d have "jget (declaration_to_dict d) ''game_uid'' JNull = JStr (ld_game_uid ld)"
    by (auto simp: declaration_for_def res_simps Let_def build_declaration_def pre_hash_fields_def declaration_to_dict_def attr_def)
  with w show ?thesis by blast
qed

lemma loaded_shared:
  assumes "load_configs rp fr sha files = Inr ld" and "cf_shared files = Some (JObj terms)"
  shows "config_from_dict terms = Inr (ld_shared ld)"
  using assms by (auto simp: load_configs_def file_or_raise_def load_shared_config_def res_simps)

section \<open>Claims\<close>

text \<open>
  C8. An exit code of 0 is backed by what was published: when the series program, started on configuration files that
  load with the start cell on the board and writing into an empty directory, ends with 0, then its own verifier
  accepts the directory without a finding, the summary reports a confirmed agreement, and the server has
  stopped. The nonces of each game are taken to differ and digests to be ASCII text.
\<close>

theorem exit_zero_publishes_verified_series:
  assumes "load_configs rp fr sha files = Inr ld"
    and "deps_of_config (ld_shared ld) (ld_game_uid ld) (cf_sha256 files) transform = Some dp"
    and "is_within (dp_thief_start dp) (dp_grid_size dp)" and "m_state m = INITIALIZING"
    and "\<forall>i. inj (\<lambda>k. te_nonce (envs i k))" and "\<forall>x. ascii_text (H x)"
    and "run_series_program H rp dumps fr sha files out me envs poll deliver arrive (m, b) url smoke True
           public_token opponent_token transform [] = Some pe"
    and "process_exit (pe_summary pe) = 0"
  shows "verify_replay H rp' (pe_dir pe) = Inr [] \<and>
    (\<exists>summary. pe_summary pe = Inr summary \<and> jget summary ''agreed'' JNull = JBool True) \<and>
    (\<exists>sv. pe_server pe = Some sv \<and> sv_task sv \<noteq> Running)"
proof -
  obtain summary where sum: "pe_summary pe = Inr summary" and code: "summary_exit_code summary = 0"
    using assms(8) by (auto simp: process_exit_def split: sum.splits)
  obtain num_games terms where n: "int_value (attr (sc_network (ld_shared ld)) ''num_games'') = Some num_games"
    and t: "cf_shared files = Some (JObj terms)"
    and w: "with_server rp fr sha files out url public_token opponent_token ld []
       (rbind (os_strategy out) (\<lambda>_. snd (run_series_headless H rp fr sha (\<lambda>_. dp) envs smoke num_games poll deliver
          arrive (ld_game_uid ld) (cf_sha256 files) (m, b))))
       (\<lambda>se. ebind (publish_series H rp dumps fr sha me terms ld (cf_sha256 files) se)
          (\<lambda>written. eret (series_summary (ld_game_id ld) (ld_game_uid ld) written se))) = Some pe"
    using assms(1,2,7) by (auto simp: run_series_program_def split: option.splits json.splits)
  from with_server_Inr [OF w sum] obtain sv se where sv: "pe_server pe = Some sv" "sv_task sv \<noteq> Running"
    and run: "snd (run_series_headless H rp fr sha (\<lambda>_. dp) envs smoke num_games poll deliver arrive
      (ld_game_uid ld) (cf_sha256 files) (m, b)) = Inr se"
    and pub: "ebind (publish_series H rp dumps fr sha me terms ld (cf_sha256 files) se)
      (\<lambda>written. eret (series_summary (ld_game_id ld) (ld_game_uid ld) written se)) [] = (pe_dir pe, Inr summary)"
    by (auto simp: res_simps)
  obtain written where p: "publish_series H rp dumps fr sha me terms ld (cf_sha256 files) se [] = (pe_dir pe, Inr written)"
    and s: "summary = series_summary (ld_game_id ld) (ld_game_uid ld) written se"
    using pub by (auto simp: ebind_def eret_def split: prod.splits sum.splits)
  have ended: "se_terminated_reason se = ''completed''" "se_agreed se" using exit_zero_summary code s by blast+
  have c: "config_from_dict terms = Inr (ld_shared ld)" by (rule loaded_shared [OF assms(1) t])
  have "deps_ok dp" using loaded_deps [OF c assms(2)] assms(3) by blast
  then have dp: "\<forall>i::nat. deps_ok dp" by simp
  have pos: "0 < num_games" by (rule loaded_num_games [OF c n])
  obtain m' b' where h: "run_series_headless H rp fr sha (\<lambda>_. dp) envs smoke num_games poll deliver arrive
      (ld_game_uid ld) (cf_sha256 files) (m, b) = ((m', b'), Inr se)"
    using run by (metis prod.collapse snd_conv)
  have sc: "\<forall>i::nat. same_scoring (sc_scoring (ld_shared ld)) (dp_scoring dp)"
    using scoring_same [OF deps_scoring [OF assms(2)]] by simp
  from published_directory [OF p] obtain valid decl commit where d: "jget decl ''game_uid'' JNull = JStr (ld_game_uid ld)"
    and wr: "write_series_artifacts H dumps (valid, decl) (ld_game_uid ld) (ld_game_id ld) (cf_sha256 files) commit
      (gi_group_id (pv_game (ld_private ld))) terms se [] = (pe_dir pe, Inr written)" by blast
  have "verify_replay H rp' (pe_dir pe) = Inr []"
    by (rule series_artifacts_verify [OF dp pos assms(4) h ended(1) assms(5) loaded_terms [OF c] sc assms(6) d wr])
  moreover have "jget summary ''agreed'' JNull = JBool True" by (simp add: s series_summary_def ended(2))
  ultimately show ?thesis using sum sv by blast
qed

section \<open>A series that ends well\<close>

definition sample_csha :: string where "sample_csha = replicate 64 (CHR ''a'')"

definition sample_private_data :: jobj where
  "sample_private_data =
     [(''game'', JObj [(''group_name'', JStr ''Thieves''), (''group_id'', JStr ''t'')]),
      (''network'', JObj [(''my_port'', JInt 8902), (''opponent_url'', JStr ''http'')])]"

definition sample_files :: config_files where
  "sample_files = \<lparr>cf_shared = Some (JObj sample_config), cf_private = Some sample_private_data, cf_rate_limits = None,
     cf_sha256 = sample_csha\<rparr>"

definition sample_out :: outside where
  "sample_out = \<lparr>os_started = (\<lambda>_. True), os_ended = (\<lambda>_. None), os_health = (\<lambda>_. Inr JNull),
     os_negotiate = (\<lambda>_. Inr JNull), os_nonce = ''n'', os_strategy = Inr (), os_graceful = Some (Inr ()),
     os_forced = None, os_final = Inr ()\<rparr>"

definition sample_me :: machine_env where
  "sample_me = \<lparr>me_round2 = id, me_platform = \<lparr>pe_system = [], pe_platform = ''p'', pe_version = ''3'', pe_cpu_count = None,
       pe_sysctl = None, pe_cpuinfo = [], pe_processor = [], pe_ram = None\<rparr>,
     me_git = None, me_build = None, me_pyproject = None, me_timezone = ''UTC'', me_timestamp = ''now''\<rparr>"

lemma sample_private_loads:
  obtains p where "load_private_config rp (cf_private sample_files) = Inr p"
    and "gi_group_id (pv_game p) = JStr ''t''" and "gi_group_name (pv_game p) = JStr ''Thieves''"
  by (simp add: sample_files_def load_private_config_def assert_no_shared_table_override_def SHARED_TABLE_KEYS_def
      sample_private_data_def private_from_dict_def game_identity_of_def at_key_def py_dict_def
      network_private_of_def email_config_of_def strategy_config_of_def json_in_def KNOWN_PROFILES_def Let_def)

lemma sample_shared_loads:
  obtains c where "load_shared_config (JObj sample_config) = Inr c" and "config_from_dict sample_config = Inr c"
    and "group_names (sc_agreed_between c) = Inr [''a'', ''b'']"
    and "int_value (attr (sc_network c) ''num_games'') = Some 6"
    and "\<forall>uid. \<exists>dp. deps_of_config c uid sample_csha None = Some dp \<and> dp_grid_size dp = 7 \<and>
      dp_thief_start dp = Pos 6 6 \<and> response_timeout dp = 30 \<and> reveal_transform dp = None"
proof -
  obtain c where c: "config_from_dict sample_config = Inr c" "attr (sc_board c) ''grid_size'' = JInt 7"
    "sc_thief_start c = [JInt 6, JInt 6]" "attr (sc_network c) ''response_timeout_sec'' = JInt 30"
    "attr (sc_movement c) ''survival_threshold'' = JInt 35"
    "attr (sc_pheromones c) ''pheromone_decay'' = JFloat (Fin 0.10)"
    "map (attr (sc_scoring c)) [''capture_cop'', ''capture_thief'', ''survival_cop'', ''survival_thief'',
       ''tie_score'', ''technical_loss''] = map JInt [20, 5, 5, 10, 2, 0]"
    by (rule sample_config_fields)
  have "\<exists>c. config_from_dict sample_config = Inr c \<and> sc_agreed_between c = [JStr ''a'', JStr ''b''] \<and>
      attr (sc_network c) ''num_games'' = JInt 6"
    by (simp add: config_unfold)
  with c(1) have more: "sc_agreed_between c = [JStr ''a'', JStr ''b'']" "attr (sc_network c) ''num_games'' = JInt 6" by auto
  show ?thesis
    by (rule that [of c]) (use c more in \<open>simp_all add: load_shared_config_def group_names_def deps_of_config_def
        finite_value_def scoring_of_def\<close>)
qed

lemma agreeing_series:
  assumes "deps_ok dp" and "0 \<le> response_timeout dp" and "reveal_transform dp = None"
  shows "\<exists>b m' b' se. run_series_headless size_H (\<lambda>_. []) (\<lambda>_. []) sha (\<lambda>_. dp) (\<lambda>_. sample_envs) True n None
      (\<lambda>_. Inr ack_ok) (\<lambda>_. id) uid csha (new_machine INITIALIZING, b) = ((m', b'), Inr se) \<and>
    se_terminated_reason se = ''completed'' \<and> se_agreed se \<and> se_agreement_status se = ''agreed''"
proof -
  have m: "m_state (new_machine INITIALIZING) = INITIALIZING" by (simp add: new_machine_def)
  obtain m' se where run: "run_series size_H (\<lambda>_. []) (\<lambda>_. dp) (\<lambda>_. sample_envs) 1 None None
      (new_machine INITIALIZING) = (m', Inr se)" "se_terminated_reason se = ''completed''"
    using smoke_series_completes [where fac = "\<lambda>_. dp" and envs = "\<lambda>_. sample_envs", OF assms(1) m,
        of size_H "\<lambda>_. []"] inj_sample_nonce assms(2,3)
    by (auto simp: sample_envs_def cooperative_brain_env)
  let ?d = "compute_result_digest (\<lambda>_. []) sha (se_sub_games se)"
  let ?msg = "build_result_agreement_message uid POLICE csha (se_police_total se) (se_thief_total se)
    (length (se_sub_games se)) ?d"
  let ?b = "(new_inbox 100)\<lparr>ib_queue := [(''k'', JObj ?msg)]\<rparr>"
  have "\<exists>b1. await_opponent_agreement 100 (\<lambda>_. id) POLICE ?b = (b1, Some (JObj ?msg))"
    by (simp add: numeral_eq_Suc pop_matching_extract own_message_matches)
  then obtain b1 where aw: "await_opponent_agreement 100 (\<lambda>_. id) POLICE ?b = (b1, Some (JObj ?msg))" by blast
  let ?se = "se\<lparr>se_police_total := se_police_total se, se_thief_total := se_thief_total se,
    se_agreed := True, se_agreement_status := ''agreed''\<rparr>"
  have "run_series_headless size_H (\<lambda>_. []) (\<lambda>_. []) sha (\<lambda>_. dp) (\<lambda>_. sample_envs) True n None
      (\<lambda>_. Inr ack_ok) (\<lambda>_. id) uid csha (new_machine INITIALIZING, ?b) = ((m', b1), Inr ?se)"
    using run aw by (simp add: run_series_headless_def finalize_series_agreement_def ebind_def eret_def
        exchange_and_resolve_agreement_def judge_message Final_agreement_def)
  moreover have "se_terminated_reason ?se = ''completed''" "se_agreed ?se" "se_agreement_status ?se = ''agreed''" using run(2) by simp_all
  ultimately show ?thesis by blast
qed

lemma sample_serves:
  "\<exists>sv. serve None files port sample_out = Some (Some sv, Inr ()) \<and>
     (\<forall>r. stopped sample_out sv r = (sv\<lparr>should_exit := True, sv_task := Finished (Inr ())\<rparr>, r))"
proof -
  have "start_server (\<lambda>_. True) (\<lambda>_. None) v = Some (v\<lparr>sv_task := Running\<rparr>, Inr ())" for v
    by (simp add: start_returns_when_up [where k = 0])
  then show ?thesis
    by (simp add: serve_def limits_if_def managed_server_init_def ALLOWED_LOCAL_HOSTS_def sample_out_def stopped_def
        stop_server_def await_bounded_def eff_defs)
qed

lemma sample_before_games: "before_games rp fr sha files ld sample_out url None = Inr ()"
  by (simp add: before_games_def opponent_ready_def wait_for_health_def numeral_eq_Suc sample_out_def push_negotiate_def
      build_pacer_def limits_if_def)

lemma publish_ok:
  assumes "length (se_sub_games se) = length (se_run_results se)" and "ld_game_id ld \<noteq> []" and "ld_game_uid ld \<noteq> []"
    and "gi_group_id (pv_game (ld_private ld)) = JStr ''t''" and "gi_group_name (pv_game (ld_private ld)) = JStr ''Thieves''"
  shows "\<exists>dir ps. publish_series H rp (\<lambda>_. []) fr (\<lambda>_. sample_csha) sample_me sample_config ld sample_csha se [] = (dir, Inr ps)"
proof -
  obtain d where d: "declaration_for rp fr (\<lambda>_. sample_csha) sample_me sample_config ld sample_csha (length (se_sub_games se)) = Inr d"
    and v: "declaration_validate d = Inr ()"
    using assms(4,5)
    by (simp add: declaration_for_def sample_config_def gather_build_env_def sample_me_def probe_hardware_def
        probe_cpu_model_def processor_fallback_def probe_ram_gb_def code_version_def split_words_def push_word_def is_space_def Let_def
        declaration_validate_def build_declaration_def pre_hash_fields_def attr_def check_digest_length_def py_len_def
        sample_csha_def json_in_def canonical_sha256_hex_def)
  have len: "length sample_csha = 64" by (simp add: sample_csha_def)
  let ?commit = "git_commit_hash (me_git sample_me) (me_build sample_me)"
  have r: "result_validate (build_result_artifact (ld_game_uid ld) (ld_game_id ld) ?commit (JStr ''t'') sample_csha se) = Inr ()"
    using assms(2,3) by (simp add: result_validate_def build_result_artifact_def Let_def len)
  obtain d2 ps where "write_sub_games H (\<lambda>_. []) (ld_game_uid ld) (ld_game_id ld) sample_csha sample_config
      (zip (se_sub_games se) (se_run_results se)) [(declaration_filename (ld_game_id ld), Inr (JObj (declaration_to_dict d)))] = (d2, Inr ps)"
    using write_sub_games_ok [OF assms(3,2) len] by fastforce
  then show ?thesis
    by (simp add: publish_series_def d [unfolded assms(1)] elift_def ebind_def write_series_artifacts_def Let_def v save_ok eret_def assms(1,4) r)
qed

lemma sample_loads:
  obtains ld p dp where "load_configs (\<lambda>_. []) (\<lambda>_. []) (\<lambda>_. sample_csha) sample_files = Inr ld"
    and "ld_private ld = p" and "gi_group_id (pv_game p) = JStr ''t''" and "gi_group_name (pv_game p) = JStr ''Thieves''"
    and "ld_game_id ld \<noteq> []" and "ld_game_uid ld \<noteq> []" and "int_value (attr (sc_network (ld_shared ld)) ''num_games'') = Some 6"
    and "deps_of_config (ld_shared ld) (ld_game_uid ld) (cf_sha256 sample_files) None = Some dp" and "deps_ok dp"
    and "is_within (dp_thief_start dp) (dp_grid_size dp)" and "response_timeout dp = 30" and "reveal_transform dp = None"
proof -
  let ?sha = "\<lambda>_. sample_csha"
  obtain c where c: "load_shared_config (JObj sample_config) = Inr c" "config_from_dict sample_config = Inr c"
    "group_names (sc_agreed_between c) = Inr [''a'', ''b'']" "int_value (attr (sc_network c) ''num_games'') = Some 6"
    and deps: "\<forall>uid. \<exists>dp. deps_of_config c uid sample_csha None = Some dp \<and> dp_grid_size dp = 7 \<and>
      dp_thief_start dp = Pos 6 6 \<and> response_timeout dp = 30 \<and> reveal_transform dp = None"
    by (rule sample_shared_loads)
  obtain p where p: "load_private_config (\<lambda>_. []) (cf_private sample_files) = Inr p"
    "gi_group_id (pv_game p) = JStr ''t''" "gi_group_name (pv_game p) = JStr ''Thieves''"
    by (rule sample_private_loads)
  let ?uid = "derive_game_uid (\<lambda>_. []) ?sha (terms_from_shared_config c) [''a'', ''b'']"
  let ?ld = "\<lparr>ld_shared = c, ld_private = p, ld_game_id = derive_game_id [''a'', ''b''], ld_game_uid = ?uid\<rparr>"
  have ld: "load_configs (\<lambda>_. []) (\<lambda>_. []) ?sha sample_files = Inr ?ld"
    by (simp add: load_configs_def file_or_raise_def sample_files_def c) (use p(1) in \<open>simp add: sample_files_def\<close>)
  obtain dp where dp: "deps_of_config c ?uid sample_csha None = Some dp" "dp_grid_size dp = 7"
    "dp_thief_start dp = Pos 6 6" "response_timeout dp = 30" "reveal_transform dp = None" using deps by blast
  have start: "is_within (dp_thief_start dp) (dp_grid_size dp)" by (simp add: dp is_within_def)
  have "deps_ok dp" using loaded_deps [OF c(2) dp(1)] start by blast
  with dp p c(4) start show thesis
    by (intro that [OF ld refl]) (simp_all add: derive_game_id_def derive_game_uid_def uuid_str_def sample_csha_def sample_files_def)
qed

text \<open>The sample program: it plays one game against a peer that agrees, and ends with 0.\<close>

lemma sample_program_ends:
  assumes ld: "load_configs (\<lambda>_. []) (\<lambda>_. []) (\<lambda>_. sample_csha) sample_files = Inr ld"
    and p: "gi_group_id (pv_game (ld_private ld)) = JStr ''t''" "gi_group_name (pv_game (ld_private ld)) = JStr ''Thieves''"
    and ids: "ld_game_id ld \<noteq> []" "ld_game_uid ld \<noteq> []" and num: "int_value (attr (sc_network (ld_shared ld)) ''num_games'') = Some 6"
    and dp: "deps_of_config (ld_shared ld) (ld_game_uid ld) (cf_sha256 sample_files) None = Some dp" "deps_ok dp"
      "response_timeout dp = 30" "reveal_transform dp = None"
  shows "\<exists>b pe. run_series_program size_H (\<lambda>_. []) (\<lambda>_. []) (\<lambda>_. []) (\<lambda>_. sample_csha) sample_files sample_out sample_me
      (\<lambda>_. sample_envs) None (\<lambda>_. Inr ack_ok) (\<lambda>_. id) (new_machine INITIALIZING, b) ''url'' True True None None None [] =
      Some pe \<and> process_exit (pe_summary pe) = 0"
proof -
  let ?sha = "\<lambda>_. sample_csha"
  have files: "cf_shared sample_files = Some (JObj sample_config)" "cf_sha256 sample_files = sample_csha"
    by (simp_all add: sample_files_def)
  obtain b m' b' se where run: "run_series_headless size_H (\<lambda>_. []) (\<lambda>_. []) ?sha (\<lambda>_. dp) (\<lambda>_. sample_envs) True 6 None
      (\<lambda>_. Inr ack_ok) (\<lambda>_. id) (ld_game_uid ld) sample_csha (new_machine INITIALIZING, b) = ((m', b'), Inr se)"
    and se: "se_terminated_reason se = ''completed''" "se_agreed se" "se_agreement_status se = ''agreed''"
    using agreeing_series [OF dp(2), of ?sha 6 "ld_game_uid ld" sample_csha] dp(3,4) by auto
  have m: "m_state (new_machine INITIALIZING) = INITIALIZING" by (simp add: new_machine_def)
  have 1: "\<forall>i::nat. deps_ok dp" by (simp add: dp(2))
  have 2: "0 < (6::int)" by simp
  have len: "length (se_sub_games se) = length (se_run_results se)"
    using completed_headless [where fac = "\<lambda>_. dp", OF 1 2 m run se(1)] by (simp add: series_records_map)
  obtain dir ps where pub: "publish_series size_H (\<lambda>_. []) (\<lambda>_. []) (\<lambda>_. []) ?sha sample_me sample_config ld sample_csha se [] =
      (dir, Inr ps)"
    using publish_ok [OF len ids p, where H = size_H and rp = "\<lambda>_. []" and fr = "\<lambda>_. []"] by auto
  obtain sv where sv: "serve None sample_files (np_my_port (pv_network (ld_private ld))) sample_out = Some (Some sv, Inr ())"
    and stop: "\<forall>r :: series_result res. stopped sample_out sv r = (sv\<lparr>should_exit := True, sv_task := Finished (Inr ())\<rparr>, r)"
    using sample_serves by blast
  have strat: "os_strategy sample_out = Inr ()" by (simp add: sample_out_def)
  have "run_series_program size_H (\<lambda>_. []) (\<lambda>_. []) (\<lambda>_. []) ?sha sample_files sample_out sample_me
      (\<lambda>_. sample_envs) None (\<lambda>_. Inr ack_ok) (\<lambda>_. id) (new_machine INITIALIZING, b) ''url'' True True None None None [] =
      Some (Ended (Some (sv\<lparr>should_exit := True, sv_task := Finished (Inr ())\<rparr>)) dir
        (Inr (series_summary (ld_game_id ld) (ld_game_uid ld) ps se)))"
    using stop pub dp(1)
    by (simp add: run_series_program_def ld files num with_server_def sv sample_before_games run ebind_def eret_def strat)
  then show ?thesis
    using se by (force simp: process_exit_def Ended_def summary_exit_code_def series_summary_def Let_def)
qed

theorem exit_zero_publishes_verified_series_witness:
  "\<exists>b pe. run_series_program size_H (\<lambda>_. []) (\<lambda>_. []) (\<lambda>_. []) (\<lambda>_. sample_csha) sample_files sample_out sample_me
      (\<lambda>_. sample_envs) None (\<lambda>_. Inr ack_ok) (\<lambda>_. id) (new_machine INITIALIZING, b) ''url'' True True None None None [] =
      Some pe \<and>
    process_exit (pe_summary pe) = 0 \<and> verify_replay size_H (\<lambda>_. []) (pe_dir pe) = Inr []"
proof -
  obtain ld p dp where l: "load_configs (\<lambda>_. []) (\<lambda>_. []) (\<lambda>_. sample_csha) sample_files = Inr ld"
    and p: "ld_private ld = p" "gi_group_id (pv_game p) = JStr ''t''" "gi_group_name (pv_game p) = JStr ''Thieves''"
    and ids: "ld_game_id ld \<noteq> []" "ld_game_uid ld \<noteq> []"
    and num: "int_value (attr (sc_network (ld_shared ld)) ''num_games'') = Some 6"
    and dp: "deps_of_config (ld_shared ld) (ld_game_uid ld) (cf_sha256 sample_files) None = Some dp" "deps_ok dp"
    and start: "is_within (dp_thief_start dp) (dp_grid_size dp)" and more: "response_timeout dp = 30" "reveal_transform dp = None"
    by (rule sample_loads)
  from sample_program_ends [OF l p(2,3) [folded p(1)] ids num dp more] obtain b pe where
    prog: "run_series_program size_H (\<lambda>_. []) (\<lambda>_. []) (\<lambda>_. []) (\<lambda>_. sample_csha) sample_files sample_out sample_me
      (\<lambda>_. sample_envs) None (\<lambda>_. Inr ack_ok) (\<lambda>_. id) (new_machine INITIALIZING, b) ''url'' True True None None None [] = Some pe"
    and code: "process_exit (pe_summary pe) = 0" by blast
  have m: "m_state (new_machine INITIALIZING) = INITIALIZING" by (simp add: new_machine_def)
  have nonce: "\<forall>i::nat. inj (\<lambda>k. te_nonce (sample_envs k))" using inj_sample_nonce by blast
  have H: "\<forall>x. ascii_text (size_H x)" by (simp add: ascii_text_def size_H_def list_all_iff)
  from exit_zero_publishes_verified_series [where envs = "\<lambda>_. sample_envs", OF l dp(1) start m nonce H prog code]
  have "verify_replay size_H (\<lambda>_. []) (pe_dir pe) = Inr []" by blast
  with prog code show ?thesis by blast
qed



section \<open>What the verdict does not depend on\<close>

definition with_file :: "string \<Rightarrow> jobj \<Rightarrow> directory \<Rightarrow> directory" where
  "with_file name d dir = map (\<lambda>(n, v). (n, if n = name then Inr (JObj d) else v)) dir"

lemma rbind_assoc: "rbind (rbind m f) g = rbind m (\<lambda>x. rbind (f x) g)"
  by (cases m) simp_all

lemma sort_by_name:
  assumes "\<And>x. fst (f x) = fst x"
  shows "sort_key fst (map f xs) = map f (sort_key fst xs)"
proof -
  have "insort_key fst (f x) (map f ys) = map f (insort_key fst x ys)" for x ys
    by (induction ys) (simp_all add: assms)
  then show ?thesis by (induction xs) simp_all
qed

lemma glob_with_file: "glob stem (with_file name d dir) = with_file name d (glob stem dir)"
proof -
  let ?f = "\<lambda>(n, v). (n, if n = name then Inr (JObj d) else v)"
  have "sort_key fst (with_file name d dir) = map ?f (sort_key fst dir)"
    unfolding with_file_def by (rule sort_by_name) (simp add: case_prod_beta)
  then show ?thesis by (simp add: glob_def filter_map comp_def with_file_def split_def)
qed

lemma with_file_other: "name \<notin> set (map fst dir) \<Longrightarrow> with_file name d dir = dir"
  unfolding with_file_def by (rule map_idI) (auto simp: case_prod_beta intro: rev_image_eqI)

lemma glob_names: "n \<in> set (map fst (glob stem dir)) \<Longrightarrow> take (length stem) n = stem"
  by (auto simp: glob_def)

lemma glob_other:
  assumes "take 12 name = ''declaration_''" and "take (length stem) ''declaration_'' \<noteq> stem" and "length stem \<le> 12"
  shows "glob stem (with_file name d dir) = glob stem dir"
proof -
  have "name \<notin> set (map fst (glob stem dir))"
  proof
    assume "name \<in> set (map fst (glob stem dir))"
    then have "take (length stem) name = stem" by (rule glob_names)
    moreover have "take (length stem) name = take (length stem) (take 12 name)" using assms(3) by (simp add: min_def)
    ultimately show False using assms(1,2) by simp
  qed
  then show ?thesis by (simp add: glob_with_file with_file_other)
qed

lemma same_verdict:
  assumes "jget d' ''game_uid'' JNull = jget d ''game_uid'' JNull"
  shows "verify_bundle H rp \<lparr>rb_declaration = Some d', rb_configs = cs, rb_logs = ls, rb_result = r\<rparr> =
    verify_bundle H rp \<lparr>rb_declaration = Some d, rb_configs = cs, rb_logs = ls, rb_result = r\<rparr>" (is "verify_bundle H rp ?b' = verify_bundle H rp ?b")
proof -
  have same: "rb_configs ?b' = cs" "rb_configs ?b = cs" "rb_logs ?b' = ls" "rb_logs ?b = ls" "rb_result ?b' = r" "rb_result ?b = r"
    by simp_all
  have "check_game_uid ?b' = check_game_uid ?b" using assms by (simp add: check_game_uid_def all_dicts_def)
  moreover have "check_config_hashes ?b' = check_config_hashes ?b" by (simp add: check_config_hashes_def)
  moreover have "check_counts ?b' = check_counts ?b" by (rule ext) (simp add: check_counts_def)
  moreover have "check_no_duplicate_sub_games ?b' = check_no_duplicate_sub_games ?b"
    by (simp add: check_no_duplicate_sub_games_def)
  moreover have "check_step_counts ?b' = check_step_counts ?b" by (rule ext) (simp add: check_step_counts_def)
  ultimately show ?thesis unfolding verify_bundle_def same by (simp only:)
qed

text \<open>Loading takes the declaration first; the other files do not depend on it.\<close>

definition bundle_rest :: "directory \<Rightarrow> (jobj list \<times> jobj list \<times> jobj option) res" where
  "bundle_rest dir =
     rbind (traverse (\<lambda>(_, f). load_json f) (glob ''config_'' dir)) (\<lambda>configs.
     rbind (traverse (\<lambda>(_, f). load_json f) (glob ''log_'' dir)) (\<lambda>logs.
     rbind (load_one (glob ''result_'' dir)) (\<lambda>result. Inr (configs, logs, result))))"

lemma load_bundle_rest:
  "load_bundle dir = rbind (load_one (glob ''declaration_'' dir)) (\<lambda>decl. rbind (bundle_rest dir) (\<lambda>(cs, ls, r).
     Inr \<lparr>rb_declaration = decl, rb_configs = cs, rb_logs = ls, rb_result = r\<rparr>))"
  by (simp add: load_bundle_def bundle_rest_def rbind_assoc)

lemma bundle_rest_with_file:
  assumes "take 12 name = ''declaration_''"
  shows "bundle_rest (with_file name d' dir) = bundle_rest dir"
  using assms by (simp add: bundle_rest_def glob_other)

lemma load_declaration_with_file:
  assumes "map_of dir name = Some (Inr (JObj d))" and "distinct (map fst dir)"
  shows "load_one (with_file name d' (glob stem dir)) = load_one (glob stem dir) \<or>
    load_one (glob stem dir) = Inr (Some d) \<and> load_one (with_file name d' (glob stem dir)) = Inr (Some d')"
proof (cases "glob stem dir")
  case (Cons nv rest)
  obtain n v where nv: "nv = (n, v)" by fastforce
  show ?thesis
  proof (cases "n = name")
    case True
    have "(name, v) \<in> set (glob stem dir)" using Cons nv True by simp
    then have "(name, v) \<in> set dir" by (auto simp: glob_def)
    with assms have "v = Inr (JObj d)" by simp
    with True Cons nv show ?thesis by (simp add: load_one_def with_file_def load_json_def)
  qed (use Cons nv in \<open>simp add: load_one_def with_file_def\<close>)
qed (simp add: load_one_def with_file_def)

text \<open>
  C35. The declaration is published but not verified: whatever else is changed in the declaration file, its content digest and the
  commit of the code included, the verdict stays, as long as the file names the same game.
\<close>

theorem verdict_ignores_declaration:
  assumes "take 12 name = ''declaration_''" and "map_of dir name = Some (Inr (JObj d))" and "distinct (map fst dir)"
    and "jget d' ''game_uid'' JNull = jget d ''game_uid'' JNull"
  shows "verify_replay H rp (with_file name d' dir) = verify_replay H rp dir"
proof -
  let ?decl = "load_one (glob ''declaration_'' dir)" and ?decl' = "load_one (with_file name d' (glob ''declaration_'' dir))"
  have load: "load_bundle (with_file name d' dir) = rbind ?decl' (\<lambda>decl. rbind (bundle_rest dir) (\<lambda>(cs, ls, r).
      Inr \<lparr>rb_declaration = decl, rb_configs = cs, rb_logs = ls, rb_result = r\<rparr>))"
    by (simp add: load_bundle_rest bundle_rest_with_file [OF assms(1)] glob_with_file)
  from load_declaration_with_file [OF assms(2,3)] consider "?decl' = ?decl" | "?decl = Inr (Some d)" "?decl' = Inr (Some d')"
    by blast
  then show ?thesis
  proof cases
    case 1
    then show ?thesis by (simp add: verify_replay_def load load_bundle_rest [of dir])
  next
    case 2
    then show ?thesis
      using same_verdict [OF assms(4)]
      by (cases "bundle_rest dir") (auto simp: verify_replay_def load load_bundle_rest [of dir])
  qed
qed

theorem verdict_ignores_declaration_witness:
  "verify_replay size_H (\<lambda>_. []) (with_file ''declaration_g.json'' [(''game_uid'', JStr ''u''), (''content_sha256'', JStr ''y'')]
     ((''declaration_g.json'', Inr (JObj [(''game_uid'', JStr ''u''), (''content_sha256'', JStr ''x'')])) #
      small_dir (log_step sample_sealed) ''survival'')) =
   verify_replay size_H (\<lambda>_. [])
     ((''declaration_g.json'', Inr (JObj [(''game_uid'', JStr ''u''), (''content_sha256'', JStr ''x'')])) #
      small_dir (log_step sample_sealed) ''survival'')"
  by (rule verdict_ignores_declaration [where d = "[(''game_uid'', JStr ''u''), (''content_sha256'', JStr ''x'')]"])
    (simp_all add: small_dir_def artifact_file_def)

end
