(* ===== verification/Report.thy ===== *)
theory Report
  imports Replay Server RateLimit
begin

text \<open>
  The mail report: its body (\<^verbatim>\<open>domain/gmail_report_schema.py\<close>), the gate and the assembly from published files
  (\<^verbatim>\<open>sdk/report_runner.py\<close>), the sender (\<^verbatim>\<open>infrastructure/gmail_sender.py\<close>) and the exit codes of the command
  (\<^verbatim>\<open>cli_gmail.py\<close>). \<open>file_sha\<close> is the digest of the bytes of a named file.
\<close>

section \<open>Comparison of untyped values\<close>

text \<open>\<^verbatim>\<open>x < y\<close>: numbers, strings and lists with their own kind.\<close>

fun py_lt :: "json \<Rightarrow> json \<Rightarrow> bool res" where
  "py_lt (JStr s) (JStr t) = Inr (s < t)"
| "py_lt (JList xs) (JList ys) =
     (case (xs, ys) of
        (_, []) \<Rightarrow> Inr False
      | ([], _) \<Rightarrow> Inr True
      | (x # xs', y # ys') \<Rightarrow> if json_eq x y then py_lt (JList xs') (JList ys') else py_lt x y)"
| "py_lt x y =
     (case (num_of x, num_of y) of (Some f, Some g) \<Rightarrow> Inr (float_lt f g) | _ \<Rightarrow> Inl TypeError)"

text \<open>\<^verbatim>\<open>min\<close> and \<^verbatim>\<open>max\<close> keep the first of equal values.\<close>

fun py_min :: "json \<Rightarrow> json list \<Rightarrow> json res" where
  "py_min best [] = Inr best"
| "py_min best (x # xs) = rbind (py_lt x best) (\<lambda>less. py_min (if less then x else best) xs)"

fun py_max :: "json \<Rightarrow> json list \<Rightarrow> json res" where
  "py_max best [] = Inr best"
| "py_max best (x # xs) = rbind (py_lt best x) (\<lambda>more. py_max (if more then x else best) xs)"

section \<open>The body of the report\<close>

definition REPORT_SCHEMA_VERSION :: string where
  "REPORT_SCHEMA_VERSION = ''gmail-report/1''"

definition MANDATORY_RECIPIENT :: string where
  "MANDATORY_RECIPIENT = ''rmisegal+uoh26finalgame@gmail.com''"

definition steps_of :: "json \<Rightarrow> json res" where
  "steps_of log_json = rbind (obj_or_raise log_json) (\<lambda>d. Inr (jget d ''steps'' (JList [])))"

definition log_timestamps :: "json \<Rightarrow> json list res" where
  "log_timestamps log_json =
     rbind (steps_of log_json) (\<lambda>v. rbind (py_tuple v) (\<lambda>steps.
     rbind (traverse (\<lambda>s. rbind (obj_or_raise s) (\<lambda>d. Inr (jget d ''timestamp'' JNull))) steps) (\<lambda>ts.
       Inr (filter truthy ts))))"

definition runtime_summary :: "json list \<Rightarrow> jobj res" where
  "runtime_summary logs =
     rbind (traverse log_timestamps logs) (\<lambda>tss.
       case concat tss of
         [] \<Rightarrow> Inr [(''first_timestamp'', JNull), (''last_timestamp'', JNull), (''total_steps'', JInt 0)]
       | t # ts \<Rightarrow>
           rbind (py_min t ts) (\<lambda>first. rbind (py_max t ts) (\<lambda>final.
           rbind (traverse (\<lambda>l. rbind (steps_of l) py_len) logs) (\<lambda>ns.
             Inr [(''first_timestamp'', first), (''last_timestamp'', final),
                  (''total_steps'', JInt (int (sum_list ns)))]))))"

definition audit_entry :: "json \<Rightarrow> json res" where
  "audit_entry sg =
     rbind (obj_or_raise sg) (\<lambda>d.
       Inr (JObj [(''sub_game_number'', jget d ''sub_game_number'' JNull), (''audit_ok'', jget d ''audit_ok'' JNull)]))"

definition build_report ::
    "(string \<Rightarrow> string) \<Rightarrow> json \<Rightarrow> json \<Rightarrow> string list \<Rightarrow> json list \<Rightarrow> jobj res" where
  "build_report file_sha declaration result names logs =
     rbind (obj_or_raise declaration) (\<lambda>d.
     rbind (obj_or_raise result) (\<lambda>r.
     rbind (py_tuple (jget r ''sub_games'' (JList []))) (\<lambda>games.
     rbind (traverse audit_entry games) (\<lambda>audits.
     rbind (runtime_summary logs) (\<lambda>summary.
       let of_d = (\<lambda>k. jget d k JNull); of_r = (\<lambda>k. jget r k JNull) in
       Inr [(''schema_version'', JStr REPORT_SCHEMA_VERSION),
            (''recipient'', JStr MANDATORY_RECIPIENT),
            (''game_id'', of_d ''game_id''),
            (''game_uid'', of_d ''game_uid''),
            (''group_id'', of_d ''group_id''),
            (''members'', jget d ''members'' (JList [])),
            (''repositories'', JObj [(''police'', of_d ''police_repository''), (''thief'', of_d ''thief_repository'')]),
            (''mcp_urls'', JObj [(''police'', of_d ''police_mcp_url''), (''thief'', of_d ''thief_mcp_url'')]),
            (''sub_game_outcomes'', jget r ''sub_games'' (JList [])),
            (''scores'', JObj [(''police_total'', of_r ''police_total''), (''thief_total'', of_r ''thief_total'')]),
            (''aggregate_result'', JObj [(''agreed'', of_r ''agreed''), (''agreement_status'', of_r ''agreement_status'')]),
            (''audit_status'', JList audits),
            (''config_sha256'', of_r ''config_sha256''),
            (''commit_hashes'', JObj [(''this_side'', of_d ''git_commit'')]),
            (''hardware_declaration'', jget d ''hardware'' (JObj [])),
            (''strategy_class'', of_d ''strategy_class''),
            (''token_usage'', JObj [(''banter_provider'', of_d ''banter_provider''), (''total_tokens'', JInt 0)]),
            (''runtime_summary'', JObj summary),
            (''artifact_hashes'', JObj (map (\<lambda>n. (n, JStr (file_sha n))) names))])))))"

section \<open>From the files of a directory\<close>

text \<open>The files as they are, any JSON; the verifier has looked at them before.\<close>

definition report_bundle :: "directory \<Rightarrow> (json \<times> json \<times> json list \<times> string list) res" where
  "report_bundle dir =
     (case (glob ''declaration_'' dir, glob ''result_'' dir) of
        ((_, d) # _, (_, r) # _) \<Rightarrow>
          rbind d (\<lambda>declaration. rbind r (\<lambda>result.
          rbind (traverse snd (glob ''log_'' dir)) (\<lambda>logs.
            Inr (declaration, result, logs,
                 map fst (glob ''declaration_'' dir @ glob ''result_'' dir @ glob ''log_'' dir)))))
      | _ \<Rightarrow> Inl FileNotFoundError)"

definition require_verified ::
    "digest \<Rightarrow> (json \<Rightarrow> string) \<Rightarrow> directory \<Rightarrow> directory option \<Rightarrow> unit res" where
  "require_verified H rp dir opponent_dir =
     (case opponent_dir of
        None \<Rightarrow> rbind (verify_replay H rp dir) (\<lambda>fs. rguard (fs = []) ReportRefusedError)
      | Some other \<Rightarrow> rbind (verify_bilateral H rp dir other) (\<lambda>(_, _, full). rguard full ReportRefusedError))"

definition build_report_from_artifacts ::
    "digest \<Rightarrow> (json \<Rightarrow> string) \<Rightarrow> (string \<Rightarrow> string) \<Rightarrow> directory \<Rightarrow> directory option \<Rightarrow> jobj res" where
  "build_report_from_artifacts H rp file_sha dir opponent_dir =
     rbind (require_verified H rp dir opponent_dir) (\<lambda>_.
     rbind (report_bundle dir) (\<lambda>(declaration, result, logs, names).
       build_report file_sha declaration result names logs))"

section \<open>Sending\<close>

record dry_run_report =
  dr_would_send_to :: string
  dr_subject :: string
  dr_body :: jobj
  dr_idempotency_key :: string

definition report_key :: "(json \<Rightarrow> string) \<Rightarrow> jobj \<Rightarrow> string" where
  "report_key rp report =
     py_str rp (jget report ''game_uid'' JNull) @ '':'' @ py_str rp (jget report ''config_sha256'' JNull)"

definition assert_recipient :: "jobj \<Rightarrow> unit res" where
  "assert_recipient report =
     rguard (json_eq (jget report ''recipient'' JNull) (JStr MANDATORY_RECIPIENT)) RecipientMismatchError"

definition dry_run :: "(json \<Rightarrow> string) \<Rightarrow> jobj \<Rightarrow> dry_run_report" where
  "dry_run rp report =
     \<lparr>dr_would_send_to = MANDATORY_RECIPIENT,
      dr_subject = ''[AI2 Final] '' @ py_str rp (jget report ''game_id'' JNull) @ '' / '' @
        py_str rp (jget report ''game_uid'' JNull),
      dr_body = report, dr_idempotency_key = report_key rp report\<rparr>"

definition dry_run_dict :: "dry_run_report \<Rightarrow> jobj" where
  "dry_run_dict p =
     [(''would_send_to'', JStr (dr_would_send_to p)), (''subject'', JStr (dr_subject p)),
      (''body'', JObj (dr_body p)), (''idempotency_key'', JStr (dr_idempotency_key p))]"

text \<open>Either of the two families of exceptions.\<close>

datatype report_error = Raised py_exc | Credentials credential_error

text \<open>\<open>outcome\<close> is what the attempts of the gatekeeper meet, \<open>now\<close> and \<open>clock\<close> its readings.\<close>

definition send_report ::
    "(json \<Rightarrow> string) \<Rightarrow> jobj \<Rightarrow> string list \<Rightarrow> real \<Rightarrow> (int \<Rightarrow> real) \<Rightarrow> (int \<Rightarrow> send_outcome)
       \<Rightarrow> mail_gatekeeper \<Rightarrow> mail_gatekeeper \<times> (report_error + gatekeeper_result)" where
  "send_report rp report granted_scopes now clock outcome g =
     (case assert_scope_is_send_only granted_scopes of
        Inl e \<Rightarrow> (g, Inl (Credentials e))
      | Inr _ \<Rightarrow>
          (case assert_recipient report of
             Inl e \<Rightarrow> (g, Inl (Raised e))
           | Inr _ \<Rightarrow>
               (case mail_submit (dr_idempotency_key (dry_run rp report)) now clock outcome g of
                  (g', Inl e) \<Rightarrow> (g', Inl (Raised e)) | (g', Inr r) \<Rightarrow> (g', Inr r))))"

definition result_dict :: "gatekeeper_result \<Rightarrow> jobj" where
  "result_dict r =
     [(''ok'', JBool (gr_ok r)), (''attempts'', JInt (gr_attempts r)), (''duplicate'', JBool (gr_duplicate r)),
      (''error'', case gr_error r of None \<Rightarrow> JNull | Some e \<Rightarrow> JStr e)]"

definition run_dry_run ::
    "digest \<Rightarrow> (json \<Rightarrow> string) \<Rightarrow> (string \<Rightarrow> string) \<Rightarrow> directory \<Rightarrow> directory option \<Rightarrow> jobj res" where
  "run_dry_run H rp file_sha dir opponent_dir =
     rbind (build_report_from_artifacts H rp file_sha dir opponent_dir) (\<lambda>report.
       Inr (dry_run_dict (dry_run rp report)))"

text \<open>Every run has a new gatekeeper, with the limits of the file (\<open>cfg\<close>).\<close>

definition run_send ::
    "digest \<Rightarrow> (json \<Rightarrow> string) \<Rightarrow> (string \<Rightarrow> string) \<Rightarrow> directory \<Rightarrow> directory option \<Rightarrow> (string \<Rightarrow> bool)
       \<Rightarrow> (string \<times> string) list \<Rightarrow> rate_config res \<Rightarrow> real \<Rightarrow> (int \<Rightarrow> real) \<Rightarrow> (int \<Rightarrow> send_outcome)
       \<Rightarrow> report_error + jobj" where
  "run_send H rp file_sha dir opponent_dir present env cfg now clock outcome =
     (case build_report_from_artifacts H rp file_sha dir opponent_dir of
        Inl e \<Rightarrow> Inl (Raised e)
      | Inr report \<Rightarrow>
          (case resolve_credential_paths present env of
             Inl (CredentialResolutionError why) \<Rightarrow> Inr [(''ok'', JBool False), (''error'', JStr why)]
           | Inr _ \<Rightarrow>
               (case cfg of
                  Inl e \<Rightarrow> Inl (Raised e)
                | Inr c \<Rightarrow>
                    (case send_report rp report [REQUIRED_SCOPE] now clock outcome
                            \<lparr>mg_config = c, mg_sent_keys = [], mg_recent = [], mg_queue_depth = 0\<rparr> of
                       (_, Inl e) \<Rightarrow> Inl e
                     | (_, Inr r) \<Rightarrow> Inr (result_dict r)))))"

text \<open>The command: a refused report is 3, a failed send 1, and another exception a traceback with 1.\<close>

definition report_exit :: "bool \<Rightarrow> report_error + jobj \<Rightarrow> int" where
  "report_exit sending r =
     (case r of
        Inl (Raised ReportRefusedError) \<Rightarrow> 3
      | Inl _ \<Rightarrow> 1
      | Inr d \<Rightarrow> if \<not> sending then 0 else if truthy (jget d ''ok'' JNull) then 0 else 1)"

section \<open>What a report says\<close>

lemma bilateral_full:
  assumes "verify_bilateral H rp dir other = Inr (p, t, True)"
  shows "verify_replay H rp dir = Inr [] \<and> verify_replay H rp other = Inr []"
proof -
  have side: "verify_replay H rp d = Inr []" if "verify_side H rp d = Inr s" "sd_independently_verified s" "sd_ok s" for d s
    using that by (auto simp: verify_side_def res_simps split: if_splits)
  from assms have "verify_side H rp dir = Inr p" "verify_side H rp other = Inr t"
    "sd_independently_verified p \<and> sd_ok p \<and> sd_independently_verified t \<and> sd_ok t"
    by (auto simp: verify_bilateral_def res_simps)
  with side show ?thesis by blast
qed

lemma require_verified_Inr:
  assumes "require_verified H rp dir opponent_dir = Inr u"
  shows "verify_replay H rp dir = Inr [] \<and> (\<forall>other. opponent_dir = Some other \<longrightarrow> verify_replay H rp other = Inr [])"
  using assms bilateral_full by (auto simp: require_verified_def res_simps split: option.splits)

lemma build_report_Inr:
  assumes "build_report file_sha decl result names logs = Inr report"
  shows "\<exists>r. result = JObj r \<and> jget report ''recipient'' JNull = JStr MANDATORY_RECIPIENT \<and>
    jget report ''sub_game_outcomes'' JNull = jget r ''sub_games'' (JList []) \<and>
    jget report ''scores'' JNull = JObj [(''police_total'', jget r ''police_total'' JNull), (''thief_total'', jget r ''thief_total'' JNull)]"
  using assms by (cases decl; cases result) (auto simp: build_report_def res_simps Let_def)

end
