(* ===== verification/ReportClaims.thy ===== *)
theory ReportClaims
  imports Report ProgramClaims
begin

text \<open>
  The mail report rests on the verifier: nothing is built, and nothing is sent, from files that do not verify.
\<close>

section \<open>Lemmas\<close>

lemma attempt_send_ok:
  "attempt_send fuel a key clock outcome g = (g', Inr r) \<Longrightarrow> gr_ok r \<Longrightarrow> \<exists>k. outcome k = Sent"
proof (induction fuel arbitrary: a g)
  case 0
  then show ?case by (auto simp: GatekeeperResult_def)
next
  case (Suc fuel)
  show ?case
  proof (cases "outcome (a + 1)")
    case RateLimited
    with Suc show ?thesis by (auto simp: Let_def GatekeeperResult_def split: if_splits)
  qed (use Suc.prems in \<open>auto simp: Let_def GatekeeperResult_def split: if_splits\<close>)
qed

lemma mail_submit_ok:
  assumes "mail_submit key now clock outcome g = (g', Inr r)" and "gr_ok r" and "key \<notin> set (mg_sent_keys g)"
  shows "\<exists>k. outcome k = Sent"
  using assms attempt_send_ok
  by (fastforce simp: mail_submit_def GatekeeperResult_def split: if_splits prod.splits bool.splits)

lemma send_report_ok:
  assumes "send_report rp report scopes now clock outcome g = (g', Inr r)" and "gr_ok r" and "mg_sent_keys g = []"
  shows "\<exists>k. outcome k = Sent"
  using assms mail_submit_ok [where outcome = outcome and r = r]
  by (fastforce simp: send_report_def split: sum.splits prod.splits)

lemma report_from_result:
  assumes "build_report_from_artifacts H rp file_sha dir opponent_dir = Inr report"
  shows "\<exists>b r. load_bundle dir = Inr b \<and> rb_result b = Some r \<and>
    jget report ''recipient'' JNull = JStr MANDATORY_RECIPIENT \<and>
    jget report ''sub_game_outcomes'' JNull = jget r ''sub_games'' (JList []) \<and>
    jget report ''scores'' JNull = JObj [(''police_total'', jget r ''police_total'' JNull), (''thief_total'', jget r ''thief_total'' JNull)]"
proof -
  obtain u decl result logs names where v: "require_verified H rp dir opponent_dir = Inr u"
    and b: "report_bundle dir = Inr (decl, result, logs, names)"
    and r: "build_report file_sha decl result names logs = Inr report"
    using assms by (auto simp: build_report_from_artifacts_def res_simps)
  from require_verified_Inr [OF v] have "verify_replay H rp dir = Inr []" by blast
  then obtain bundle' where load: "load_bundle dir = Inr bundle'"
    by (auto simp: verify_replay_def split: sum.splits if_splits)
  obtain n rest where g: "glob ''result_'' dir = (n, Inr result) # rest"
    using b by (auto simp: report_bundle_def res_simps split: list.splits)
  obtain d where d: "result = JObj d" using build_report_Inr [OF r] by blast
  from load g d have "rb_result bundle' = Some d"
    by (auto simp: load_bundle_def res_simps load_one_def load_json_def)
  with load build_report_Inr [OF r] d show ?thesis by auto
qed

section \<open>Claims\<close>


text \<open>A published sub-game with its declaration.\<close>

definition declared_dir :: directory where
  "declared_dir = artifact_file ''declaration_g.json'' [(''game_uid'', JStr ''u'')] #
     small_dir (log_step sample_sealed) ''survival''"

definition sample_digest :: digest where
  "sample_digest = marker_H (to_canonical_dict (sr_payload sample_sealed))"

lemma declared_dir_verifies: "verify_replay sample_digest rp declared_dir = Inr []"
proof -
  have load: "load_bundle declared_dir = Inr \<lparr>rb_declaration = Some [(''game_uid'', JStr ''u'')], rb_configs = [small_config],
     rb_logs = [small_log (log_step sample_sealed)], rb_result = Some (small_result ''survival'')\<rparr>"
    by (simp add: load_bundle_def declared_dir_def small_dir_def load_one_def glob_def artifact_file_def load_json_def)
  have log: "verify_log sample_digest rp (small_log (log_step sample_sealed)) (JInt 7) = Inr []"
    by (rule verify_log_ok [where rs = "[sample_sealed]" and n = 1])
      (auto simp: log_dict_of_def small_log_def records_ok_def nonces_def ascii_text_def marker_H_def sample_digest_def
        sample_sealed_ok)
  have scores: "verify_scores (small_result ''survival'') sample_sc = Inr []"
    by (simp add: verify_scores_def small_result_def score_entry_def at_key_def outcome_of_def expected_scores_def pair_eq_def
        sample_sc_def attr_def py_add_def)
  show ?thesis
    using verify_small_bundle [OF small_board, where decl = "Some [(''game_uid'', JStr ''u'')]" and H = sample_digest and rp = rp
        and step = "log_step sample_sealed" and outcome = "''survival''"]
    by (simp add: verify_replay_def load log scores guarded_def)
qed

lemma declared_dir_reports: "\<exists>report. build_report_from_artifacts sample_digest rp file_sha declared_dir None = Inr report"
proof -
  obtain d where d: "log_step sample_sealed = JObj d" "jget d ''timestamp'' JNull = JStr []"
    by (simp add: log_step_def to_canonical_dict_def sample_sealed_def sample_payload_def Let_def)
  have gate: "require_verified sample_digest rp declared_dir None = Inr ()"
    by (simp add: require_verified_def declared_dir_verifies)
  show ?thesis
    unfolding build_report_from_artifacts_def gate rbind.simps
    by (simp add: report_bundle_def declared_dir_def small_dir_def glob_def artifact_file_def build_report_def small_result_def
        audit_entry_def runtime_summary_def small_log_def log_timestamps_def steps_of_def d)
qed

text \<open>Sending it at the first attempt.\<close>

definition sample_limits :: rate_config where
  "sample_limits = \<lparr>requests_per_minute = 30, concurrent_requests = 2, retry_backoff_sec = 5, max_retries = 3, queue_depth = 100\<rparr>"


end
