(* ===== verification/ReplayView.thy ===== *)
theory ReplayView
  imports Replay
begin

text \<open>
  The replay viewer without its window (\<^verbatim>\<open>gui/replay_steps.py\<close>, \<^verbatim>\<open>replay_view_model.py\<close>,
  \<^verbatim>\<open>replay_playback.py\<close>, \<^verbatim>\<open>tk_replay_app.py\<close>, \<^verbatim>\<open>tk_replay_board.py\<close>, \<^verbatim>\<open>tk_replay_panels.py\<close>): both sides'
  files as the steps to show, the verdict on top of them, and the navigation.
\<close>

section \<open>Steps\<close>

record replay_step =
  rs_step :: json
  rs_role :: json
  rs_position :: "declared_cell option"
  rs_move :: json
  rs_hint :: json
  rs_barrier_placed :: "declared_cell option"
  rs_capture_claim :: "declared_cell option"
  rs_claim_response :: json
  rs_commit_hash_prefix :: string

record replay_sub_game =
  rg_sub_game_number :: json
  rg_result :: json
  rg_winner :: json
  rg_police_score :: json
  rg_thief_score :: json
  rg_steps_total :: json
  rg_audit_ok :: json
  rg_police_steps :: "replay_step list"
  rg_thief_steps :: "replay_step list"
  rg_barriers :: "declared_cell list"

text \<open>\<^verbatim>\<open>row, col = value\<close>.\<close>

definition unpack_cell :: "json \<Rightarrow> declared_cell res" where
  "unpack_cell v =
     rbind (py_tuple v) (\<lambda>xs. case xs of [a, b] \<Rightarrow> Inr (a, b) | _ \<Rightarrow> Inl (ValueError ''values to unpack''))"

definition step_position :: "jobj \<Rightarrow> declared_cell option res" where
  "step_position d =
     (if jhas d ''position'' \<and> \<not> is_null (jget d ''position'' JNull)
      then rbind (unpack_cell (jget d ''position'' JNull)) (\<lambda>p. Inr (Some p))
      else case jget d ''state'' JNull of
          JStr s \<Rightarrow> Inr (map_option (\<lambda>(r, c). (JInt r, JInt c)) (search_position s))
        | JObj state \<Rightarrow>
            (if jhas state ''position'' then rbind (unpack_cell (jget state ''position'' JNull)) (\<lambda>p. Inr (Some p))
             else Inr None)
        | _ \<Rightarrow> Inr None)"

definition as_cell :: "json \<Rightarrow> declared_cell option res" where
  "as_cell v = (if is_null v then Inr None else rbind (declared_cell_of v) (\<lambda>p. Inr (Some p)))"

definition replay_step_of :: "(json \<Rightarrow> string) \<Rightarrow> json \<Rightarrow> replay_step res" where
  "replay_step_of rp raw =
     rbind (at_key raw ''step'') (\<lambda>st.
     rbind (at_key raw ''role'') (\<lambda>rl.
     rbind (obj_or_raise raw) (\<lambda>d.
     rbind (step_position d) (\<lambda>pos.
     rbind (as_cell (jget d ''barrier_placed'' JNull)) (\<lambda>barrier.
     rbind (as_cell (jget d ''capture_claim'' JNull)) (\<lambda>claim.
       Inr \<lparr>rs_step = st, rs_role = rl, rs_position = pos, rs_move = jget d ''move'' (JStr []),
            rs_hint = jget d ''hint'' (JStr []), rs_barrier_placed = barrier, rs_capture_claim = claim,
            rs_claim_response = jget d ''claim_response'' JNull,
            rs_commit_hash_prefix = take 8 (py_str rp (jget d ''commit_hash'' (JStr [])))\<rparr>))))))"

text \<open>A dict of the logs by number: the last log with a number wins, and every number must be hashable.\<close>

definition numbered_logs :: "jobj list \<Rightarrow> jobj list res" where
  "numbered_logs logs =
     (if list_all (\<lambda>l. hashable (jget l ''sub_game_number'' JNull)) logs then Inr logs else Inl TypeError)"

definition steps_for :: "(json \<Rightarrow> string) \<Rightarrow> jobj list \<Rightarrow> json \<Rightarrow> replay_step list res" where
  "steps_for rp logs n =
     (if \<not> hashable n then Inl TypeError
      else let log_found = (case List.find (\<lambda>l. json_eq (jget l ''sub_game_number'' JNull) n) (rev logs) of
                        None \<Rightarrow> [] | Some l \<Rightarrow> l)
           in rbind (py_tuple (jget log_found ''steps'' (JList []))) (traverse (replay_step_of rp)))"

definition build_sub_game ::
    "(json \<Rightarrow> string) \<Rightarrow> jobj list \<Rightarrow> jobj list \<Rightarrow> json \<Rightarrow> replay_sub_game res" where
  "build_sub_game rp police_logs thief_logs entry =
     rbind (at_key entry ''sub_game_number'') (\<lambda>n.
     rbind (steps_for rp police_logs n) (\<lambda>ps.
     rbind (steps_for rp thief_logs n) (\<lambda>ts.
     rbind (at_key entry ''result'') (\<lambda>outcome.
     rbind (obj_or_raise entry) (\<lambda>d.
     rbind (jindex d ''police_score'') (\<lambda>a.
     rbind (jindex d ''thief_score'') (\<lambda>b.
     rbind (jindex d ''steps'') (\<lambda>total.
       Inr \<lparr>rg_sub_game_number = n, rg_result = outcome, rg_winner = jget d ''winner'' JNull,
            rg_police_score = a, rg_thief_score = b, rg_steps_total = total,
            rg_audit_ok = jget d ''audit_ok'' (JBool False), rg_police_steps = ps, rg_thief_steps = ts,
            rg_barriers = List.map_filter rs_barrier_placed ps\<rparr>))))))))"

section \<open>The view\<close>

record replay_view =
  rv_police :: side_verification
  rv_thief :: side_verification
  rv_verdict :: string
  rv_verification_ok :: bool
  rv_full_bilateral :: bool
  rv_declaration :: "jobj option"
  rv_config_sha256_prefix :: string
  rv_sub_games :: "replay_sub_game list"

text \<open>\<^verbatim>\<open>a or b\<close> on optional dicts: an empty one counts as none.\<close>

definition dict_or :: "jobj option \<Rightarrow> jobj option \<Rightarrow> jobj option" where
  "dict_or a b = (case a of Some (x # xs) \<Rightarrow> a | _ \<Rightarrow> b)"

definition view_verdict :: "side_verification \<Rightarrow> side_verification \<Rightarrow> bool \<Rightarrow> string \<times> bool" where
  "view_verdict police thief full =
     (if full then (''VERIFIED'', True)
      else (if \<not> sd_ok thief then sd_verdict thief else sd_verdict police,
            sd_ok thief \<and> (if sd_independently_verified police then sd_ok police else True)))"

definition build_replay_view ::
    "digest \<Rightarrow> (json \<Rightarrow> string) \<Rightarrow> directory \<Rightarrow> directory \<Rightarrow> replay_view res" where
  "build_replay_view H rp police_dir thief_dir =
     rbind (verify_bilateral H rp police_dir thief_dir) (\<lambda>(police, thief, full).
     rbind (load_bundle police_dir) (\<lambda>pb.
     rbind (load_bundle thief_dir) (\<lambda>tb.
     rbind (numbered_logs (rb_logs pb)) (\<lambda>police_logs.
     rbind (numbered_logs (rb_logs tb)) (\<lambda>thief_logs.
       let outcome = (case dict_or (rb_result tb) (rb_result pb) of None \<Rightarrow> [] | Some d \<Rightarrow> d) in
       rbind (py_tuple (jget outcome ''sub_games'' (JList []))) (\<lambda>entries.
       rbind (traverse (build_sub_game rp police_logs thief_logs) entries) (\<lambda>games.
         let outcome_shown = view_verdict police thief full in
         Inr \<lparr>rv_police = police, rv_thief = thief, rv_verdict = fst outcome_shown, rv_verification_ok = snd outcome_shown,
              rv_full_bilateral = full, rv_declaration = dict_or (rb_declaration tb) (rb_declaration pb),
              rv_config_sha256_prefix = take 8 (py_str rp (jget outcome ''config_sha256'' (JStr []))),
              rv_sub_games = games\<rparr>)))))))"

text \<open>The command \<^verbatim>\<open>replay\<close>, with or without a window; an exception ends the process with 1.\<close>

definition replay_exit :: "replay_view res \<Rightarrow> int" where
  "replay_exit r = (case r of Inl _ \<Rightarrow> 1 | Inr v \<Rightarrow> if rv_verification_ok v then 0 else 2)"

section \<open>What the window shows\<close>

datatype banner = BothVerified | Tampered string | Partial string string

definition verdict_banner :: "replay_view \<Rightarrow> banner \<times> finding list" where
  "verdict_banner v =
     (if rv_full_bilateral v then BothVerified
      else if \<not> rv_verification_ok v then Tampered (rv_verdict v)
      else Partial (sd_verdict (rv_thief v)) (sd_verdict (rv_police v)),
      sd_findings (rv_thief v) @ sd_findings (rv_police v))"

definition declaration_panel :: "(json \<Rightarrow> string) \<Rightarrow> replay_view \<Rightarrow> (string \<times> string) list" where
  "declaration_panel rp v =
     (let decl = (case rv_declaration v of None \<Rightarrow> [] | Some d \<Rightarrow> d) in
      [(''group_id'', py_str rp (jget decl ''group_id'' (JStr ''-''))),
       (''config_sha256_prefix'', rv_config_sha256_prefix v),
       (''police_verdict'', sd_verdict (rv_police v)),
       (''thief_verdict'', sd_verdict (rv_thief v))])"

text \<open>
  The dots of one peer up to the chosen step: small ones for the path, a large one for the last position. Comparing a
  step that is no number raises; a NaN is not shown.
\<close>

definition visible_cells :: "replay_step list \<Rightarrow> int \<Rightarrow> declared_cell list res" where
  "visible_cells steps up_to =
     rbind (traverse (\<lambda>s. rbind (gt_int (rs_step s) up_to) (\<lambda>later.
       Inr (if later \<or> rs_step s = JFloat NaN then None else rs_position s))) steps)
       (\<lambda>cells. Inr (List.map_filter id cells))"

definition trail :: "replay_step list \<Rightarrow> int \<Rightarrow> (declared_cell \<times> nat) list res" where
  "trail steps up_to =
     rbind (visible_cells steps up_to) (\<lambda>cells.
       Inr (map (\<lambda>c. (c, 5)) (butlast cells) @ (if cells = [] then [] else [(List.last cells, 12)])))"

text \<open>The panel of a step; \<open>rt\<close> renders a cell as a tuple. Nothing is updated without a sub-game.\<close>

definition step_at :: "replay_step list \<Rightarrow> int \<Rightarrow> replay_step option" where
  "step_at steps n = List.find (\<lambda>s. json_eq (rs_step s) (JInt n)) steps"

definition step_panel ::
    "(json \<Rightarrow> string) \<Rightarrow> (declared_cell \<Rightarrow> string) \<Rightarrow> replay_sub_game option \<Rightarrow> int \<Rightarrow> (string \<times> json) list" where
  "step_panel rp rt sub_game n =
     (case sub_game of None \<Rightarrow> [] | Some sg \<Rightarrow>
        (let p = step_at (rg_police_steps sg) n; t = step_at (rg_thief_steps sg) n;
             dash = JStr ''-'';
             or_dash = (\<lambda>f s. case s of None \<Rightarrow> dash | Some x \<Rightarrow> f x)
         in [(''sub_game'', JStr (py_str rp (rg_sub_game_number sg))),
             (''step'', JStr (str_of_int n)),
             (''police_move'', or_dash rs_move p),
             (''thief_move'', or_dash rs_move t),
             (''police_hint'', or_dash rs_hint p),
             (''thief_hint'', or_dash rs_hint t),
             (''capture_claim'', or_dash (\<lambda>s. case rs_capture_claim s of None \<Rightarrow> dash | Some c \<Rightarrow> JStr (rt c)) p),
             (''claim_response'', or_dash (\<lambda>s. JStr (py_str rp (rs_claim_response s))) t),
             (''commit_hash_prefix'', or_dash (\<lambda>s. JStr (rs_commit_hash_prefix s)) t),
             (''score'', JStr (''police '' @ py_str rp (rg_police_score sg) @ '' / thief '' @ py_str rp (rg_thief_score sg))),
             (''result'', JStr (py_str rp (rg_result sg) @ '' (winner: '' @ py_str rp (rg_winner sg) @ '')''))]))"

section \<open>Playback\<close>

text \<open>Over the step totals of the sub-games, taken to be integers.\<close>

definition SPEEDS_MS :: "nat list" where
  "SPEEDS_MS = [1500, 800, 400, 150]"

record playback =
  pl_sub_game_index :: nat
  pl_step :: int
  pl_playing :: bool
  pl_speed_index :: nat

definition new_playback :: playback where
  "new_playback = \<lparr>pl_sub_game_index = 0, pl_step = 0, pl_playing = False, pl_speed_index = 1\<rparr>"

definition max_step :: "int list \<Rightarrow> playback \<Rightarrow> int" where
  "max_step totals p = (if totals = [] then 0 else max 0 (totals ! pl_sub_game_index p - 1))"

definition select :: "int list \<Rightarrow> int \<Rightarrow> playback \<Rightarrow> playback" where
  "select totals i p =
     (if 0 \<le> i \<and> i < int (length totals) then p\<lparr>pl_sub_game_index := nat i, pl_step := 0\<rparr> else p)"

definition speed_ms :: "playback \<Rightarrow> nat" where
  "speed_ms p = SPEEDS_MS ! pl_speed_index p"

definition cycle_speed :: "playback \<Rightarrow> playback" where
  "cycle_speed p = p\<lparr>pl_speed_index := (pl_speed_index p + 1) mod length SPEEDS_MS\<rparr>"

definition advance_if_playing :: "int list \<Rightarrow> playback \<Rightarrow> playback \<times> bool" where
  "advance_if_playing totals p =
     (if \<not> pl_playing p then (p, False)
      else if max_step totals p \<le> pl_step p then (p\<lparr>pl_playing := False\<rparr>, False)
      else (p\<lparr>pl_step := pl_step p + 1\<rparr>, True))"

datatype control = Select int | JumpStart | JumpEnd | Prev | Next | TogglePlay | CycleSpeed | Advance

primrec playback_step :: "int list \<Rightarrow> playback \<Rightarrow> control \<Rightarrow> playback" where
  "playback_step totals p (Select i) = select totals i p"
| "playback_step totals p JumpStart = p\<lparr>pl_step := 0\<rparr>"
| "playback_step totals p JumpEnd = p\<lparr>pl_step := max_step totals p\<rparr>"
| "playback_step totals p Prev = p\<lparr>pl_step := max 0 (pl_step p - 1)\<rparr>"
| "playback_step totals p Next = p\<lparr>pl_step := min (max_step totals p) (pl_step p + 1)\<rparr>"
| "playback_step totals p TogglePlay = p\<lparr>pl_playing := \<not> pl_playing p\<rparr>"
| "playback_step totals p CycleSpeed = cycle_speed p"
| "playback_step totals p Advance = fst (advance_if_playing totals p)"

text \<open>
  The window: beside the state, the timers that will call \<^verbatim>\<open>_tick\<close>. A tick schedules the next one when it advanced; the
  button ticks at once when it starts the playback, whatever timer is still pending.
\<close>

type_synonym replay_app = "playback \<times> nat list"

definition app_tick :: "int list \<Rightarrow> replay_app \<Rightarrow> replay_app" where
  "app_tick totals app =
     (case app of (p, timers) \<Rightarrow>
        (case advance_if_playing totals p of
           (p', advanced) \<Rightarrow> (p', if advanced then timers @ [speed_ms p'] else timers)))"

definition app_toggle_play :: "int list \<Rightarrow> replay_app \<Rightarrow> replay_app" where
  "app_toggle_play totals app =
     (case app of (p, timers) \<Rightarrow>
        (let p' = playback_step totals p TogglePlay
         in if pl_playing p' then app_tick totals (p', timers) else (p', timers)))"

section \<open>Navigation stays in range\<close>

definition playback_ok :: "int list \<Rightarrow> playback \<Rightarrow> bool" where
  "playback_ok totals p \<longleftrightarrow>
     pl_sub_game_index p < max 1 (length totals) \<and> 0 \<le> pl_step p \<and> pl_step p \<le> max_step totals p \<and>
     pl_speed_index p < length SPEEDS_MS"

lemma max_step_simps [simp]:
  "0 \<le> max_step totals p"
  "max_step totals (p\<lparr>pl_step := i\<rparr>) = max_step totals p"
  "max_step totals (p\<lparr>pl_playing := b\<rparr>) = max_step totals p"
  "max_step totals (p\<lparr>pl_speed_index := k\<rparr>) = max_step totals p"
  by (simp_all add: max_step_def)

lemma playback_ok_step: "playback_ok totals p \<Longrightarrow> playback_ok totals (playback_step totals p c)"
  by (cases c)
    (auto simp: playback_ok_def select_def cycle_speed_def advance_if_playing_def SPEEDS_MS_def split: if_splits)

interpretation pb: component "playback_step totals" "playback_ok totals" for totals
  by unfold_locales (rule playback_ok_step)

lemma new_playback_ok: "playback_ok totals new_playback"
  by (simp add: playback_ok_def new_playback_def SPEEDS_MS_def)

section \<open>What the view rests on\<close>

lemma verify_side_cases:
  assumes "verify_side H rp dir = Inr s"
  obtains (legacy) "\<not> sd_independently_verified s" "sd_ok s" "sd_verdict s = LEGACY_VERDICT" "sd_findings s = []"
  | (clean) "sd_independently_verified s" "sd_ok s" "sd_verdict s = ''VERIFIED''" "verify_replay H rp dir = Inr []"
      "sd_findings s = []"
  | (tampered) f fs where "sd_independently_verified s" "\<not> sd_ok s" "sd_verdict s = ''TAMPERED''"
      "verify_replay H rp dir = Inr (f # fs)" "sd_findings s = f # fs"
proof -
  from assms obtain schema where "verify_side H rp dir = Inr s" and
    "(\<not> sd_independently_verified s \<and> sd_ok s \<and> sd_verdict s = LEGACY_VERDICT \<and> sd_findings s = []) \<or>
     (\<exists>fs. verify_replay H rp dir = Inr fs \<and> s = \<lparr>sd_verdict = verdict fs, sd_ok = (fs = []), sd_findings = fs,
        sd_independently_verified = True, sd_schema_version = schema\<rparr>)"
    by (auto simp: verify_side_def res_simps split: if_splits)
  then show thesis
  proof (elim disjE exE conjE)
    fix fs assume "verify_replay H rp dir = Inr fs"
      "s = \<lparr>sd_verdict = verdict fs, sd_ok = (fs = []), sd_findings = fs,
        sd_independently_verified = True, sd_schema_version = schema\<rparr>"
    then show thesis by (cases fs) (auto simp: verdict_def intro: clean tampered)
  qed (rule legacy)
qed

lemma view_Inr:
  assumes "build_replay_view H rp police_dir thief_dir = Inr v"
  shows "verify_side H rp police_dir = Inr (rv_police v) \<and> verify_side H rp thief_dir = Inr (rv_thief v) \<and>
    rv_full_bilateral v = (sd_independently_verified (rv_police v) \<and> sd_ok (rv_police v) \<and>
      sd_independently_verified (rv_thief v) \<and> sd_ok (rv_thief v)) \<and>
    rv_verdict v = fst (view_verdict (rv_police v) (rv_thief v) (rv_full_bilateral v)) \<and>
    rv_verification_ok v = snd (view_verdict (rv_police v) (rv_thief v) (rv_full_bilateral v))"
  using assms by (auto simp: build_replay_view_def verify_bilateral_def res_simps Let_def split: prod.splits)

lemma view_needs_both_bundles:
  assumes "build_replay_view H rp police_dir thief_dir = Inr v"
  shows "\<exists>pb tb. load_bundle police_dir = Inr pb \<and> load_bundle thief_dir = Inr tb"
  using assms by (auto simp: build_replay_view_def verify_bilateral_def res_simps split: prod.splits)

end
