(* ===== verification/ReplayViewClaims.thy ===== *)
theory ReplayViewClaims
  imports ReplayView ReportClaims
begin

text \<open>
  The claims about the replay viewer: what its verdict and exit code mean, what decides whether a side is verified at
  all, and that navigation stays in range.
\<close>

section \<open>Samples\<close>

definition legacy_step :: json where
  "legacy_step = JObj [(''step'', JInt 0), (''role'', JStr ''thief''), (''schema_version'', JStr ''sealed-turn/2'')]"

lemma declared_side:
  "\<exists>s. verify_side sample_digest rp declared_dir = Inr s \<and> sd_independently_verified s \<and> sd_ok s"
proof -
  obtain d where d: "log_step sample_sealed = JObj d" "jget d ''schema_version'' JNull = JStr CURRENT_SCHEMA_VERSION"
    by (simp add: log_step_def to_canonical_dict_def sample_sealed_def sample_payload_def Let_def)
  have "peek_schema_version declared_dir = Inr (JStr CURRENT_SCHEMA_VERSION)"
    by (simp add: peek_schema_version_def declared_dir_def small_dir_def glob_def artifact_file_def small_log_def d)
  then show ?thesis by (simp add: verify_side_def declared_dir_verifies)
qed

lemma declared_bundle:
  "load_bundle declared_dir = Inr \<lparr>rb_declaration = Some [(''game_uid'', JStr ''u'')], rb_configs = [small_config],
     rb_logs = [small_log (log_step sample_sealed)], rb_result = Some (small_result ''survival'')\<rparr>"
  by (simp add: load_bundle_def declared_dir_def small_dir_def load_one_def glob_def artifact_file_def load_json_def)

lemma sealed_step_shown: "\<exists>s. replay_step_of (\<lambda>_. []) (log_step sample_sealed) = Inr s"
  by (simp add: replay_step_of_def log_step_def to_canonical_dict_def sample_sealed_def sample_payload_def Let_def at_key_def
      step_position_def unpack_cell_def as_cell_def cell_json_def opt_json_def current_not_legacy)

section \<open>Claims\<close>

text \<open>
  C13. The verdict of the viewer: both sides are shown as verified only when its verifier accepts both directories without a
  finding, and then the exit code is 0. The exit code 2 comes with the verdict TAMPERED and a finding in one of the
  directories. Every other exit with 0 is shown as partial and one side was not verified at all.
\<close>

theorem view_verdict_means:
  assumes "build_replay_view H rp police_dir thief_dir = Inr v"
  shows "(rv_full_bilateral v \<longrightarrow> verify_replay H rp police_dir = Inr [] \<and> verify_replay H rp thief_dir = Inr [] \<and>
      rv_verdict v = ''VERIFIED'' \<and> replay_exit (Inr v) = 0 \<and> verdict_banner v = (BothVerified, [])) \<and>
    (replay_exit (Inr v) = 2 \<longrightarrow> fst (verdict_banner v) = Tampered ''TAMPERED'' \<and>
      (\<exists>f fs. verify_replay H rp thief_dir = Inr (f # fs) \<or> verify_replay H rp police_dir = Inr (f # fs))) \<and>
    (replay_exit (Inr v) = 0 \<and> \<not> rv_full_bilateral v \<longrightarrow>
      fst (verdict_banner v) = Partial (sd_verdict (rv_thief v)) (sd_verdict (rv_police v)) \<and>
      (sd_verdict (rv_thief v) = LEGACY_VERDICT \<or> sd_verdict (rv_police v) = LEGACY_VERDICT))"
proof -
  from view_Inr [OF assms] have p: "verify_side H rp police_dir = Inr (rv_police v)"
    and t: "verify_side H rp thief_dir = Inr (rv_thief v)"
    and full: "rv_full_bilateral v = (sd_independently_verified (rv_police v) \<and> sd_ok (rv_police v) \<and>
      sd_independently_verified (rv_thief v) \<and> sd_ok (rv_thief v))"
    and vd: "rv_verdict v = fst (view_verdict (rv_police v) (rv_thief v) (rv_full_bilateral v))"
      "rv_verification_ok v = snd (view_verdict (rv_police v) (rv_thief v) (rv_full_bilateral v))" by blast+
  note shown = full vd replay_exit_def verdict_banner_def view_verdict_def
  from t show ?thesis
  proof (cases rule: verify_side_cases)
    case legacy
    from p show ?thesis by (cases rule: verify_side_cases) (use legacy in \<open>auto simp: shown\<close>)
  next
    case clean
    from p show ?thesis by (cases rule: verify_side_cases) (use clean in \<open>auto simp: shown\<close>)
  next
    case (tampered f fs)
    from p show ?thesis by (cases rule: verify_side_cases) (use tampered in \<open>auto simp: shown\<close>)
  qed
qed

theorem view_verdict_means_witness:
  "\<exists>v. build_replay_view sample_digest (\<lambda>_. []) declared_dir declared_dir = Inr v \<and> rv_full_bilateral v \<and>
    replay_exit (Inr v) = 0"
proof -
  obtain s where s: "verify_side sample_digest (\<lambda>_. []) declared_dir = Inr s" "sd_independently_verified s" "sd_ok s"
    using declared_side by blast
  obtain x where x: "replay_step_of (\<lambda>_. []) (log_step sample_sealed) = Inr x" using sealed_step_shown by blast
  obtain v where v: "build_replay_view sample_digest (\<lambda>_. []) declared_dir declared_dir = Inr v" "rv_full_bilateral v"
    by (simp add: build_replay_view_def verify_bilateral_def s declared_bundle numbered_logs_def small_log_def dict_or_def
        small_result_def build_sub_game_def at_key_def steps_for_def x Let_def)
  from view_verdict_means [OF v(1)] v show ?thesis by blast
qed

text \<open>
  C38. What decides whether a side is verified at all is the schema of one step: when the first step of the first log of the
  thief names another schema than the current one, nothing else in that directory is checked, and the exit code depends
  on the other side only.
\<close>

theorem one_step_decides_verification:
  assumes "glob ''log_'' thief_dir = (name, Inr (JObj d)) # others" and "jget d ''steps'' JNull = JList (JObj s # steps)"
    and "jget s ''schema_version'' JNull = JStr x" and "x \<noteq> CURRENT_SCHEMA_VERSION"
    and "build_replay_view H rp police_dir thief_dir = Inr v"
  shows "sd_verdict (rv_thief v) = LEGACY_VERDICT \<and> sd_findings (rv_thief v) = [] \<and>
    replay_exit (Inr v) = (if sd_ok (rv_police v) then 0 else 2)"
proof -
  have "verify_side H rp thief_dir = Inr \<lparr>sd_verdict = LEGACY_VERDICT, sd_ok = True, sd_findings = [],
      sd_independently_verified = False, sd_schema_version = JStr x\<rparr>"
    using assms(1-4) by (simp add: verify_side_def peek_schema_version_def)
  with view_Inr [OF assms(5)] have t: "rv_thief v = \<lparr>sd_verdict = LEGACY_VERDICT, sd_ok = True, sd_findings = [],
      sd_independently_verified = False, sd_schema_version = JStr x\<rparr>"
    and p: "verify_side H rp police_dir = Inr (rv_police v)"
    and "rv_verification_ok v = snd (view_verdict (rv_police v) (rv_thief v) (rv_full_bilateral v))"
    and full: "rv_full_bilateral v = (sd_independently_verified (rv_police v) \<and> sd_ok (rv_police v) \<and>
      sd_independently_verified (rv_thief v) \<and> sd_ok (rv_thief v))" by auto
  then have "rv_full_bilateral v = False" by simp
  note v = this t \<open>rv_verification_ok v = _\<close>
  from p show ?thesis by (cases rule: verify_side_cases) (use v in \<open>auto simp: replay_exit_def view_verdict_def\<close>)
qed

theorem one_step_decides_verification_witness:
  "\<exists>v. build_replay_view sample_digest (\<lambda>_. []) declared_dir (small_dir legacy_step ''victory'') = Inr v \<and>
    replay_exit (Inr v) = 0"
proof -
  let ?t = "small_dir legacy_step ''victory''"
  obtain s where s: "verify_side sample_digest (\<lambda>_. []) declared_dir = Inr s" "sd_independently_verified s" "sd_ok s"
    using declared_side by blast
  obtain x where x: "replay_step_of (\<lambda>_. []) (log_step sample_sealed) = Inr x" using sealed_step_shown by blast
  obtain y where y: "replay_step_of (\<lambda>_. []) legacy_step = Inr y"
    by (simp add: replay_step_of_def legacy_step_def at_key_def step_position_def as_cell_def)
  have log: "glob ''log_'' ?t = [(''log_g.json'', Inr (JObj (small_log legacy_step)))]"
    by (simp add: glob_def small_dir_def artifact_file_def)
  have st: "jget (small_log legacy_step) ''steps'' JNull = JList [legacy_step]" by (simp add: small_log_def)
  obtain t where t: "verify_side sample_digest (\<lambda>_. []) ?t = Inr t"
    by (simp add: verify_side_def peek_schema_version_def log st)
      (simp add: legacy_step_def CURRENT_SCHEMA_VERSION_def)
  obtain v where v: "build_replay_view sample_digest (\<lambda>_. []) declared_dir ?t = Inr v" "rv_police v = s"
    by (simp add: build_replay_view_def verify_bilateral_def s t declared_bundle load_small_dir numbered_logs_def small_log_def
        dict_or_def small_result_def build_sub_game_def at_key_def steps_for_def x y Let_def)
  have "replay_exit (Inr v) = (if sd_ok (rv_police v) then 0 else 2)"
    using one_step_decides_verification [OF log _ _ _ v(1)] st
    by (simp add: legacy_step_def CURRENT_SCHEMA_VERSION_def)
  with v s show ?thesis by auto
qed

text \<open>
  Navigation never leaves the recording: whatever buttons are pressed and however the timers fall, the sub-game that is shown
  exists, the step lies between 0 and its last one, and the speed is one of the four.
\<close>

lemma playback_in_range:
  "let p = foldl (playback_step totals) new_playback controls in
     pl_sub_game_index p < max 1 (length totals) \<and> 0 \<le> pl_step p \<and> pl_step p \<le> max_step totals p \<and>
     speed_ms p \<in> {1500, 800, 400, 150}"
proof -
  let ?p = "foldl (playback_step totals) new_playback controls"
  have "playback_ok totals ?p" by (rule pb.run_inv [OF new_playback_ok])
  then show ?thesis
    by (auto simp: playback_ok_def Let_def speed_ms_def SPEEDS_MS_def less_Suc_eq numeral_eq_Suc)
qed

text \<open>Pausing does not cancel the timer: play, pause and play again leave two of them, and the playback runs twice as fast.\<close>

lemma two_timers_after_pause:
  assumes "\<not> pl_playing p" and "pl_step p + 2 \<le> max_step totals p"
  shows "length (snd (app_toggle_play totals (app_toggle_play totals (app_toggle_play totals (p, []))))) = 2"
  using assms by (simp add: app_toggle_play_def app_tick_def advance_if_playing_def Let_def)

end
