(* ===== verification/LiveGui.thy ===== *)
theory LiveGui
  imports GuiModel Program
begin

text \<open>
  The live window (\<^verbatim>\<open>gui/tk_board.py\<close>, \<^verbatim>\<open>tk_panels.py\<close>, \<^verbatim>\<open>tk_app.py\<close>), the thread that runs the
  game beside it (\<^verbatim>\<open>gui/background_runner.py\<close>) and the command that joins them (\<^verbatim>\<open>sdk/gui_runner.py\<close>,
  \<^verbatim>\<open>cli_batch4a.peer\<close>). A canvas is what is drawn on it, a label its text; Tk calls the timers.
\<close>

section \<open>The board\<close>

text \<open>A rectangle with its fill and outline; a disc by its centre and radius.\<close>

datatype canvas_item =
    Rect int int int int string string
  | Disc real real int string

definition CELL :: int where
  "CELL = 44"

definition cell_rect :: "int \<Rightarrow> int \<Rightarrow> string \<Rightarrow> string \<Rightarrow> canvas_item" where
  "cell_rect r c fill_color outline_color = Rect (c * CELL) (r * CELL) ((c + 1) * CELL) ((r + 1) * CELL) fill_color outline_color"

definition cell_dot :: "int \<times> int \<Rightarrow> string \<Rightarrow> int \<Rightarrow> canvas_item" where
  "cell_dot p color radius =
     (case p of (r, c) \<Rightarrow> Disc (of_int (c * CELL) + of_int CELL / 2) (of_int (r * CELL) + of_int CELL / 2) radius color)"

definition grid_lines :: "int \<Rightarrow> canvas_item list" where
  "grid_lines n = [cell_rect r c [] ''#ccc''. r \<leftarrow> [0..n - 1], c \<leftarrow> [0..n - 1]]"

text \<open>The board keeps its size from the last belief it saw. The barriers are drawn in an unspecified order.\<close>

record board_drawing =
  bd_grid_size :: int
  bd_lines :: "canvas_item list"
  bd_barriers :: "canvas_item set"
  bd_dots :: "canvas_item list"

definition render_board :: "int \<Rightarrow> view_model \<Rightarrow> board_drawing" where
  "render_board grid_size_before m =
     (let n = (case vm_belief m of Some b \<Rightarrow> bs_grid_size b | None \<Rightarrow> grid_size_before)
      in \<lparr>bd_grid_size = n, bd_lines = grid_lines n,
          bd_barriers = (\<lambda>(r, c). cell_rect r c ''#333333'' ''#ccc'') ` public_barriers m,
          bd_dots = map (\<lambda>p. cell_dot p ''#f1a9a0'' 5) (butlast (own_path m)) @
            (case own_position m of None \<Rightarrow> [] | Some p \<Rightarrow> [cell_dot p ''#c0392b'' 12])\<rparr>)"

section \<open>The heat map\<close>

fun hex_of_nat :: "nat \<Rightarrow> string" where
  "hex_of_nat n = (if n < 16 then [hex_digit n] else hex_of_nat (n div 16) @ [hex_digit n])"

declare hex_of_nat.simps [simp del]

text \<open>The format \<^verbatim>\<open>02x\<close>, with the sign inside the width.\<close>

definition hex02 :: "int \<Rightarrow> string" where
  "hex02 i =
     (if i < 0 then ''-'' @ hex_of_nat (nat (- i))
      else let s = hex_of_nat (nat i) in replicate (2 - length s) (CHR ''0'') @ s)"

text \<open>\<^verbatim>\<open>int\<close> cuts towards zero.\<close>

definition truncated :: "real \<Rightarrow> int" where
  "truncated x = (if 0 \<le> x then \<lfloor>x\<rfloor> else \<lceil>x\<rceil>)"

definition shade_level :: "real \<Rightarrow> int \<Rightarrow> int" where
  "shade_level prob n =
     (let uniform = 1 / of_int (n * n);
          intensity = (if 0 < uniform then min 1 (prob / (uniform * 6)) else 0)
      in 255 - truncated (intensity * 200))"

definition shade :: "real \<Rightarrow> int \<Rightarrow> string" where
  "shade prob n = ''#ff'' @ hex02 (shade_level prob n) @ hex02 (shade_level prob n)"

text \<open>Nothing is drawn before the first belief. A board of size 0 has no rows to shade.\<close>

definition render_heatmap :: "view_model \<Rightarrow> canvas_item list option" where
  "render_heatmap m =
     (case vm_belief m of
        None \<Rightarrow> None
      | Some b \<Rightarrow>
          let top = map (\<lambda>(r, c, _). (r, c)) (bs_top_k b) in
          Some (concat (map (\<lambda>(r, cells).
            map (\<lambda>(c, prob). cell_rect (int r) (int c) (shade prob (bs_grid_size b))
                   (if (int r, int c) \<in> set top then ''#e0a500'' else ''#ccc''))
              (List.enumerate 0 cells)) (List.enumerate 0 (bs_heatmap b)))))"

section \<open>The panels\<close>

definition RESULT_TEXT :: "(string \<times> string) list" where
  "RESULT_TEXT =
     [(''capture'', ''SUB-GAME OVER: CAPTURE''),
      (''survival'', ''SUB-GAME OVER: SURVIVAL''),
      (''technical_loss'', ''SUB-GAME OVER: TECHNICAL LOSS''),
      (''disconnected'', ''OPPONENT DISCONNECTED''),
      (''timeout'', ''RESPONSE TIMEOUT'')]"

definition banner_text :: "view_model \<Rightarrow> string" where
  "banner_text m = (case map_of RESULT_TEXT (banner m) of None \<Rightarrow> [] | Some t \<Rightarrow> t)"

definition yes_no :: "bool \<Rightarrow> string" where
  "yes_no b = (if b then ''True'' else ''False'')"

text \<open>\<open>fixed k x\<close> renders \<open>x\<close> with \<open>k\<close> decimals.\<close>

definition status_panel :: "(nat \<Rightarrow> real \<Rightarrow> string) \<Rightarrow> view_model \<Rightarrow> (string \<times> string) list" where
  "status_panel fixed m =
     [(''connection_status'', connection_status m),
      (''sub_game_number'', str_of_int (vm_sub_game_number m)),
      (''step'', str_of_int (vm_step m)),
      (''state_machine_state'', state_machine_state m),
      (''strategy_class'', vm_strategy_class m),
      (''config_sha256_prefix'', config_sha256_prefix m),
      (''decision_latency_seconds'', case vm_decision_latency m of None \<Rightarrow> ''-'' | Some x \<Rightarrow> fixed 4 x),
      (''belief_entropy_bits'', case vm_belief m of None \<Rightarrow> ''-'' | Some b \<Rightarrow> fixed 3 (bs_entropy_bits b)),
      (''last_message_type'', last_message_type m),
      (''commit_sent'', yes_no (vm_commit_sent m)),
      (''ack_received'', yes_no (vm_ack_received m)),
      (''reveal_sent'', yes_no (vm_reveal_sent m)),
      (''reveal_received'', yes_no (vm_reveal_received m))]"

text \<open>The list of events: what it lists, and how many lines of the log it has taken over.\<close>

type_synonym event_panel = "string list \<times> nat"

definition render_events :: "event_panel \<Rightarrow> view_model \<Rightarrow> event_panel" where
  "render_events panel m =
     (case panel of (listed, shown) \<Rightarrow> (listed @ drop shown (event_log m), length (event_log m)))"

section \<open>The window\<close>

record live_app =
  la_model :: view_model
  la_bus :: event_bus
  la_panel :: event_panel
  la_closed :: bool
  la_on_close_calls :: nat
  la_auto_close :: bool

definition new_live_app :: live_app where
  "new_live_app =
     \<lparr>la_model = new_view_model, la_bus = [], la_panel = ([], 0), la_closed = False, la_on_close_calls = 0,
      la_auto_close = False\<rparr>"

definition window_close :: "live_app \<Rightarrow> live_app" where
  "window_close a =
     (if la_closed a then a else a\<lparr>la_closed := True, la_on_close_calls := la_on_close_calls a + 1\<rparr>)"

text \<open>A poll drains the queue, folds and renders; it plans the close once the game is over.\<close>

definition window_poll :: "bool \<Rightarrow> live_app \<Rightarrow> live_app" where
  "window_poll finished a =
     (case bus_drain DRAIN_MAX (la_bus a) of
        (bus, events) \<Rightarrow>
          let m = foldl fold_event (la_model a) events;
              a' = a\<lparr>la_model := m, la_bus := bus, la_panel := render_events (la_panel a) m\<rparr>
          in if la_closed a then a' else if finished then a'\<lparr>la_auto_close := True\<rparr> else a')"

text \<open>
  The game thread publishes, until the close clears the sink; the button, the signal and the planned timer all close.
\<close>

datatype window_event = Published gui_event | Poll bool | Close

primrec window_step :: "live_app \<Rightarrow> window_event \<Rightarrow> live_app" where
  "window_step a (Published e) = (if la_closed a then a else a\<lparr>la_bus := bus_publish e (la_bus a)\<rparr>)"
| "window_step a (Poll finished) = window_poll finished a"
| "window_step a Close = window_close a"

section \<open>The game in the background\<close>

text \<open>
  What the thread has when the window is gone and the bounded wait is over: nothing yet, or the outcome of the program. A
  cancelled game leaves neither a result nor an error.
\<close>

datatype background = StillRunning | Ran "jobj res"

definition bg_result :: "background \<Rightarrow> jobj option" where
  "bg_result bg = (case bg of Ran (Inr summary) \<Rightarrow> Some summary | _ \<Rightarrow> None)"

definition bg_error :: "background \<Rightarrow> py_exc option" where
  "bg_error bg = (case bg of Ran (Inl CancelledError) \<Rightarrow> None | Ran (Inl e) \<Rightarrow> Some e | _ \<Rightarrow> None)"

definition gui_exit :: "background \<Rightarrow> int" where
  "gui_exit bg =
     (case bg_result bg of
        Some summary \<Rightarrow> summary_exit_code summary
      | None \<Rightarrow> (case bg_error bg of Some _ \<Rightarrow> 1 | None \<Rightarrow> 1))"

text \<open>
  The command \<^verbatim>\<open>peer\<close>: without the window it is \<^verbatim>\<open>run-series\<close>. \<open>waited\<close> says whether the game had ended when the
  bounded wait was over.
\<close>

definition peer_command ::
    "(string \<times> string) list \<Rightarrow> bool \<Rightarrow> bool \<Rightarrow> bool \<Rightarrow> (string option \<Rightarrow> string option \<Rightarrow> program_end option)
       \<Rightarrow> int option" where
  "peer_command env gui public waited program =
     (if \<not> gui then map_option fst (run_command env public program)
      else case resolve_public_tokens env public of
          Inl _ \<Rightarrow> Some 2
        | Inr (public_token, opponent_token) \<Rightarrow>
            if \<not> waited then Some (gui_exit StillRunning)
            else map_option (\<lambda>pe. gui_exit (Ran (pe_summary pe))) (program public_token opponent_token))"

section \<open>Lemmas\<close>

lemma gui_exit_process: "gui_exit (Ran r) = process_exit r"
  by (simp add: gui_exit_def bg_result_def bg_error_def process_exit_def split: sum.splits option.splits)

lemma peer_like_series:
  "peer_command env True public True program = peer_command env False public True program"
  by (auto simp: peer_command_def run_command_def gui_exit_process option.map_comp comp_def split: sum.splits)

definition window_ok :: "live_app \<Rightarrow> bool" where
  "window_ok a \<longleftrightarrow>
     la_on_close_calls a = (if la_closed a then 1 else 0) \<and> length (event_log (la_model a)) \<le> LOG_LIMIT \<and>
     snd (la_panel a) = length (event_log (la_model a))"

lemma fold_events_log_bounded:
  "length (event_log m) \<le> LOG_LIMIT \<Longrightarrow> length (event_log (foldl fold_event m es)) \<le> LOG_LIMIT"
  by (rule view.run_inv)

lemma window_ok_step: "window_ok a \<Longrightarrow> window_ok (window_step a e)"
  by (cases e)
    (auto simp: window_ok_def window_poll_def window_close_def render_events_def Let_def fold_events_log_bounded
      split: prod.splits)

interpretation win: component window_step window_ok
  by unfold_locales (rule window_ok_step)

lemma new_live_app_ok: "window_ok new_live_app"
  by (simp add: window_ok_def new_live_app_def new_view_model_def)

section \<open>The colours of the heat map\<close>

lemma shade_level_range:
  assumes "0 \<le> prob" and "0 < n"
  shows "55 \<le> shade_level prob n \<and> shade_level prob n \<le> 255"
proof -
  let ?u = "1 / of_int (n * n) :: real"
  let ?x = "min 1 (prob / (?u * 6)) * 200"
  have u: "0 < ?u" using assms(2) by simp
  with assms have "0 \<le> ?x" "?x \<le> 200" by (auto simp: min_def)
  then have "0 \<le> truncated ?x" "truncated ?x \<le> 200" unfolding truncated_def by (simp_all add: floor_le_iff)
  with u show ?thesis by (simp add: shade_level_def)
qed

lemma hex02_two: "0 \<le> i \<Longrightarrow> i < 256 \<Longrightarrow> hex02 i = [hex_digit (nat i div 16), hex_digit (nat i)]"
  by (auto simp: hex02_def Let_def hex_of_nat.simps [of "nat i"] hex_of_nat.simps [of "nat i div 16"] hex_digit_def)

text \<open>Every shade of a probability is a colour of six digits.\<close>

lemma shade_is_colour:
  assumes "0 \<le> prob" and "0 < n"
  shows "length (shade prob n) = 7"
  using shade_level_range [OF assms] by (simp add: shade_def hex02_two)

section \<open>What the panel of events shows\<close>

lemma fold_event_log_grows:
  "length (event_log m) \<le> LOG_LIMIT \<Longrightarrow> length (event_log m) \<le> length (event_log (fold_event m e))"
  using fold_one_log [of m e] by (auto simp: fold_event_def appended_log_def Let_def)

lemma fold_events_log_full:
  "length (event_log m) = LOG_LIMIT \<Longrightarrow> length (event_log (foldl fold_event m es)) = LOG_LIMIT"
proof (induction es arbitrary: m)
  case (Cons e es)
  from Cons.prems have "length (event_log (fold_event m e)) = LOG_LIMIT"
    using fold_event_log_grows [of m e] fold_events_log_bounded [of m "[e]"] by simp
  then show ?case using Cons.IH by simp
qed simp

text \<open>Once as many lines are shown as the log may hold, the panel never changes again.\<close>

lemma full_panel_step:
  assumes "window_ok a" and "snd (la_panel a) = LOG_LIMIT"
  shows "snd (la_panel (window_step a e)) = LOG_LIMIT \<and> fst (la_panel (window_step a e)) = fst (la_panel a)"
  using assms
  by (cases e)
    (auto simp: window_ok_def window_poll_def window_close_def render_events_def Let_def fold_events_log_full
      split: prod.splits)

lemma full_panel_frozen:
  assumes "window_ok a" and "snd (la_panel a) = LOG_LIMIT"
  shows "fst (la_panel (foldl window_step a es)) = fst (la_panel a)"
  using assms
proof (induction es arbitrary: a)
  case (Cons e es)
  with full_panel_step [OF Cons.prems] window_ok_step [OF Cons.prems(1)] show ?case by simp
qed simp

lemma on_close_once:
  "la_on_close_calls (foldl window_step new_live_app es) =
     (if la_closed (foldl window_step new_live_app es) then 1 else 0)"
  using win.run_inv [OF new_live_app_ok, of es] by (simp add: window_ok_def)

section \<open>A long game\<close>

definition state_events :: "nat \<Rightarrow> gui_event list" where
  "state_events n = map (\<lambda>i. StateMachineEvent [] (int i)) [0..<n]"

lemma state_events_logged:
  "n \<le> LOG_LIMIT \<Longrightarrow> length (event_log (foldl fold_event new_view_model (state_events n))) = n \<and>
     last_event_key (foldl fold_event new_view_model (state_events n)) =
       (if n = 0 then None else Some (WholeEvent (StateMachineEvent [] (int n - 1))))"
  by (induction n) (auto simp: state_events_def new_view_model_def fold_event_def appended_log_def Let_def)

lemma published_queue:
  "\<not> la_closed a \<Longrightarrow> foldl window_step a (map Published es) = a\<lparr>la_bus := la_bus a @ es\<rparr>"
  by (induction es arbitrary: a) (auto simp: bus_publish_def)

lemma drain_all: "length bus \<le> n \<Longrightarrow> bus_drain n bus = ([], bus)"
  by (induction n bus rule: bus_drain.induct) auto

section \<open>Claims\<close>

text \<open>
  C39. The panel of events stops for good when it is full: as soon as it has taken over as many lines as the log of the view
  can hold, it lists no later event, whatever the game publishes and however often the window polls.
\<close>

theorem event_panel_freezes:
  assumes "snd (la_panel (foldl window_step new_live_app events)) = LOG_LIMIT"
  shows "fst (la_panel (foldl window_step new_live_app (events @ later))) =
    fst (la_panel (foldl window_step new_live_app events))"
  using full_panel_frozen [OF win.run_inv [OF new_live_app_ok] assms] by simp

theorem event_panel_freezes_witness:
  "length (fst (la_panel (foldl window_step new_live_app (map Published (state_events 200) @ [Poll False] @
     [Published (AuditEvent 1 ''forfeit'' []), Poll True])))) \<le> 200"
proof -
  let ?es = "map Published (state_events 200) @ [Poll False]"
  have log: "length (event_log (foldl fold_event new_view_model (state_events 200))) = LOG_LIMIT"
    using state_events_logged [of 200] by (simp add: LOG_LIMIT_def)
  have drain: "bus_drain DRAIN_MAX (state_events 200) = ([], state_events 200)"
    by (rule drain_all) (simp add: DRAIN_MAX_def state_events_def)
  have start: "\<not> la_closed new_live_app" "la_bus new_live_app = []" "la_model new_live_app = new_view_model"
    "la_panel new_live_app = ([], 0)" by (simp_all add: new_live_app_def)
  have "la_panel (foldl window_step new_live_app ?es) =
      (event_log (foldl fold_event new_view_model (state_events 200)), LOG_LIMIT)"
    by (simp add: published_queue start window_poll_def drain render_events_def Let_def log)
  with event_panel_freezes [of ?es "[Published (AuditEvent 1 ''forfeit'' []), Poll True]"] log
  show ?thesis by (simp add: LOG_LIMIT_def)
qed

end
