(* ===== verification/Negotiation.thy ===== *)
theory Negotiation
  imports Program "HOL-Library.AList"
begin

text \<open>
  The negotiation smoke test: the small server (\<^verbatim>\<open>infrastructure/mcp_server.py\<close>) that takes the opponent's declaration
  and compares configuration hashes, and the run that talks to the opponent's (\<^verbatim>\<open>sdk/negotiation_runner.py\<close>).
\<close>

section \<open>The server\<close>

text \<open>The dict of messages seen is keyed by the correlation id, any hashable value, for both tools.\<close>

record peer_inbox =
  pi_declarations :: "jobj list"
  pi_proposals :: "jobj list"
  pi_seen :: pydict

definition new_peer_inbox :: peer_inbox where
  "new_peer_inbox = \<lparr>pi_declarations = [], pi_proposals = [], pi_seen = []\<rparr>"

definition seen_before :: "pydict \<Rightarrow> json \<Rightarrow> json option" where
  "seen_before seen cid = map_option snd (List.find (\<lambda>(k, _). json_eq k cid) seen)"

definition record_or_check_conflict :: "json \<Rightarrow> jobj \<Rightarrow> (peer_inbox, bool) eff" where
  "record_or_check_conflict cid message b =
     (if \<not> hashable cid then (b, Inl TypeError)
      else case seen_before (pi_seen b) cid of
          Some previous \<Rightarrow>
            (if \<not> json_eq previous (JObj message) then (b, Inr False)
             else (b\<lparr>pi_seen := dict_put (pi_seen b) (cid, JObj message)\<rparr>, Inr True))
        | None \<Rightarrow> (b\<lparr>pi_seen := dict_put (pi_seen b) (cid, JObj message)\<rparr>, Inr True))"

text \<open>The part the two tools share: an empty id is never a conflict.\<close>

definition checked_id :: "jobj \<Rightarrow> (peer_inbox, bool) eff" where
  "checked_id message =
     ebind (elift (obj_or_raise (jget message ''envelope'' (JObj [])))) (\<lambda>envelope.
       let cid = jget envelope ''correlation_id'' (JStr []) in
       if truthy cid then record_or_check_conflict cid message else eret True)"

definition health :: "role \<Rightarrow> jobj" where
  "health r = [(''status'', JStr ''ok''), (''role'', JStr (role_value r))]"

definition negotiate :: "jobj \<Rightarrow> (peer_inbox, jobj) eff" where
  "negotiate message =
     (if \<not> jhas message ''group_id'' \<or> \<not> jhas message ''envelope''
      then eret [(''ok'', JBool False), (''error_code'', JStr ''MALFORMED''),
                 (''reason'', JStr ''missing group_id/envelope'')]
      else ebind (checked_id message) (\<lambda>fresh.
        if \<not> fresh then eret [(''ok'', JBool False), (''error_code'', JStr ''CONFLICTING_DUPLICATE'')]
        else ebind (emodify (\<lambda>b. b\<lparr>pi_declarations := pi_declarations b @ [message]\<rparr>)) (\<lambda>_.
          eret [(''ok'', JBool True)])))"

definition refused :: "string \<Rightarrow> jobj" where
  "refused why = [(''accepted'', JBool False), (''config_sha256_match'', JBool False), (''reason'', JStr why)]"

definition propose_config :: "string \<Rightarrow> jobj \<Rightarrow> (peer_inbox, jobj) eff" where
  "propose_config own_config_sha256 message =
     (if \<not> jhas message ''config_sha256'' \<or> \<not> jhas message ''envelope''
      then eret (refused ''malformed message: missing config_sha256/envelope'')
      else ebind (checked_id message) (\<lambda>fresh.
        if \<not> fresh then eret (refused ''conflicting duplicate for this correlation_id'')
        else ebind (emodify (\<lambda>b. b\<lparr>pi_proposals := pi_proposals b @ [message]\<rparr>)) (\<lambda>_.
          let same = json_eq (jget message ''config_sha256'' JNull) (JStr own_config_sha256) in
          eret [(''accepted'', JBool same), (''config_sha256_match'', JBool same),
                (''reason'', if same then JNull else JStr ''config_sha256 mismatch'')])))"

section \<open>The run\<close>

text \<open>
  What the outside answers: the start of the server, the health polls, the two calls, what stands in the own inbox at the end,
  the waits of the stop and the two clock readings.
\<close>

record smoke_env =
  sm_started :: "nat \<Rightarrow> bool"
  sm_ended :: "nat \<Rightarrow> unit res option"
  sm_health :: "nat \<Rightarrow> json res"
  sm_negotiate :: "jobj \<Rightarrow> json res"
  sm_propose :: "jobj \<Rightarrow> json res"
  sm_inbox :: peer_inbox
  sm_graceful :: "unit res option"
  sm_forced :: "unit res option"
  sm_final :: "unit res"
  sm_started_at :: string
  sm_ended_at :: string

definition declare_message :: "(json \<Rightarrow> string) \<Rightarrow> private_config \<Rightarrow> jobj" where
  "declare_message rp private =
     (let game = pv_game private in
      [(''envelope'', JObj [(''correlation_id'', JStr (py_str rp (gi_group_id game) @ ''-declare''))]),
       (''group_id'', gi_group_id game),
       (''group_name'', gi_group_name game),
       (''mcp_url'', JStr (''http://127.0.0.1:'' @ str_of_int (np_my_port (pv_network private)) @ ''/mcp''))])"

definition proposal_message :: "(json \<Rightarrow> string) \<Rightarrow> private_config \<Rightarrow> string \<Rightarrow> jobj" where
  "proposal_message rp private own_config_sha256 =
     [(''envelope'', JObj [(''correlation_id'', JStr (py_str rp (gi_group_id (pv_game private)) @ ''-config''))]),
      (''config_sha256'', JStr own_config_sha256)]"

text \<open>The body of the \<^verbatim>\<open>try\<close>: it fills the summary as far as it gets.\<close>

definition eset :: "string \<Rightarrow> json \<Rightarrow> (jobj, unit) eff" where
  "eset k v = emodify (AList.update k v)"

definition smoke_talk ::
    "(json \<Rightarrow> string) \<Rightarrow> smoke_env \<Rightarrow> shared_config \<Rightarrow> private_config \<Rightarrow> string \<Rightarrow> nat \<Rightarrow> (jobj, unit) eff" where
  "smoke_talk rp env shared private own_config_sha256 attempts =
     ebind (elift (snd (wait_for_health (py_str rp (np_opponent_url (pv_network private))) (sm_health env) attempts))) (\<lambda>_.
     ebind (eset ''opponent_health'' (JStr ''ok'')) (\<lambda>_.
     ebind (elift (sm_negotiate env (declare_message rp private))) (\<lambda>reply.
     ebind (eset ''negotiate_result'' reply) (\<lambda>_.
     ebind (elift (sm_propose env (proposal_message rp private own_config_sha256))) (\<lambda>ack.
     ebind (eset ''config_ack'' ack) (\<lambda>_.
     ebind (eset ''shared_config_num_games'' (attr (sc_network shared) ''num_games'')) (\<lambda>_.
     ebind (elift (obj_or_raise ack)) (\<lambda>d.
       eset ''outcome'' (JStr (if truthy (jget d ''accepted'' JNull) then ''negotiated'' else ''config_mismatch''))))))))))"

definition smoke_body ::
    "(json \<Rightarrow> string) \<Rightarrow> smoke_env \<Rightarrow> shared_config \<Rightarrow> private_config \<Rightarrow> string \<Rightarrow> nat \<Rightarrow> (jobj, unit) eff" where
  "smoke_body rp env shared private own_config_sha256 attempts summary =
     (case smoke_talk rp env shared private own_config_sha256 attempts summary of
        (s, Inl (PeerUnavailableError why)) \<Rightarrow>
          ebind (eset ''opponent_health'' (JStr ''unavailable'')) (\<lambda>_.
          ebind (eset ''outcome'' (JStr ''opponent_unavailable'')) (\<lambda>_. eset ''error'' (JStr why))) s
      | sr \<Rightarrow> sr)"

fun outcome_value :: "shutdown_outcome \<Rightarrow> string" where
  "outcome_value GRACEFUL = ''graceful''"
| "outcome_value FORCED = ''forced''"
| "outcome_value CANCELLED = ''cancelled''"
| "outcome_value ALREADY_STOPPED = ''already_stopped''"

text \<open>The run, none when the server's start never returns. The last part is the \<^verbatim>\<open>finally\<close>.\<close>

definition run_negotiation_smoke ::
    "(json \<Rightarrow> string) \<Rightarrow> role \<Rightarrow> config_files \<Rightarrow> smoke_env \<Rightarrow> (managed_server option \<times> jobj res) option" where
  "run_negotiation_smoke rp r files env =
     (case rbind (rbind (file_or_raise (cf_shared files)) load_shared_config) (\<lambda>shared.
           rbind (load_private_config rp (cf_private files)) (\<lambda>private.
           rbind (managed_server_init ''127.0.0.1'' (np_my_port (pv_network private))) (\<lambda>sv.
             Inr (shared, private, sv)))) of
        Inl e \<Rightarrow> Some (None, Inl e)
      | Inr (shared, private, sv) \<Rightarrow>
          (case start_server (sm_started env) (sm_ended env) sv of
             None \<Rightarrow> None
           | Some (sv', Inl e) \<Rightarrow> Some (Some sv', Inl e)
           | Some (sv', Inr _) \<Rightarrow>
               (case smoke_body rp env shared private (cf_sha256 files) 15
                    [(''role'', JStr (role_value r)),
                     (''my_port'', JInt (np_my_port (pv_network private))),
                     (''opponent_url'', np_opponent_url (pv_network private)),
                     (''own_config_sha256'', JStr (cf_sha256 files)),
                     (''group_id'', gi_group_id (pv_game private)),
                     (''started_at'', JStr (sm_started_at env))] of
                  (summary, talked) \<Rightarrow>
                    (case stop_server (sm_graceful env) (sm_forced env) (sm_final env) sv' of
                       (sv'', Inl e) \<Rightarrow> Some (Some sv'', Inl e)
                     | (sv'', Inr shutdown) \<Rightarrow>
                         Some (Some sv'', rbind talked (\<lambda>_. Inr
                           (AList.update ''ended_at'' (JStr (sm_ended_at env))
                           (AList.update ''shutdown_outcome'' (JStr (outcome_value (sd_outcome shutdown)))
                           (AList.update ''received_proposals'' (JInt (int (length (pi_proposals (sm_inbox env)))))
                           (AList.update ''received_declarations'' (JInt (int (length (pi_declarations (sm_inbox env)))))
                             summary))))))))))"

text \<open>The exit code of \<^verbatim>\<open>negotiate-smoke\<close>.\<close>

definition smoke_exit :: "jobj res \<Rightarrow> int" where
  "smoke_exit r =
     (case r of Inl _ \<Rightarrow> 1 | Inr summary \<Rightarrow> if jget summary ''outcome'' JNull = JStr ''negotiated'' then 0 else 1)"

section \<open>The server against the run\<close>

text \<open>How a tool answers a caller: an exception of the tool reaches the caller as a rejected call.\<close>

definition tool_reply :: "string \<Rightarrow> (peer_inbox, jobj) eff \<Rightarrow> peer_inbox \<Rightarrow> json res" where
  "tool_reply url f b =
     (case snd (f b) of Inr d \<Rightarrow> Inr (JObj d) | Inl _ \<Rightarrow> Inl (PeerUnavailableError (''peer at '' @ url @ '' rejected the call'')))"

lemma jget_update [simp]: "jget (AList.update k v d) k' x = (if k = k' then v else jget d k' x)"
  by (simp add: jget_def update_conv')

text \<open>An unknown id is recorded.\<close>

lemma checked_fresh:
  assumes "jget message ''envelope'' (JObj []) = JObj env" and "jget env ''correlation_id'' (JStr []) = JStr cid"
    and "seen_before (pi_seen b) (JStr cid) = None"
  shows "\<exists>seen. checked_id message b = (b\<lparr>pi_seen := seen\<rparr>, Inr True)"
proof (cases cid)
  case Nil
  then have "checked_id message b = (b\<lparr>pi_seen := pi_seen b\<rparr>, Inr True)"
    using assms by (simp add: checked_id_def eff_defs)
  then show ?thesis by blast
qed (use assms in \<open>auto simp: checked_id_def eff_defs record_or_check_conflict_def\<close>)

text \<open>A conflicting message changes nothing, an identical one is accepted again.\<close>

lemma checked_again:
  assumes "jget message ''envelope'' (JObj []) = JObj env" and "jget env ''correlation_id'' (JStr []) = JStr cid"
    and "cid \<noteq> []" and "seen_before (pi_seen b) (JStr cid) = Some previous"
  shows "snd (checked_id message b) = Inr (json_eq previous (JObj message)) \<and>
    (\<not> json_eq previous (JObj message) \<longrightarrow> fst (checked_id message b) = b)"
  using assms by (simp add: checked_id_def eff_defs record_or_check_conflict_def)

end
