(* ===== verification/NegotiationClaims.thy ===== *)
theory NegotiationClaims
  imports Negotiation ProgramClaims
begin

text \<open>The claim about the negotiation smoke test: run against the opponent's server, it compares the two configurations.\<close>

section \<open>The two calls\<close>

lemma declare_accepted:
  assumes "seen_before (pi_seen b) (JStr (py_str rp (gi_group_id (pv_game private)) @ ''-declare'')) = None"
  shows "tool_reply url (negotiate (declare_message rp private)) b = Inr (JObj [(''ok'', JBool True)])"
proof -
  from assms obtain seen where "checked_id (declare_message rp private) b = (b\<lparr>pi_seen := seen\<rparr>, Inr True)"
    using checked_fresh [of "declare_message rp private"] by (fastforce simp: declare_message_def Let_def)
  moreover have "jhas (declare_message rp private) ''group_id''" "jhas (declare_message rp private) ''envelope''"
    by (simp_all add: declare_message_def Let_def)
  ultimately show ?thesis by (simp add: tool_reply_def negotiate_def eff_defs)
qed

lemma proposal_compared:
  assumes "seen_before (pi_seen b) (JStr (py_str rp (gi_group_id (pv_game private)) @ ''-config'')) = None"
  shows "\<exists>d. tool_reply url (propose_config theirs (proposal_message rp private ours)) b = Inr (JObj d) \<and>
    jget d ''accepted'' JNull = JBool (ours = theirs)"
proof -
  from assms obtain seen where "checked_id (proposal_message rp private ours) b = (b\<lparr>pi_seen := seen\<rparr>, Inr True)"
    using checked_fresh [of "proposal_message rp private ours"] by (fastforce simp: proposal_message_def)
  moreover have "jhas (proposal_message rp private ours) ''config_sha256''" "jhas (proposal_message rp private ours) ''envelope''"
    "jget (proposal_message rp private ours) ''config_sha256'' JNull = JStr ours"
    by (simp_all add: proposal_message_def)
  ultimately show ?thesis by (simp add: tool_reply_def propose_config_def eff_defs Let_def)
qed

section \<open>Claims\<close>

text \<open>
  C14. The smoke test compares configurations: run against the opponent's server, which has not seen its two correlation ids, it
  ends with its declaration accepted and with 0 exactly when both shared configurations have one hash, and its own
  server has stopped.
\<close>

theorem negotiated_iff_same_config:
  assumes "rbind (file_or_raise (cf_shared files)) load_shared_config = Inr shared"
    and "load_private_config rp (cf_private files) = Inr private"
    and "sm_started env 0" and "sm_ended env 0 = None" and "sm_graceful env = Some (Inr ())"
    and "snd (wait_for_health (py_str rp (np_opponent_url (pv_network private))) (sm_health env) 15) = Inr up"
    and "sm_negotiate env = (\<lambda>m. tool_reply url (negotiate m) b)"
    and "sm_propose env = (\<lambda>m. tool_reply url (propose_config theirs m) b')"
    and "seen_before (pi_seen b) (JStr (py_str rp (gi_group_id (pv_game private)) @ ''-declare'')) = None"
    and "seen_before (pi_seen b') (JStr (py_str rp (gi_group_id (pv_game private)) @ ''-config'')) = None"
  shows "\<exists>sv summary. run_negotiation_smoke rp r files env = Some (Some sv, Inr summary) \<and>
    sv_task sv = Finished (Inr ()) \<and> smoke_exit (Inr summary) = (if cf_sha256 files = theirs then 0 else 1) \<and>
    jget summary ''negotiate_result'' JNull = JObj [(''ok'', JBool True)]"
proof -
  obtain d where d: "tool_reply url (propose_config theirs (proposal_message rp private (cf_sha256 files))) b' = Inr (JObj d)"
    "jget d ''accepted'' JNull = JBool (cf_sha256 files = theirs)"
    using proposal_compared [OF assms(10)] by blast
  have start: "start_server (sm_started env) (sm_ended env) v = Some (v\<lparr>sv_task := Running\<rparr>, Inr ())" for v
    using assms(3,4) by (simp add: start_returns_when_up [where k = 0])
  have talk: "smoke_body rp env shared private (cf_sha256 files) 15 s =
      (AList.update ''outcome'' (JStr (if cf_sha256 files = theirs then ''negotiated'' else ''config_mismatch''))
        (AList.update ''shared_config_num_games'' (attr (sc_network shared) ''num_games'')
        (AList.update ''config_ack'' (JObj d) (AList.update ''negotiate_result'' (JObj [(''ok'', JBool True)])
        (AList.update ''opponent_health'' (JStr ''ok'') s)))), Inr ())" for s
    by (simp add: smoke_body_def smoke_talk_def eset_def eff_defs assms(6-8) declare_accepted [OF assms(9)] d)
  show ?thesis
    by (simp add: run_negotiation_smoke_def assms(1,2,5) start talk managed_server_init_def ALLOWED_LOCAL_HOSTS_def
        stop_server_def await_bounded_def eff_defs smoke_exit_def)
qed

definition sample_smoke :: "string \<Rightarrow> smoke_env" where
  "sample_smoke theirs =
     \<lparr>sm_started = (\<lambda>_. True), sm_ended = (\<lambda>_. None), sm_health = (\<lambda>_. Inr JNull),
      sm_negotiate = (\<lambda>m. tool_reply [] (negotiate m) new_peer_inbox),
      sm_propose = (\<lambda>m. tool_reply [] (propose_config theirs m) new_peer_inbox), sm_inbox = new_peer_inbox,
      sm_graceful = Some (Inr ()), sm_forced = None, sm_final = Inr (), sm_started_at = [], sm_ended_at = []\<rparr>"

theorem negotiated_iff_same_config_witness:
  "\<exists>sv summary. run_negotiation_smoke (\<lambda>_. []) THIEF sample_files (sample_smoke ''x'') = Some (Some sv, Inr summary) \<and>
    smoke_exit (Inr summary) = 1"
proof -
  obtain c where c: "load_shared_config (JObj sample_config) = Inr c" by (rule sample_shared_loads)
  obtain p where p: "load_private_config (\<lambda>_. []) (cf_private sample_files) = Inr p" by (rule sample_private_loads)
  have shared: "rbind (file_or_raise (cf_shared sample_files)) load_shared_config = Inr c"
    by (simp add: sample_files_def file_or_raise_def c)
  have up: "snd (wait_for_health (py_str (\<lambda>_. []) (np_opponent_url (pv_network p))) (sm_health (sample_smoke ''x'')) 15) = Inr JNull"
    by (simp add: wait_for_health_def numeral_eq_Suc sample_smoke_def)
  have "cf_sha256 sample_files \<noteq> ''x''" by (simp add: sample_files_def sample_csha_def numeral_eq_Suc)
  with negotiated_iff_same_config [OF shared p _ _ _ up, where r = THIEF and url = "[]" and b = new_peer_inbox and b' = new_peer_inbox
      and theirs = "''x''"]
  show ?thesis by (auto simp: sample_smoke_def new_peer_inbox_def seen_before_def)
qed

end
