(* ===== verification/Commands.thy ===== *)
theory Commands
  imports LiveGui ReplayView Negotiation Report
begin

text \<open>
  The command line (\<^verbatim>\<open>__main__.py\<close>, \<^verbatim>\<open>cli_batch4a.py\<close>) after the arguments are parsed: each command with its options, how its
  handler ends, and the exit code of the process.
\<close>

datatype command =
    NegotiateSmoke
  | RunSubgame bool
  | RunSeries bool
  | VerifyReplay
  | ShowStatus
  | PeerCommand bool bool
  | ReplayCommand
  | ReportCommand bool

text \<open>A handler returns a code, raises, or is interrupted from the keyboard.\<close>

datatype ended = Code int | Raises py_exc | Interrupted

text \<open>An exception other than the interrupt leaves as a traceback, with 1.\<close>

fun main_exit :: "ended \<Rightarrow> int" where
  "main_exit (Code c) = c"
| "main_exit (Raises e) = 1"
| "main_exit Interrupted = 130"

text \<open>\<^verbatim>\<open>verify-replay\<close>: the verdict it prints, its findings and the code.\<close>

definition verify_replay_command :: "finding list res \<Rightarrow> (string \<times> finding list) option \<times> ended" where
  "verify_replay_command r =
     (case r of Inl e \<Rightarrow> (None, Raises e) | Inr fs \<Rightarrow> (Some (verdict fs, fs), Code (if fs = [] then 0 else 2)))"

text \<open>
  \<^verbatim>\<open>show-status\<close> loads both files; a configuration error or a missing file is a status of its own, every other exception
  leaves. The text of the error is the exception's.
\<close>

fun status_error :: "py_exc \<Rightarrow> string option" where
  "status_error (ConfigError why) = Some why"
| "status_error (PrivateOverrideError why) = Some why"
| "status_error FileNotFoundError = Some ''no such file''"
| "status_error _ = None"

definition show_status :: "(json \<Rightarrow> string) \<Rightarrow> string \<Rightarrow> config_files \<Rightarrow> jobj option \<times> ended" where
  "show_status rp config_dir files =
     (case rbind (rbind (file_or_raise (cf_shared files)) load_shared_config) (\<lambda>shared.
           rbind (load_private_config rp (cf_private files)) (\<lambda>private. Inr (shared, private))) of
        Inl e \<Rightarrow>
          (case status_error e of
             Some why \<Rightarrow> (Some [(''ok'', JBool False), (''error'', JStr why)], Code 1)
           | None \<Rightarrow> (None, Raises e))
      | Inr (shared, private) \<Rightarrow>
          (Some
             [(''ok'', JBool True),
              (''config_dir'', JStr config_dir),
              (''config_sha256'', JStr (cf_sha256 files)),
              (''num_games'', attr (sc_network shared) ''num_games''),
              (''my_port'', JInt (np_my_port (pv_network private))),
              (''opponent_url'', np_opponent_url (pv_network private)),
              (''group_id'', gi_group_id (pv_game private)),
              (''strategy_class'', st_thief_class (pv_strategy private))], Code 0))"

text \<open>What each command's run came to, as far as it returned: the arguments of the dispatch.\<close>

record runs =
  rn_environment :: "(string \<times> string) list"
  rn_negotiation :: "jobj res"
  rn_subgame :: "string option \<Rightarrow> string option \<Rightarrow> program_end option"
  rn_series :: "string option \<Rightarrow> string option \<Rightarrow> program_end option"
  rn_game_ended :: bool
  rn_verification :: "finding list res"
  rn_status :: ended
  rn_view :: "replay_view res"
  rn_report :: "report_error + jobj"

definition code_of :: "int option \<Rightarrow> ended option" where
  "code_of c = map_option Code c"

fun dispatch :: "runs \<Rightarrow> command \<Rightarrow> ended option" where
  "dispatch rn NegotiateSmoke = Some (Code (smoke_exit (rn_negotiation rn)))"
| "dispatch rn (RunSubgame public) = code_of (map_option fst (run_command (rn_environment rn) public (rn_subgame rn)))"
| "dispatch rn (RunSeries public) = code_of (map_option fst (run_command (rn_environment rn) public (rn_series rn)))"
| "dispatch rn VerifyReplay = Some (snd (verify_replay_command (rn_verification rn)))"
| "dispatch rn ShowStatus = Some (rn_status rn)"
| "dispatch rn (PeerCommand gui public) =
     code_of (peer_command (rn_environment rn) gui public (rn_game_ended rn) (rn_series rn))"
| "dispatch rn ReplayCommand = Some (Code (replay_exit (rn_view rn)))"
| "dispatch rn (ReportCommand sending) = Some (Code (report_exit sending (rn_report rn)))"

section \<open>Lemmas\<close>

lemma verify_replay_exit_zero:
  "main_exit (snd (verify_replay_command r)) = 0 \<longleftrightarrow> r = Inr []"
  by (simp add: verify_replay_command_def split: sum.splits)

lemma status_exit_zero:
  "main_exit (snd (show_status rp config_dir files)) = 0 \<longleftrightarrow>
     (\<exists>shared private. rbind (file_or_raise (cf_shared files)) load_shared_config = Inr shared \<and>
        load_private_config rp (cf_private files) = Inr private)"
  by (cases "rbind (file_or_raise (cf_shared files)) load_shared_config"; cases "load_private_config rp (cf_private files)")
    (auto simp: show_status_def split: option.splits)

text \<open>A series run in the window ends with 0 only when the headless one would.\<close>

lemma peer_exit_zero:
  assumes "dispatch rn (PeerCommand gui public) = Some (Code 0)"
  shows "dispatch rn (RunSeries public) = Some (Code 0)"
proof (cases gui)
  case True
  with assms have "rn_game_ended rn"
    by (auto simp: code_of_def peer_command_def gui_exit_def bg_result_def bg_error_def split: sum.splits prod.splits if_splits)
  with assms True peer_like_series [of "rn_environment rn" public "rn_series rn"]
  show ?thesis by (auto simp: code_of_def peer_command_def eq_commute [of "Some 0"])
qed (use assms in \<open>simp add: code_of_def peer_command_def\<close>)

lemma series_exit_zero:
  assumes "dispatch rn (RunSeries public) = Some (Code 0)"
  obtains token opponent_token pe where "resolve_public_tokens (rn_environment rn) public = Inr (token, opponent_token)"
    and "rn_series rn token opponent_token = Some pe" and "process_exit (pe_summary pe) = 0"
  using assms that by (auto simp: code_of_def run_command_def split: sum.splits)

end
