(* ===== verification/StrategyLoader.thy ===== *)
theory StrategyLoader
  imports Strategy PrivateConfig
begin

text \<open>
  Choosing the brain from the private configuration: the weights (\<^verbatim>\<open>strategy/entropy_escape_config.py\<close>), the class
  named by the reference (\<^verbatim>\<open>strategy/loader.py\<close>) and what \<^verbatim>\<open>services/subgame_deps.make_deps\<close> makes of both.
\<close>

section \<open>Weights\<close>

definition WEIGHT_NAMES :: "string list" where
  "WEIGHT_NAMES =
     [''expected_distance'', ''lookahead_distance'', ''mobility'', ''reachable_region'', ''barrier_threat_penalty'',
      ''revisit_penalty'', ''straight_line_penalty'', ''lookahead_depth'', ''deception_risk_threshold'',
      ''straight_line_window'']"

definition finite_number :: "json \<Rightarrow> bool" where
  "finite_number v \<longleftrightarrow> (case num_of v of Some (Fin x) \<Rightarrow> True | _ \<Rightarrow> False)"

definition real_weight :: "jobj \<Rightarrow> string \<Rightarrow> real \<Rightarrow> real" where
  "real_weight d k dflt = (case num_of (jget d k (JFloat (Fin dflt))) of Some (Fin x) \<Rightarrow> x | _ \<Rightarrow> dflt)"

text \<open>The record holds finite weights: with an infinity or NaN of TOML among them the result is accepted but none here.\<close>

definition weights_from_dict :: "jobj \<Rightarrow> weights option res" where
  "weights_from_dict d =
     (if \<not> list_all (\<lambda>(k, _). k \<in> set WEIGHT_NAMES) d then Inl (ValueError ''unknown EntropyEscapeWeights key(s)'')
      else if \<not> list_all (\<lambda>(_, v). finite_number v) d then Inr None
      else Inr (Some
        \<lparr>w_expected_distance = real_weight d ''expected_distance'' 1,
         w_lookahead_distance = real_weight d ''lookahead_distance'' 0.8,
         w_mobility = real_weight d ''mobility'' 0.5,
         w_reachable_region = real_weight d ''reachable_region'' 0.4,
         w_barrier_threat_penalty = real_weight d ''barrier_threat_penalty'' 1.2,
         w_revisit_penalty = real_weight d ''revisit_penalty'' 0.2,
         w_straight_line_penalty = real_weight d ''straight_line_penalty'' 0.3,
         w_lookahead_depth = jget d ''lookahead_depth'' (JInt 2),
         w_deception_risk_threshold = real_weight d ''deception_risk_threshold'' 0.35,
         w_straight_line_window = real_weight d ''straight_line_window'' 3\<rparr>))"

section \<open>The class\<close>

text \<open>
  What importing a module gives, by its name: its attributes, an \<^verbatim>\<open>ImportError\<close>, or another exception of its code. An
  attribute is a class, with or without a callable \<^verbatim>\<open>decide\<close> and a \<^verbatim>\<open>weights\<close> parameter, or something else.
\<close>

datatype module_attribute = ClassAttribute bool bool | OtherAttribute

datatype import_outcome = Imported "(string \<times> module_attribute) list" | NoModule | ImportRaises py_exc

text \<open>\<^verbatim>\<open>importlib.import_module\<close>: an empty or a relative name raises before anything is looked up.\<close>

definition import_module :: "(string \<Rightarrow> import_outcome) \<Rightarrow> string \<Rightarrow> import_outcome" where
  "import_module modules name =
     (if name = [] then ImportRaises (ValueError ''Empty module name'')
      else if hd name = CHR ''.'' then ImportRaises TypeError
      else modules name)"

text \<open>\<^verbatim>\<open>":" in reference\<close> for the value the configuration holds.\<close>

definition has_colon :: "json \<Rightarrow> bool res" where
  "has_colon reference =
     (case reference of
        JStr s \<Rightarrow> Inr (CHR '':'' \<in> set s)
      | JList xs \<Rightarrow> Inr (json_in (JStr '':'') xs)
      | JObj d \<Rightarrow> Inr (jhas d '':'')
      | _ \<Rightarrow> Inl TypeError)"

definition partition_colon :: "string \<Rightarrow> string \<times> string" where
  "partition_colon s = (takeWhile (\<lambda>c. c \<noteq> CHR '':'') s, tl (dropWhile (\<lambda>c. c \<noteq> CHR '':'') s))"

record brain_class =
  bc_module :: string
  bc_name :: string
  bc_takes_weights :: bool

definition load_strategy_class :: "(string \<Rightarrow> import_outcome) \<Rightarrow> json \<Rightarrow> brain_class res" where
  "load_strategy_class modules reference =
     rbind (has_colon reference) (\<lambda>colon.
       if \<not> colon then Inl (StrategyLoadError ''strategy reference must be package.module:ClassName'')
       else case reference of
           JStr s \<Rightarrow>
             (case partition_colon s of
                (module_name, class_name) \<Rightarrow>
                  (case import_module modules module_name of
                     NoModule \<Rightarrow> Inl (StrategyLoadError ''cannot import strategy module'')
                   | ImportRaises e \<Rightarrow> Inl e
                   | Imported attributes \<Rightarrow>
                       (case map_of attributes class_name of
                          None \<Rightarrow> Inl (StrategyLoadError ''class not found in module'')
                        | Some (ClassAttribute True takes) \<Rightarrow>
                            Inr \<lparr>bc_module = module_name, bc_name = class_name, bc_takes_weights = takes\<rparr>
                        | Some _ \<Rightarrow> Inl (StrategyLoadError ''does not expose a decide(ctx) method''))))
         | _ \<Rightarrow> Inl AttributeError)"

text \<open>The weights go to a constructor that has a parameter for them and are dropped otherwise.\<close>

definition build_strategy ::
    "(string \<Rightarrow> import_outcome) \<Rightarrow> json \<Rightarrow> 'w option \<Rightarrow> (brain_class \<times> 'w option) res" where
  "build_strategy modules reference ws =
     rbind (load_strategy_class modules reference) (\<lambda>cls.
       Inr (cls, if ws \<noteq> None \<and> bc_takes_weights cls then ws else None))"

definition select_brain ::
    "(string \<Rightarrow> import_outcome) \<Rightarrow> strategy_config \<Rightarrow> (brain_class \<times> weights option option) res" where
  "select_brain modules cfg =
     (let reference = (if truthy (st_thief_class cfg) then st_thief_class cfg else JStr DEFAULT_THIEF_CLASS)
      in rbind (if st_weights cfg = [] then Inr None
                else rbind (weights_from_dict (st_weights cfg)) (\<lambda>w. Inr (Some w)))
           (build_strategy modules reference))"

section \<open>What is selected\<close>

lemma partition_colon_append:
  "CHR '':'' \<in> set s \<Longrightarrow> partition_colon s = (m, c) \<Longrightarrow> s = m @ '':'' @ c \<and> CHR '':'' \<notin> set m"
proof -
  assume "CHR '':'' \<in> set s" and p: "partition_colon s = (m, c)"
  then obtain x xs where d: "dropWhile (\<lambda>c. c \<noteq> CHR '':'') s = x # xs" "x = CHR '':''"
    by (cases "dropWhile (\<lambda>c. c \<noteq> CHR '':'') s") (auto simp: dropWhile_eq_Cons_conv)
  have "takeWhile (\<lambda>c. c \<noteq> CHR '':'') s @ dropWhile (\<lambda>c. c \<noteq> CHR '':'') s = s" by (rule takeWhile_dropWhile_id)
  with p d show "s = m @ '':'' @ c \<and> CHR '':'' \<notin> set m"
    by (auto simp: partition_colon_def dest: set_takeWhileD)
qed

lemma weights_from_dict_Inr:
  "weights_from_dict d = Inr w \<Longrightarrow> list_all (\<lambda>(k, _). k \<in> set WEIGHT_NAMES) d"
  by (simp add: weights_from_dict_def split: if_splits)

lemma load_strategy_class_Inr:
  assumes "load_strategy_class modules reference = Inr cls"
  shows "reference = JStr (bc_module cls @ '':'' @ bc_name cls) \<and> CHR '':'' \<notin> set (bc_module cls) \<and>
    (\<exists>attributes. modules (bc_module cls) = Imported attributes \<and>
       map_of attributes (bc_name cls) = Some (ClassAttribute True (bc_takes_weights cls)))"
proof -
  obtain s where s: "reference = JStr s" "CHR '':'' \<in> set s"
    using assms by (auto simp: load_strategy_class_def has_colon_def res_simps split: json.splits if_splits)
  obtain m c where mc: "partition_colon s = (m, c)" by fastforce
  with assms s show ?thesis
    using partition_colon_append [OF s(2) mc]
    by (auto simp: load_strategy_class_def has_colon_def import_module_def
        split: import_outcome.splits option.splits module_attribute.splits if_splits bool.splits)
qed



end
