(* ===== verification/Messages.thy ===== *)
theory Messages
  imports Turn Negotiation
begin

text \<open>
  The typed messages (\<^verbatim>\<open>protocol/envelope.py\<close>, \<^verbatim>\<open>protocol/messages_*.py\<close>) with the checks of their constructors, and what the
  program really sends measured against them. The router checks the plain dicts itself, in \<^verbatim>\<open>Router\<close>.
\<close>

definition schema_error :: "string \<Rightarrow> unit res" where
  "schema_error why = Inl (SchemaValidationError why)"

text \<open>The checks of a constructor run in order; the first that fails raises.\<close>

primrec first_violation :: "(bool \<times> string) list \<Rightarrow> unit res" where
  "first_violation [] = Inr ()"
| "first_violation (check # checks) =
     (case check of (violated, why) \<Rightarrow> if violated then schema_error why else first_violation checks)"

lemma first_violation_Inr: "first_violation checks = Inr () \<longleftrightarrow> list_all (\<lambda>(violated, _). \<not> violated) checks"
  by (induction checks) (auto simp: schema_error_def split: prod.splits)

section \<open>The envelope\<close>

text \<open>The sender is a role by its type.\<close>

record message_envelope =
  me_schema_version :: string
  me_correlation_id :: string
  me_game_id :: string
  me_game_uid :: string
  me_sub_game_number :: int
  me_step :: int
  me_sender :: role
  me_sent_at :: string
  me_sequence_id :: int

definition validate_envelope :: "message_envelope \<Rightarrow> unit res" where
  "validate_envelope e =
     first_violation
       [(me_schema_version e = [], ''schema_version must be non-empty''),
        (me_correlation_id e = [], ''correlation_id must be non-empty''),
        (me_game_id e = [], ''game_id must be non-empty''),
        (me_game_uid e = [], ''game_uid must be non-empty''),
        (me_sub_game_number e < 1, ''sub_game_number must be >= 1''),
        (me_step e < 0, ''step must be >= 0''),
        (me_sent_at e = [], ''timestamp must be non-empty''),
        (me_sequence_id e < 0, ''sequence_id must be >= 0'')]"

section \<open>Handshake\<close>

definition health_status_check :: "string \<Rightarrow> unit res" where
  "health_status_check status =
     first_violation [(status \<notin> {''ok'', ''starting'', ''error''}, ''invalid status'')]"

definition peer_declaration_check :: "string \<Rightarrow> string \<Rightarrow> string \<Rightarrow> unit res" where
  "peer_declaration_check group_id group_name mcp_url =
     first_violation
       [(group_id = [], ''group_id must be non-empty''),
        (group_name = [], ''group_name must be non-empty''),
        (mcp_url = [], ''mcp_url must be non-empty'')]"

definition configuration_proposal_check :: "string \<Rightarrow> string \<Rightarrow> unit res" where
  "configuration_proposal_check config_schema_version config_sha256 =
     first_violation
       [(length config_sha256 \<noteq> 64, ''config_sha256 must be a 64-char hex digest''),
        (config_schema_version = [], ''config_schema_version must be non-empty'')]"

definition acknowledgment_check :: "bool \<Rightarrow> string option \<Rightarrow> unit res" where
  "acknowledgment_check yes why =
     first_violation [(\<not> yes \<and> (why = None \<or> why = Some []), ''reason is required when accepted=False'')]"

section \<open>Turn and evidence\<close>

definition turn_commitment_check :: "string \<Rightarrow> unit res" where
  "turn_commitment_check h = first_violation [(length h \<noteq> 64, ''commit_hash must be a 64-char hex digest'')]"

definition intent_check :: "string \<Rightarrow> unit res" where
  "intent_check truth_or_lie = first_violation [(truth_or_lie \<notin> {''truth'', ''lie''}, ''invalid hint intent'')]"

definition turn_reveal_check :: "string option \<Rightarrow> (int \<times> int) option \<Rightarrow> string \<Rightarrow> unit res" where
  "turn_reveal_check move_direction barrier_cell truth_or_lie =
     first_violation
       [(truth_or_lie \<notin> {''truth'', ''lie''}, ''invalid hint intent''),
        (move_direction = None \<and> barrier_cell = None, ''exactly one of move_direction/barrier_cell required''),
        (move_direction \<noteq> None \<and> barrier_cell \<noteq> None, ''only one of move_direction/barrier_cell may be set'')]"

text \<open>The rows of a scent grid in turn: its width, then its values.\<close>

definition scent_payload_check :: "int \<Rightarrow> real list list \<Rightarrow> unit res" where
  "scent_payload_check n grid =
     first_violation
       ([(n < 1, ''grid_size must be >= 1''), (int (length grid) \<noteq> n, ''grid row count must equal grid_size'')] @
        concat (map (\<lambda>cells.
          [(int (length cells) \<noteq> n, ''grid column count must equal grid_size''),
           (list_ex (\<lambda>v. v < 0) cells, ''scent values must be >= 0'')]) grid))"

definition cell_check :: "string \<Rightarrow> int \<Rightarrow> int \<Rightarrow> unit res" where
  "cell_check names r c = first_violation [(r < 0 \<or> c < 0, names @ '' must be >= 0'')]"

definition capture_claim_check :: "int \<Rightarrow> int \<Rightarrow> unit res" where
  "capture_claim_check r c = cell_check ''claimed_row/claimed_col'' r c"

definition barrier_declaration_check :: "int \<Rightarrow> int \<Rightarrow> unit res" where
  "barrier_declaration_check r c = cell_check ''cell_row/cell_col'' r c"

section \<open>Audit, control and errors\<close>

definition audit_submission_check :: "string \<Rightarrow> unit res" where
  "audit_submission_check result_claim =
     first_violation [(result_claim \<notin> {''capture'', ''survival'', ''timeout''}, ''invalid result_claim'')]"

definition VALID_CONTROL_KINDS :: "string list" where
  "VALID_CONTROL_KINDS = [''enable'', ''status'', ''restart'', ''quit'']"

definition control_check :: "string \<Rightarrow> unit res" where
  "control_check kind = first_violation [(kind \<notin> set VALID_CONTROL_KINDS, ''invalid control kind'')]"

definition protocol_error_check :: "string \<Rightarrow> string \<Rightarrow> unit res" where
  "protocol_error_check error_code message =
     first_violation [(error_code = [], ''error_code must be non-empty''), (message = [], ''message must be non-empty'')]"

section \<open>What is sent\<close>

text \<open>A wire envelope read as a typed one; none where a field is missing or of another type.\<close>

fun as_text :: "json \<Rightarrow> string option" where
  "as_text (JStr s) = Some s"
| "as_text _ = None"

fun as_int :: "json \<Rightarrow> int option" where
  "as_int (JInt i) = Some i"
| "as_int _ = None"

definition as_role :: "json \<Rightarrow> role option" where
  "as_role v = (if v = JStr ''police'' then Some POLICE else if v = JStr ''thief'' then Some THIEF else None)"

definition typed_envelope :: "jobj \<Rightarrow> message_envelope option" where
  "typed_envelope d =
     (case (as_text (jget d ''schema_version'' JNull), as_text (jget d ''correlation_id'' JNull),
            as_text (jget d ''game_id'' JNull), as_text (jget d ''game_uid'' JNull),
            as_int (jget d ''sub_game_number'' JNull), as_int (jget d ''step'' JNull), as_role (jget d ''sender'' JNull),
            as_text (jget d ''timestamp'' JNull), as_int (jget d ''sequence_id'' JNull)) of
        (Some v, Some c, Some g, Some u, Some n, Some st, Some r, Some t, Some q) \<Rightarrow>
          Some \<lparr>me_schema_version = v, me_correlation_id = c, me_game_id = g, me_game_uid = u,
                me_sub_game_number = n, me_step = st, me_sender = r, me_sent_at = t, me_sequence_id = q\<rparr>
      | _ \<Rightarrow> None)"

definition fits_envelope :: "jobj \<Rightarrow> bool" where
  "fits_envelope message \<longleftrightarrow>
     (case jget message ''envelope'' JNull of
        JObj d \<Rightarrow> (case typed_envelope d of Some e \<Rightarrow> validate_envelope e = Inr () | None \<Rightarrow> False)
      | _ \<Rightarrow> False)"

lemma envelope_fits:
  assumes "uid \<noteq> []" and "1 \<le> n" and "0 \<le> st" and "0 \<le> q" and "corr \<noteq> []" and "ts \<noteq> []"
    and "jget message ''envelope'' JNull = JObj (envelope uid n st q corr ts)"
  shows "fits_envelope message"
  using assms
  by (simp add: fits_envelope_def envelope_def typed_envelope_def as_role_def validate_envelope_def first_violation_Inr)

lemma scent_payload_fits:
  assumes "scent_ok n f" and "1 \<le> n"
  shows "scent_payload_check n (sf_grid f) = Inr ()"
  using assms
  by (auto simp: scent_payload_check_def first_violation_Inr scent_ok_def square_def list_all_iff list_ex_iff in_set_conv_nth)
    (metis not_less)

text \<open>The server of the smoke test gives a reason whenever it refuses.\<close>

lemma proposal_reply_fits:
  assumes "snd (propose_config own message b) = Inr d"
  obtains yes why where "jget d ''accepted'' JNull = JBool yes" and "as_text (jget d ''reason'' JNull) = why"
    and "acknowledgment_check yes why = Inr ()"
proof -
  have "\<exists>yes. jget d ''accepted'' JNull = JBool yes \<and>
      acknowledgment_check yes (as_text (jget d ''reason'' JNull)) = Inr ()"
  proof -
    obtain b' c where c: "checked_id message b = (b', c)" by fastforce
    define same where "same = json_eq (jget message ''config_sha256'' JNull) (JStr own)"
    have "\<exists>yes why. jget d ''accepted'' JNull = JBool yes \<and> jget d ''reason'' JNull = (if yes then JNull else JStr why) \<and> why \<noteq> []"
    proof (cases "\<not> jhas message ''config_sha256'' \<or> \<not> jhas message ''envelope'' \<or> c = Inr False")
      case True
      have "d = refused ''malformed message: missing config_sha256/envelope'' \<or>
          d = refused ''conflicting duplicate for this correlation_id''"
      proof (cases "\<not> jhas message ''config_sha256'' \<or> \<not> jhas message ''envelope''")
        case True
        with assms show ?thesis by (simp add: propose_config_def eret_def)
      next
        case False
        with True have "c = Inr False" by blast
        with False assms c show ?thesis by (simp add: propose_config_def eff_defs)
      qed
      then show ?thesis by (intro exI [of _ False]) (auto simp: refused_def)
    next
      case False
      with assms c have "c = Inr True" by (cases c) (auto simp: propose_config_def eff_defs simp del: json_eq.simps)
      with False assms c have "d = [(''accepted'', JBool same), (''config_sha256_match'', JBool same),
          (''reason'', if same then JNull else JStr ''config_sha256 mismatch'')]"
        by (simp add: propose_config_def eff_defs same_def Let_def del: json_eq.simps)
      then show ?thesis by (intro exI [of _ same] exI [of _ "''config_sha256 mismatch''"]) simp
    qed
    then obtain yes why where "jget d ''accepted'' JNull = JBool yes"
      "jget d ''reason'' JNull = (if yes then JNull else JStr why)" "why \<noteq> []" by blast
    then show ?thesis by (intro exI [of _ yes]) (simp add: acknowledgment_check_def first_violation_Inr)
  qed
  then show thesis using that by blast
qed

text \<open>
  What the thief sends satisfies the typed schemas, although the program never builds them: in a sub-game with a positive
  number and a named game, commitment and reveal carry a valid envelope, the commitment a digest of 64 characters whenever
  the digest function gives one, the intent is one of the two, and every scent field grown by the game's rule is a valid scent
  payload.
\<close>

lemma sent_messages_fit_schemas:
  assumes "uid \<noteq> []" and "1 \<le> p_sub_game_number (sr_payload r)" and "0 \<le> p_step (sr_payload r)"
    and "p_timestamp (sr_payload r) \<noteq> []" and "sr_commit_hash r = commit_hash H (sr_payload r)" and "\<forall>x. length (H x) = 64"
    and "scent_ok n f" and "1 \<le> n"
  shows "fits_envelope (commitment_message r uid sha) \<and> fits_envelope (reveal_message r uid sha) \<and>
    turn_commitment_check (sr_commit_hash r) = Inr () \<and> intent_check (intent_value it) = Inr () \<and>
    scent_payload_check n (sf_grid (apply_turn f src BINDING_DECAY)) = Inr ()"
proof (intro conjI)
  let ?p = "sr_payload r"
  have nonempty: "str_of_int (p_sub_game_number ?p) @ ''-'' @ s \<noteq> []" for s by simp
  show "fits_envelope (commitment_message r uid sha)"
    by (rule envelope_fits [OF assms(1-3), where q = "2 * p_step ?p" and corr = "''commit-'' @
          str_of_int (p_sub_game_number ?p) @ ''-'' @ str_of_int (p_step ?p)" and ts = "p_timestamp ?p"])
      (use assms(3,4) in \<open>simp_all add: commitment_message_def Let_def\<close>)
  show "fits_envelope (reveal_message r uid sha)"
    by (rule envelope_fits [OF assms(1-3), where q = "2 * p_step ?p + 1" and corr = "''reveal-'' @
          str_of_int (p_sub_game_number ?p) @ ''-'' @ str_of_int (p_step ?p)" and ts = "p_timestamp ?p"])
      (use assms(3,4) in \<open>simp_all add: reveal_message_def Let_def\<close>)
  show "turn_commitment_check (sr_commit_hash r) = Inr ()"
    using assms(5,6) by (simp add: turn_commitment_check_def first_violation_Inr commit_hash_def)
  show "intent_check (intent_value it) = Inr ()" by (cases it) (simp_all add: intent_check_def first_violation_Inr)
  show "scent_payload_check n (sf_grid (apply_turn f src BINDING_DECAY)) = Inr ()"
    using scent.step_inv [OF assms(7), of src] assms(8) by (rule scent_payload_fits)
qed

end
