(* ===== verification/Trace.thy ===== *)
theory Trace
  imports Turn
begin

text \<open>
  The optional trace of a turn (\<^verbatim>\<open>services/turn_trace.py\<close>): a file of events, one per line, written only when its environment
  variable is set. \<open>round8\<close> is \<^verbatim>\<open>round(x, 8)\<close>.
\<close>

text \<open>The path, when the variable is set, and whether the file opens for appending.\<close>

record trace_env =
  tr_path :: "string option"
  tr_opens :: bool

definition enabled :: "trace_env \<Rightarrow> bool" where
  "enabled e = (case tr_path e of None \<Rightarrow> False | Some p \<Rightarrow> p \<noteq> [])"

definition number :: "real \<Rightarrow> json" where
  "number x = JFloat (Fin x)"

definition belief_summary :: "(real \<Rightarrow> real) \<Rightarrow> belief \<Rightarrow> json" where
  "belief_summary round8 b =
     JObj [(''entropy'', number (entropy b)),
           (''top_k'', JList (map (\<lambda>(p, prob). JList [JInt (row p), JInt (col p), number (round8 prob)]) (top_k b 5)))]"

definition scent_summary :: "(real \<Rightarrow> real) \<Rightarrow> scent_field \<Rightarrow> json" where
  "scent_summary round8 f =
     (let flat = concat (sf_grid f) in
      JObj [(''dims'', JList [JInt (sf_size f), JInt (sf_size f)]),
            (''sum'', number (round8 (sum_list flat))),
            (''min'', if flat = [] then JNull else number (round8 (Min (set flat)))),
            (''max'', if flat = [] then JNull else number (round8 (Max (set flat))))])"

text \<open>The lines of the file; a file that does not open raises into the turn.\<close>

definition trace_record :: "trace_env \<Rightarrow> json \<Rightarrow> (json list, unit) eff" where
  "trace_record e event =
     (if \<not> enabled e then eret ()
      else if \<not> tr_opens e then eraise FileNotFoundError
      else emodify (\<lambda>lines. lines @ [event]))"

definition opt_summary :: "(real \<Rightarrow> real) \<Rightarrow> scent_field option \<Rightarrow> json" where
  "opt_summary round8 f = (case f of None \<Rightarrow> JNull | Some x \<Rightarrow> scent_summary round8 x)"

definition record_decide_turn ::
    "trace_env \<Rightarrow> (real \<Rightarrow> real) \<Rightarrow> sub_game_state \<Rightarrow> belief \<Rightarrow> string \<Rightarrow> decision \<Rightarrow> string \<Rightarrow> (json list, unit) eff" where
  "record_decide_turn e round8 s belief_before brain_name d txt =
     (if \<not> enabled e then eret ()
      else trace_record e (JObj
        [(''event'', JStr ''decide_turn''),
         (''step'', JInt (ss_step s)),
         (''sub_game_number'', JInt (sub_game_number s)),
         (''belief_before'', belief_summary round8 belief_before),
         (''belief_after_advance'', belief_summary round8 (ss_belief s)),
         (''received_police_scent'', opt_summary round8 (ss_police_scent s)),
         (''hint_trust'', number (ss_hint_trust s)),
         (''strategy_class'', JStr brain_name),
         (''action_selected'', JStr (direction_value (d_direction d))),
         (''outgoing_hint'', JStr txt),
         (''outgoing_hint_intent'', JStr (intent_value (d_intent d))),
         (''local_emitted_scent'', scent_summary round8 (own_scent s))]))"

definition record_turn_exchange ::
    "trace_env \<Rightarrow> (real \<Rightarrow> real) \<Rightarrow> sub_game_state \<Rightarrow> jobj \<Rightarrow> (json list, unit) eff" where
  "record_turn_exchange e round8 s opp =
     (if \<not> enabled e then eret ()
      else trace_record e (JObj
        [(''event'', JStr ''turn_exchange''),
         (''step'', JInt (ss_step s)),
         (''sub_game_number'', JInt (sub_game_number s)),
         (''received_message_type'', JStr ''reveal''),
         (''received_reveal_keys'', JList (map JStr (sort (map fst opp)))),
         (''received_police_scent_after_absorb'', opt_summary round8 (ss_police_scent s)),
         (''received_hint'', jget opp ''hint'' JNull),
         (''hint_region_decoded'', JBool (ss_hint_region s \<noteq> None)),
         (''belief_after_absorb'', belief_summary round8 (ss_belief s))]))"

section \<open>When the trace matters\<close>

text \<open>Without the variable nothing is written; with it every event adds one line or, where the file does not open, raises.\<close>

lemma trace_off: "\<not> enabled e \<Longrightarrow> trace_record e event lines = (lines, Inr ())"
  by (simp add: trace_record_def eret_def)

lemma trace_on:
  "enabled e \<Longrightarrow> trace_record e event lines =
     (if tr_opens e then (lines @ [event], Inr ()) else (lines, Inl FileNotFoundError))"
  by (simp add: trace_record_def eff_defs)

text \<open>
  The trace reads neither the position nor the exchange nor the sealed records of a turn: states that differ in those only
  leave the same line.
\<close>

lemma trace_hides_records:
  "record_decide_turn e round8 (s\<lparr>ss_records := rs, ss_exchange := x, ss_position := p\<rparr>) b n d txt =
     record_decide_turn e round8 s b n d txt"
  by (simp add: record_decide_turn_def)

end
