(* ===== verification/ArtifactParsing.thy ===== *)
theory ArtifactParsing
  imports Artifacts
begin

text \<open>
  Reading the three artifacts of a series back (\<^verbatim>\<open>from_dict\<close> of \<^verbatim>\<open>services/artifact_models.py\<close>): the fields keep the
  values of the file, whatever their types, and the checks are those of the code.
\<close>

section \<open>Parsing\<close>

text \<open>\<^verbatim>\<open>_require\<close>.\<close>

definition require_keys :: "jobj \<Rightarrow> string list \<Rightarrow> unit res" where
  "require_keys d ks =
     rguard (list_all (jhas d) ks) (SchemaValidationError ''artifact missing required fields'')"

record parsed_config =
  cg_game_uid :: json
  cg_game_id :: json
  cg_sub_game_number :: int
  cg_config_sha256 :: json
  cg_terms :: json
  cg_schema_version :: json

definition sha_length :: "json \<Rightarrow> unit res" where
  "sha_length v =
     rbind (py_len v) (\<lambda>n. rguard (n = 64) (SchemaValidationError ''config_sha256 must be a 64-char digest''))"

definition config_file_validate :: "parsed_config \<Rightarrow> unit res" where
  "config_file_validate a =
     (if \<not> truthy (cg_game_uid a) \<or> \<not> truthy (cg_game_id a)
      then Inl (SchemaValidationError ''config artifact needs game_uid and game_id'')
      else sha_length (cg_config_sha256 a))"

definition config_from_file :: "jobj \<Rightarrow> parsed_config res" where
  "config_from_file d =
     rbind (require_keys d [''game_uid'', ''game_id'', ''sub_game_number'', ''config_sha256'', ''terms'']) (\<lambda>_.
     rbind (py_int (jget d ''sub_game_number'' JNull)) (\<lambda>n.
       let a = \<lparr>cg_game_uid = jget d ''game_uid'' JNull, cg_game_id = jget d ''game_id'' JNull, cg_sub_game_number = n,
                cg_config_sha256 = jget d ''config_sha256'' JNull, cg_terms = jget d ''terms'' JNull,
                cg_schema_version = jget d ''schema_version'' (JStr CONFIG_SCHEMA)\<rparr>
       in rbind (config_file_validate a) (\<lambda>_. Inr a)))"

definition config_file_dict :: "parsed_config \<Rightarrow> jobj" where
  "config_file_dict a =
     [(''schema_version'', cg_schema_version a),
      (''game_uid'', cg_game_uid a),
      (''game_id'', cg_game_id a),
      (''sub_game_number'', JInt (cg_sub_game_number a)),
      (''config_sha256'', cg_config_sha256 a),
      (''terms'', cg_terms a)]"

record parsed_log =
  lg_game_uid :: json
  lg_game_id :: json
  lg_sub_game_number :: int
  lg_steps :: "json list"
  lg_audit_verdict :: json
  lg_audit_reason :: json
  lg_schema_version :: json

definition log_file_validate :: "parsed_log \<Rightarrow> unit res" where
  "log_file_validate a =
     (if \<not> truthy (lg_game_uid a) then Inl (SchemaValidationError ''log artifact needs game_uid'')
      else rguard (json_in (lg_audit_verdict a) [JStr ''verified'', JStr ''tamper_forfeit''])
             (SchemaValidationError ''bad audit_verdict''))"

definition log_from_file :: "jobj \<Rightarrow> parsed_log res" where
  "log_from_file d =
     rbind (require_keys d [''game_uid'', ''game_id'', ''sub_game_number'', ''steps'', ''audit_verdict'']) (\<lambda>_.
     rbind (py_int (jget d ''sub_game_number'' JNull)) (\<lambda>n.
     rbind (py_tuple (jget d ''steps'' JNull)) (\<lambda>steps.
       let a = \<lparr>lg_game_uid = jget d ''game_uid'' JNull, lg_game_id = jget d ''game_id'' JNull, lg_sub_game_number = n,
                lg_steps = steps, lg_audit_verdict = jget d ''audit_verdict'' JNull,
                lg_audit_reason = jget d ''audit_reason'' (JStr []),
                lg_schema_version = jget d ''schema_version'' (JStr LOG_SCHEMA)\<rparr>
       in rbind (log_file_validate a) (\<lambda>_. Inr a))))"

definition log_file_dict :: "parsed_log \<Rightarrow> jobj" where
  "log_file_dict a =
     [(''schema_version'', lg_schema_version a),
      (''game_uid'', lg_game_uid a),
      (''game_id'', lg_game_id a),
      (''sub_game_number'', JInt (lg_sub_game_number a)),
      (''steps'', JList (lg_steps a)),
      (''audit_verdict'', lg_audit_verdict a),
      (''audit_reason'', lg_audit_reason a)]"

record parsed_result =
  rf_game_uid :: json
  rf_game_id :: json
  rf_git_commit :: json
  rf_group_id :: json
  rf_config_sha256 :: json
  rf_sub_games :: "json list"
  rf_police_total :: int
  rf_thief_total :: int
  rf_agreement_status :: json
  rf_agreed :: bool
  rf_schema_version :: json

definition result_file_validate :: "parsed_result \<Rightarrow> unit res" where
  "result_file_validate a =
     (if \<not> truthy (rf_game_uid a) \<or> \<not> truthy (rf_group_id a)
      then Inl (SchemaValidationError ''result artifact needs game_uid and group_id'')
      else sha_length (rf_config_sha256 a))"

definition result_from_file :: "jobj \<Rightarrow> parsed_result res" where
  "result_from_file d =
     rbind (require_keys d [''game_uid'', ''game_id'', ''git_commit'', ''group_id'', ''config_sha256'', ''sub_games'']) (\<lambda>_.
     rbind (py_tuple (jget d ''sub_games'' JNull)) (\<lambda>games.
     rbind (py_int (jget d ''police_total'' (JInt 0))) (\<lambda>a.
     rbind (py_int (jget d ''thief_total'' (JInt 0))) (\<lambda>b.
       let r = \<lparr>rf_game_uid = jget d ''game_uid'' JNull, rf_game_id = jget d ''game_id'' JNull,
                rf_git_commit = jget d ''git_commit'' JNull, rf_group_id = jget d ''group_id'' JNull,
                rf_config_sha256 = jget d ''config_sha256'' JNull, rf_sub_games = games, rf_police_total = a,
                rf_thief_total = b, rf_agreement_status = jget d ''agreement_status'' (JStr []),
                rf_agreed = truthy (jget d ''agreed'' (JBool False)),
                rf_schema_version = jget d ''schema_version'' (JStr RESULT_SCHEMA)\<rparr>
       in rbind (result_file_validate r) (\<lambda>_. Inr r)))))"

definition result_file_dict :: "parsed_result \<Rightarrow> jobj" where
  "result_file_dict a =
     [(''schema_version'', rf_schema_version a),
      (''game_uid'', rf_game_uid a),
      (''game_id'', rf_game_id a),
      (''git_commit'', rf_git_commit a),
      (''group_id'', rf_group_id a),
      (''config_sha256'', rf_config_sha256 a),
      (''sub_games'', JList (rf_sub_games a)),
      (''police_total'', JInt (rf_police_total a)),
      (''thief_total'', JInt (rf_thief_total a)),
      (''agreement_status'', rf_agreement_status a),
      (''agreed'', JBool (rf_agreed a))]"

section \<open>Round trips\<close>

lemma config_parses:
  assumes "config_validate a = Inr ()"
  shows "\<exists>p. config_from_file (config_to_dict a) = Inr p \<and> config_file_dict p = config_to_dict a"
  using assms
  by (simp add: config_from_file_def require_keys_def rguard_def config_to_dict_def config_file_validate_def sha_length_def
      py_len_def config_validate_def config_file_dict_def Let_def split: if_splits)

lemma log_parses:
  assumes "log_validate a = Inr ()"
  shows "\<exists>p. log_from_file (log_to_dict a) = Inr p \<and> log_file_dict p = log_to_dict a"
  using assms
  by (auto simp: log_from_file_def require_keys_def rguard_def log_to_dict_def log_file_validate_def log_validate_def
      log_file_dict_def json_in_def Let_def split: if_splits)

lemma result_parses:
  assumes "result_validate a = Inr ()"
  shows "\<exists>p. result_from_file (result_to_dict a) = Inr p \<and> result_file_dict p = result_to_dict a"
  using assms
  by (simp add: result_from_file_def require_keys_def rguard_def result_to_dict_def result_file_validate_def sha_length_def
      py_len_def result_validate_def result_file_dict_def Let_def split: if_splits)

text \<open>
  Whatever artifact passes its check when it is written parses back when it is read, and writing it again
  gives the same file.
\<close>

lemma artifacts_roundtrip:
  "(config_validate c = Inr () \<longrightarrow> (\<exists>p. config_from_file (config_to_dict c) = Inr p \<and> config_file_dict p = config_to_dict c)) \<and>
   (log_validate l = Inr () \<longrightarrow> (\<exists>p. log_from_file (log_to_dict l) = Inr p \<and> log_file_dict p = log_to_dict l)) \<and>
   (result_validate r = Inr () \<longrightarrow> (\<exists>p. result_from_file (result_to_dict r) = Inr p \<and> result_file_dict p = result_to_dict r))"
  by (intro conjI impI) (erule config_parses log_parses result_parses)+

end
