(* ===== verification/Records.thy ===== *)
theory Records
  imports Hints Scent Belief
begin

text \<open>
  The immutable records of \<^verbatim>\<open>domain/state.py\<close>, \<^verbatim>\<open>domain/observations.py\<close> and \<^verbatim>\<open>domain/captures.py\<close>. The running game keeps its
  own state (theory \<^verbatim>\<open>Turn\<close>); of these it uses the enumeration of results only, which is in \<^verbatim>\<open>Geometry\<close>.
\<close>

record capture_claim_made =
  cc_step :: int
  cc_claimed_position :: position

record capture_answer =
  cp_claimed_position :: position
  cp_caught :: bool

record sub_game_outcome =
  so_result :: sub_game_result
  so_winner :: "role option"
  so_steps_taken :: int
  so_police_score :: int
  so_thief_score :: int
  so_tie :: bool

text \<open>What one turn makes public: nothing in it is the position of the sender.\<close>

record public_turn_envelope =
  pt_sender :: role
  pt_step :: int
  pt_sub_game_number :: int
  pt_hint :: hint
  pt_scent :: scent_field
  pt_timestamp :: string
  pt_barrier_placed :: "position option"
  pt_capture_claim :: "capture_claim_made option"
  pt_claim_response :: "capture_answer option"
  pt_win_claim :: bool

record local_observation =
  lo_envelope :: public_turn_envelope
  lo_received_at_step :: int

record local_peer_state =
  lp_role :: role
  lp_position :: position
  lp_visited :: "position set"
  lp_barriers_placed :: "position list"
  lp_barriers_remaining :: int
  lp_step :: int
  lp_sub_game_number :: int
  lp_belief :: belief
  lp_own_scent_field :: scent_field
  lp_opponent_scent_history :: scent_history

definition with_step :: "int \<Rightarrow> local_peer_state \<Rightarrow> local_peer_state" where
  "with_step n s =
     \<lparr>lp_role = lp_role s, lp_position = lp_position s, lp_visited = lp_visited s,
      lp_barriers_placed = lp_barriers_placed s, lp_barriers_remaining = lp_barriers_remaining s, lp_step = n,
      lp_sub_game_number = lp_sub_game_number s, lp_belief = lp_belief s, lp_own_scent_field = lp_own_scent_field s,
      lp_opponent_scent_history = lp_opponent_scent_history s\<rparr>"

text \<open>Copying every field by hand forgets none.\<close>

lemma with_step_update: "with_step n s = s\<lparr>lp_step := n\<rparr>"
  by (simp add: with_step_def)

end
