(* ===== verification/Wire.thy ===== *)
theory Wire
  imports TurnClaims
begin

text \<open>
  The turn loop, the gateway, the inbox and the router together: what reaches a turn as the reveal of the opponent, whatever
  messages the server thread is handed before and while the gateway polls.
\<close>

section \<open>What the router lets in\<close>

text \<open>A message bound to the game, the sender and, when it names one, the configuration.\<close>

definition bound_turn :: "string \<Rightarrow> role \<Rightarrow> string \<Rightarrow> json \<Rightarrow> bool" where
  "bound_turn uid sender sha m \<longleftrightarrow>
     (case m of
        JObj d \<Rightarrow>
          (case jget d ''envelope'' JNull of
             JObj env \<Rightarrow>
               jget env ''sender'' JNull = JStr (role_value sender) \<and> jget env ''game_uid'' JNull = JStr uid \<and>
               (is_null (jget d ''config_sha256'' JNull) \<or> jget d ''config_sha256'' JNull = JStr sha)
           | _ \<Rightarrow> False)
      | _ \<Rightarrow> False)"

text \<open>What happens to a router: a tool is called with some message, or the gateway takes a message out of the inbox.\<close>

datatype router_op = Tool tool json | Take "json \<Rightarrow> bool"

fun router_step :: "(json \<Rightarrow> string) \<Rightarrow> router \<Rightarrow> router_op \<Rightarrow> router" where
  "router_step rp r (Tool t m) = fst (call_tool rp t m r)"
| "router_step rp r (Take p) = r\<lparr>turn_inbox := fst (pop_matching p (turn_inbox r))\<rparr>"

definition bound_router :: "string \<Rightarrow> role \<Rightarrow> string \<Rightarrow> router \<Rightarrow> bool" where
  "bound_router uid sender sha r \<longleftrightarrow>
     expected_game_uid r = uid \<and> expected_sender r = sender \<and> expected_config_sha256 r = sha \<and>
     list_all (bound_turn uid sender sha) (inbox_contents (turn_inbox r))"

lemma json_eq_JStr: "json_eq x (JStr s) \<longleftrightarrow> x = JStr s"
  by (cases x) auto

lemma enqueue_contents:
  "set (inbox_contents (fst (ib_enqueue key m c b))) \<subseteq> insert m (set (inbox_contents b))"
  by (auto simp: ib_enqueue_def inbox_contents_def Let_def)

lemma admit_turn_frame:
  assumes "admit_turn rp message sg st t cid r = (r', x)"
  shows "expected_game_uid r' = expected_game_uid r \<and> expected_sender r' = expected_sender r \<and>
    expected_config_sha256 r' = expected_config_sha256 r \<and>
    set (inbox_contents (turn_inbox r')) \<subseteq> insert (JObj message) (set (inbox_contents (turn_inbox r)))"
  using assms enqueue_contents [of "turn_key rp sg st t" "JObj message" cid "turn_inbox r"]
  by (auto simp: admit_turn_def Let_def split: if_splits sum.splits prod.splits bool.splits option.splits py_exc.splits)

lemma binding_None:
  assumes "binding_reason rp r env d dead = None" and "jget d ''envelope'' JNull = JObj env"
  shows "bound_turn (expected_game_uid r) (expected_sender r) (expected_config_sha256 r) (JObj d)"
  using assms by (auto simp: binding_reason_def bound_turn_def json_eq_JStr simp del: json_eq.simps split: if_splits)

lemma handle_turn_core_frame:
  assumes "handle_turn_core rp m r = (r', x)"
  shows "expected_game_uid r' = expected_game_uid r \<and> expected_sender r' = expected_sender r \<and>
    expected_config_sha256 r' = expected_config_sha256 r \<and>
    (\<forall>y \<in> set (inbox_contents (turn_inbox r')). y \<in> set (inbox_contents (turn_inbox r)) \<or>
       bound_turn (expected_game_uid r) (expected_sender r) (expected_config_sha256 r) y)"
proof (cases "r' = r")
  case True
  then show ?thesis by simp
next
  case False
  from assms False obtain d env t where m: "m = JObj d" "jget d ''envelope'' JNull = JObj env"
    "binding_reason rp r env d DEAD_STATES = None" and a: "admit_turn rp d (jget env ''sub_game_number'' JNull)
       (jget env ''step'' JNull) t (jget env ''correlation_id'' (JStr [])) r = (r', x)"
    by (auto simp: handle_turn_core_def split: sum.splits option.splits json.splits prod.splits)
  from admit_turn_frame [OF a] binding_None [OF m(3,2)] show ?thesis by auto
qed

lemma handle_turn_frame:
  assumes "bound_router uid sender sha r"
  shows "bound_router uid sender sha (fst (handle_turn rp m r))"
proof -
  obtain r' x where h: "handle_turn_core rp m r = (r', x)" by fastforce
  then have "fst (handle_turn rp m r) = r'" by (simp add: handle_turn_def logged_def split: sum.splits)
  with handle_turn_core_frame [OF h] assms show ?thesis by (auto simp: bound_router_def list_all_iff)
qed

lemma other_inboxes_frame:
  "bound_router uid sender sha (r\<lparr>audit_inbox := b\<rparr>) = bound_router uid sender sha r"
  "bound_router uid sender sha (r\<lparr>control_inbox := b\<rparr>) = bound_router uid sender sha r"
  by (simp_all add: bound_router_def)

lemma changed_cases:
  assumes "P f"
  shows "P (fst (case x of Inl InboxFullError \<Rightarrow> (f, y) | Inl e \<Rightarrow> (f, z e) | Inr u \<Rightarrow> (f, w u)))"
  using assms by (auto split: sum.splits py_exc.splits)

lemma handle_audit_frame:
  assumes "bound_router uid sender sha r"
  shows "bound_router uid sender sha (fst (handle_audit_core rp m r))"
proof (cases m)
  case (JObj d)
  show ?thesis
  proof (cases "jget d ''envelope'' JNull")
    case env: (JObj env)
    show ?thesis
    proof (cases "jget d ''message_type'' JNull")
      case (JStr t)
      have "bound_router uid sender sha (fst (handle_audit_core rp (JObj d) r))"
        unfolding handle_audit_core_def Let_def json.case env JStr
        by (auto simp: assms other_inboxes_frame split: if_splits option.splits prod.splits
            intro!: changed_cases [where P = "bound_router uid sender sha"])
      then show ?thesis by (simp add: JObj)
    qed (simp_all add: handle_audit_core_def JObj env assms)
  qed (simp_all add: handle_audit_core_def JObj assms)
qed (simp_all add: handle_audit_core_def assms)

lemma handle_control_frame:
  assumes "bound_router uid sender sha r"
  shows "bound_router uid sender sha (fst (handle_control_core rp m r))"
proof (cases m)
  case (JObj d)
  show ?thesis
  proof (cases "jget d ''kind'' JNull")
    case (JStr k)
    then show ?thesis
      using assms by (auto simp: handle_control_core_def JObj other_inboxes_frame split: prod.splits sum.splits)
  qed (simp_all add: handle_control_core_def JObj assms)
qed (simp_all add: handle_control_core_def assms)

lemma logged_state: "fst (logged m h r) = fst (h r)"
  by (simp add: logged_def split: prod.splits sum.splits)

lemma pop_contents: "set (inbox_contents (fst (pop_matching p b))) \<subseteq> set (inbox_contents b)"
proof -
  obtain b' x where p: "pop_matching p b = (b', x)" by fastforce
  then have q: "(case pop_matching p b of (b', r) \<Rightarrow> (r, b')) = (x, b')" by simp
  show ?thesis
    using ibq.pop_none [of p b b'] ibq.pop_some [of p b _ b'] q p
    by (cases x) (auto simp flip: set_mset_mset)
qed

interpretation wire: component "router_step rp" "bound_router uid sender sha"
proof
  fix r x
  assume r: "bound_router uid sender sha r"
  show "bound_router uid sender sha (router_step rp r x)"
  proof (cases x)
    case (Tool t m)
    then show ?thesis
      using handle_turn_frame [OF r] handle_audit_frame [OF r] handle_control_frame [OF r]
      by (cases t) (simp_all add: handle_audit_def handle_control_def logged_state)
  next
    case (Take p)
    then show ?thesis using r pop_contents [of p "turn_inbox r"] by (auto simp: bound_router_def list_all_iff)
  qed
qed

section \<open>What the gateway hands to a turn\<close>

text \<open>
  The server thread while the gateway sleeps: any tool calls, on a router whose sequence tracker and machine are whatever
  they are at that moment.
\<close>

definition arrivals ::
    "(json \<Rightarrow> string) \<Rightarrow> router \<Rightarrow> (nat \<Rightarrow> tracker \<times> peer_state option) \<Rightarrow> (nat \<Rightarrow> (tool \<times> json) list) \<Rightarrow> nat \<Rightarrow> inbox \<Rightarrow> inbox" where
  "arrivals rp r seen later n b =
     turn_inbox (foldl (router_step rp)
       (r\<lparr>turn_inbox := b, sequence := fst (seen n), rt_machine := snd (seen n)\<rparr>)
       (map (\<lambda>(t, m). Tool t m) (later n)))"

lemma arrivals_frame:
  assumes "bound_router uid sender sha r" and "list_all (bound_turn uid sender sha) (inbox_contents b)"
  shows "list_all (bound_turn uid sender sha) (inbox_contents (arrivals rp r seen later n b))"
  using assms wire.run_inv [of uid sender sha "r\<lparr>turn_inbox := b, sequence := fst (seen n), rt_machine := snd (seen n)\<rparr>" rp]
  by (auto simp: arrivals_def bound_router_def)

lemma await_keeps:
  assumes "\<And>n b. list_all P (inbox_contents b) \<Longrightarrow> list_all P (inbox_contents (arrive n b))"
    and "list_all P (inbox_contents b)" and "await_opponent_reveal n arrive sg st b = (b', Some turn)"
  shows "\<exists>d. P (JObj d) \<and> is_matching_reveal sg st (JObj d) \<and> turn = jget d ''reveal'' (JObj [])"
  using assms(2,3)
proof (induction n arbitrary: b)
  case (Suc n)
  obtain b1 x where p: "pop_matching (is_matching_reveal sg st) b = (b1, x)" by fastforce
  then have q: "(case pop_matching (is_matching_reveal sg st) b of (b', r) \<Rightarrow> (r, b')) = (x, b1)" by simp
  show ?case
  proof (cases x)
    case None
    from pop_contents [of "is_matching_reveal sg st" b] p Suc.prems(1)
    have "list_all P (inbox_contents b1)" by (auto simp: list_all_iff)
    with Suc.IH [OF assms(1)] Suc.prems(2) p None show ?thesis by simp
  next
    case (Some m)
    from ibq.pop_some [OF q [unfolded Some]]
    have m: "is_matching_reveal sg st m" "m \<in> set (inbox_contents b)" by (auto simp flip: set_mset_mset)
    then obtain d where "m = JObj d" by (cases m) (auto simp: is_matching_reveal_def envelope_of_def)
    with m Suc.prems p Some show ?thesis by (auto simp: list_all_iff)
  qed
qed simp

lemma delivered_reveal:
  assumes "\<And>n b. list_all P (inbox_contents b) \<Longrightarrow> list_all P (inbox_contents (arrive n b))"
    and "list_all P (inbox_contents b)" and "deliver_turn n arrive call message b = (b', Inr ack)"
    and "truthy (jget ack ''ok'' JNull)" and "jget message ''message_type'' JNull = JStr ''reveal''"
    and "jget message ''envelope'' JNull = JObj env"
  shows "\<exists>d. P (JObj d) \<and> is_matching_reveal (jget env ''sub_game_number'' JNull) (jget env ''step'' JNull) (JObj d) \<and>
    jget ack ''opponent_turn'' (JObj []) = jget d ''reveal'' (JObj [])"
proof -
  obtain a where a: "call message = Inr a" using assms(3) by (cases "call message") (auto simp: deliver_turn_def)
  from assms(6) have env: "jindex message ''envelope'' = Inr (JObj env)"
    by (auto simp: jget_def jindex_def split: option.splits)
  have "truthy (jget a ''ok'' JNull)" using assms(3-5) a by (auto simp: deliver_turn_def split: if_splits)
  with assms(3,5) a env obtain sg st where i: "jindex env ''sub_game_number'' = Inr sg" "jindex env ''step'' = Inr st"
    by (cases "jindex env ''sub_game_number''"; cases "jindex env ''step''") (auto simp: deliver_turn_def)
  have d: "(case await_opponent_reveal n arrive sg st b of (b', None) \<Rightarrow> (b', Inr NO_OPPONENT_REVEAL)
      | (b', Some turn) \<Rightarrow> (b', Inr (AList.update ''opponent_turn'' turn a))) = (b', Inr ack :: jobj res)"
    using assms(3,5) a env i \<open>truthy (jget a ''ok'' JNull)\<close> by (simp add: deliver_turn_def)
  from d assms(4) obtain turn where w: "await_opponent_reveal n arrive sg st b = (b', Some turn)"
    "ack = AList.update ''opponent_turn'' turn a"
    by (auto simp: NO_OPPONENT_REVEAL_def split: prod.splits option.splits)
  from await_keeps [OF assms(1,2) w(1)] w(2) i show ?thesis
    by (auto simp: jget_def jindex_def update_conv split: option.splits)
qed

lemma ensures_after:
  "(\<And>x s'. ensures (k x) s' Q (\<lambda>_ _. True)) \<Longrightarrow> ensures (ebind m k) s Q (\<lambda>_ _. True)"
  by (rule ensures_bindI [where Q' = "\<lambda>_ _. True" and R' = "\<lambda>_ _. True"])
    (auto simp: ensures_def split: prod.splits sum.splits)

lemma exchange_turn_ack:
  assumes "exchange_turn H rp dp env d txt s = (s', Inr ack)" and "reveal_transform dp = None"
  shows "te_deliver_reveal env (reveal_message (seal_turn H dp env (d_direction d) (d_intent d) txt s)
      (dp_game_uid dp) (dp_config_sha256 dp)) = Inr ack \<and> truthy (jget ack ''ok'' JNull)"
proof -
  have "ensures (exchange_turn H rp dp env d txt) s
     (\<lambda>ack _. te_deliver_reveal env (reveal_message (seal_turn H dp env (d_direction d) (d_intent d) txt s)
        (dp_game_uid dp) (dp_config_sha256 dp)) = Inr ack \<and> truthy (jget ack ''ok'' JNull)) (\<lambda>_ _. True)"
    unfolding exchange_turn_def ensures_bind [of "egets _"] ensures_gets
    apply (rule ensures_after, rule ensures_after, rule ensures_after)
    apply (simp add: ensures_bind [of "elift _"] ensures_lift outgoing_reveal_def assms(2) Let_def del: ensures_bind split: sum.splits)
    apply (intro allI impI)
    apply (drule deliver_Inr)
    apply (rule ensures_after)+
    apply (simp add: ensures_ret)
    done
  from ensures_valueD [OF this assms(1)] show ?thesis .
qed

lemma fresh_router_bound: "bound_router uid POLICE sha (build_game_server THIEF uid sha st)"
  by (simp add: bound_router_def build_game_server_def new_router_def new_inbox_def inbox_contents_def)

text \<open>A concrete wait: a forged reveal is refused, the commitment of the police is in, its reveal comes while the gateway polls.\<close>

definition wire_message :: "string \<Rightarrow> string \<Rightarrow> json" where
  "wire_message who t =
     JObj [(''envelope'', JObj (AList.update ''sender'' (JStr who) (envelope ''uid'' 1 0 0 (who @ t) ''now''))),
           (''message_type'', JStr t), (''commit_hash'', JStr ''c''), (''reveal'', JObj [(''hint'', JStr who)])]"

definition wire_ops :: "router_op list" where
  "wire_ops = [Tool receive_turn (wire_message ''thief'' ''reveal''), Tool receive_turn (wire_message ''police'' ''commitment'')]"

definition wire_router :: router where
  "wire_router = foldl (router_step (\<lambda>_. [])) (build_game_server THIEF ''uid'' ''abcdef0123'' None) wire_ops"

definition wire_delivery :: "jobj \<Rightarrow> jobj res" where
  "wire_delivery m =
     snd (deliver_turn 3
       (arrivals (\<lambda>_. []) wire_router (\<lambda>_. (sequence wire_router, None))
         (\<lambda>n. if n = 1 then [(receive_move, wire_message ''police'' ''reveal'')] else []))
       (\<lambda>_. Inr [(''ok'', JBool True)]) m (turn_inbox wire_router))"

lemma wire_delivery_answer:
  assumes "jget m ''message_type'' JNull = JStr ''reveal''" and "jget m ''envelope'' JNull = JObj (envelope uid 1 0 q c t)"
  shows "wire_delivery m = Inr [(''ok'', JBool True), (''opponent_turn'', JObj [(''hint'', JStr ''police'')])]"
proof -
  have w: "snd (await_opponent_reveal 3
       (arrivals (\<lambda>_. []) wire_router (\<lambda>_. (sequence wire_router, None))
         (\<lambda>n. if n = 1 then [(receive_move, wire_message ''police'' ''reveal'')] else [])) (JInt 1) (JInt 0)
       (turn_inbox wire_router)) = Some (JObj [(''hint'', JStr ''police'')])"
    by code_simp
  from assms(2) have e: "jindex m ''envelope'' = Inr (JObj (envelope uid 1 0 q c t))"
    by (auto simp: jget_def jindex_def split: option.splits)
  have "jindex (envelope uid 1 0 q c t) ''sub_game_number'' = Inr (JInt 1)"
    "jindex (envelope uid 1 0 q c t) ''step'' = Inr (JInt 0)" by (simp_all add: envelope_def)
  with w e assms(1) show ?thesis
    by (auto simp: wire_delivery_def deliver_turn_def split: prod.splits)
qed

text \<open>
  C4. Whatever messages reach the four tools before and during the wait, the public turn that a turn goes on with is the
  reveal field of a message from the police, for this game, under this configuration when it names one, and for this
  sub-game and step.
\<close>

theorem absorbed_reveal_is_bound:
  assumes "reveal_transform dp = None"
    and "r = foldl (router_step rp) (build_game_server THIEF (dp_game_uid dp) (dp_config_sha256 dp) st) ops"
    and "te_deliver_reveal env = (\<lambda>m. snd (deliver_turn polls (arrivals rp r seen later) call m (turn_inbox r)))"
    and "exchange_turn H rp' dp env d txt s = (s', Inr ack)"
  shows "\<exists>m. bound_turn (dp_game_uid dp) POLICE (dp_config_sha256 dp) (JObj m) \<and>
    is_matching_reveal (JInt (sub_game_number s)) (JInt (ss_step s)) (JObj m) \<and>
    jget ack ''opponent_turn'' (JObj []) = jget m ''reveal'' (JObj [])"
proof -
  let ?bound = "bound_turn (dp_game_uid dp) POLICE (dp_config_sha256 dp)"
  let ?sealed = "seal_turn H dp env (d_direction d) (d_intent d) txt s"
  let ?m = "reveal_message ?sealed (dp_game_uid dp) (dp_config_sha256 dp)"
  have r: "bound_router (dp_game_uid dp) POLICE (dp_config_sha256 dp) r"
    unfolding assms(2) by (rule wire.run_inv [OF fresh_router_bound])
  from exchange_turn_ack [OF assms(4,1)] obtain b where
    "deliver_turn polls (arrivals rp r seen later) call ?m (turn_inbox r) = (b, Inr ack)" "truthy (jget ack ''ok'' JNull)"
    unfolding assms(3) by (metis prod.collapse)
  from delivered_reveal [OF arrivals_frame [OF r] _ this message_fields(2,4)] r show ?thesis
    by (simp add: bound_router_def envelope_fields seal_turn_def seal_def turn_payload_def)
qed

definition wire_env :: turn_env where
  "wire_env = (steady_env STAY ''n'' [])\<lparr>te_deliver_reveal := wire_delivery\<rparr>"

theorem absorbed_reveal_is_bound_witness:
  "\<exists>s s' ack m. exchange_turn sample_H (\<lambda>_. []) sample_deps wire_env (Decision STAY TRUTH) ''east'' s = (s', Inr ack) \<and>
     jget ack ''opponent_turn'' (JObj []) = JObj [(''hint'', JStr ''police'')] \<and>
     bound_turn ''uid'' POLICE ''abcdef0123'' (JObj m) \<and> jget m ''reveal'' (JObj []) = JObj [(''hint'', JStr ''police'')]"
proof -
  obtain s :: sub_game_state where s: "books_ok sample_H s" "ss_machine s = new_machine THINKING" "sub_game_number s = 1" "ss_step s = 0"
    by (rule initial_ok [of "Pos 6 6" 7 1 "new_machine THINKING" sample_H]) (simp_all add: is_within_def)
  let ?r = "seal_turn sample_H sample_deps wire_env STAY TRUTH ''east'' s"
  let ?ack = "[(''ok'', JBool True), (''opponent_turn'', JObj [(''hint'', JStr ''police'')])]"
  have w: "wire_delivery (reveal_message ?r ''uid'' ''abcdef0123'') = Inr ?ack"
    by (rule wire_delivery_answer) (simp_all add: message_fields seal_turn_def seal_def turn_payload_def s)
  have env: "reveal_transform sample_deps = None" "dp_game_uid sample_deps = ''uid''"
    "dp_config_sha256 sample_deps = ''abcdef0123''" "te_deliver_reveal wire_env = wire_delivery"
    by (simp_all add: sample_deps_def wire_env_def)
  with w have d: "delivery (\<lambda>_. []) sample_deps wire_env ?r = Inr ?ack"
    by (simp add: delivery_def outgoing_reveal_def Let_def wire_env_def steady_env_def deliver_commit_and_reveal_def)
  obtain s' ack where x: "exchange_turn sample_H (\<lambda>_. []) sample_deps wire_env (Decision STAY TRUTH) ''east'' s = (s', Inr ack)"
    using exchange_turn_ensures [OF s(1), of "\<lambda>_. []" sample_deps wire_env "Decision STAY TRUTH" "''east''"] d s(2)
    by (auto simp: ensures_def new_machine_def split: prod.splits sum.splits)
  from exchange_turn_ack [OF x env(1)] have ack: "ack = ?ack" by (simp add: env w)
  have e: "te_deliver_reveal wire_env = (\<lambda>m. snd (deliver_turn 3
      (arrivals (\<lambda>_. []) wire_router (\<lambda>_. (sequence wire_router, None))
         (\<lambda>n. if n = 1 then [(receive_move, wire_message ''police'' ''reveal'')] else []))
      (\<lambda>_. Inr [(''ok'', JBool True)]) m (turn_inbox wire_router)))"
    by (simp add: env wire_delivery_def fun_eq_iff)
  have r: "wire_router = foldl (router_step (\<lambda>_. []))
      (build_game_server THIEF (dp_game_uid sample_deps) (dp_config_sha256 sample_deps) None) wire_ops"
    by (simp add: wire_router_def env)
  from absorbed_reveal_is_bound [OF env(1) r e x] obtain m where
    "bound_turn ''uid'' POLICE ''abcdef0123'' (JObj m)" "JObj [(''hint'', JStr ''police'')] = jget m ''reveal'' (JObj [])"
    by (auto simp: ack env)
  with x show ?thesis by (intro exI [of _ s] exI [of _ s'] exI [of _ ack] exI [of _ m]) (simp add: ack)
qed

end
