(* ===== verification/Calls.thy ===== *)
theory Calls
  imports Client Router Negotiation
begin

text \<open>
  The named calls of the client (\<^verbatim>\<open>infrastructure/mcp_client.py\<close>), the gateway that makes them
  (\<^verbatim>\<open>services/gateway.py\<close>), and the tools the two servers register under those names
  (\<^verbatim>\<open>infrastructure/game_tools.py\<close>, \<^verbatim>\<open>mcp_server.py\<close>). A call names a tool and one argument; the framework looks both up on
  the other side, so the two tables must agree.
\<close>

section \<open>The calls\<close>

text \<open>What the attempts of a call meet: the tool, its arguments, the timeout, the number of the attempt.\<close>

type_synonym transport = "string \<Rightarrow> jobj \<Rightarrow> real \<Rightarrow> nat \<Rightarrow> call_reply"

type_synonym call_outcome = "real list \<times> json res"

definition call_health :: "string \<Rightarrow> transport \<Rightarrow> real \<Rightarrow> call_outcome" where
  "call_health url tr timeout_seconds = call url (tr ''health'' [] timeout_seconds) 0"

definition call_negotiate :: "string \<Rightarrow> transport \<Rightarrow> jobj \<Rightarrow> real \<Rightarrow> call_outcome" where
  "call_negotiate url tr message timeout_seconds =
     call url (tr ''negotiate'' [(''message'', JObj message)] timeout_seconds) 0"

definition call_propose_config :: "string \<Rightarrow> transport \<Rightarrow> jobj \<Rightarrow> real \<Rightarrow> call_outcome" where
  "call_propose_config url tr message timeout_seconds =
     call url (tr ''propose_config'' [(''message'', JObj message)] timeout_seconds) 0"

definition call_receive_turn :: "string \<Rightarrow> transport \<Rightarrow> jobj \<Rightarrow> real \<Rightarrow> call_outcome" where
  "call_receive_turn url tr message timeout_seconds =
     call url (tr ''receive_turn'' [(''message'', JObj message)] timeout_seconds) 0"

definition call_submit_audit :: "string \<Rightarrow> transport \<Rightarrow> jobj \<Rightarrow> real \<Rightarrow> call_outcome" where
  "call_submit_audit url tr payload timeout_seconds =
     call url (tr ''submit_audit'' [(''payload'', JObj payload)] timeout_seconds) 0"

definition call_receive_control :: "string \<Rightarrow> transport \<Rightarrow> jobj \<Rightarrow> real \<Rightarrow> call_outcome" where
  "call_receive_control url tr message timeout_seconds =
     call url (tr ''receive_control'' [(''message'', JObj message)] timeout_seconds) 0"

text \<open>The health poll over the calls: the pause between the polls is their timeout as well.\<close>

definition poll_health :: "string \<Rightarrow> (nat \<Rightarrow> transport) \<Rightarrow> nat \<Rightarrow> real \<Rightarrow> nat \<times> json res" where
  "poll_health url tr attempts delay_seconds =
     wait_for_health url (\<lambda>i. snd (call_health url (tr i) delay_seconds)) attempts"

section \<open>The gateway\<close>

text \<open>The token and the pacer are the transport's; the pause between two polls only matters to the clock.\<close>

record http_gateway =
  gw_url :: string
  gw_timeout :: real
  gw_max_polls :: nat

definition new_gateway :: "string \<Rightarrow> http_gateway" where
  "new_gateway url = \<lparr>gw_url = url, gw_timeout = 30, gw_max_polls = 300\<rparr>"

text \<open>The ack is used as a dict: another answer of the peer raises there.\<close>

definition turn_ack :: "http_gateway \<Rightarrow> transport \<Rightarrow> jobj \<Rightarrow> jobj res" where
  "turn_ack gw tr message = rbind (snd (call_receive_turn (gw_url gw) tr message (gw_timeout gw))) obj_or_raise"

definition http_deliver_turn ::
    "http_gateway \<Rightarrow> transport \<Rightarrow> (nat \<Rightarrow> inbox \<Rightarrow> inbox) \<Rightarrow> jobj \<Rightarrow> (inbox, jobj) eff" where
  "http_deliver_turn gw tr arrive = deliver_turn (gw_max_polls gw) arrive (turn_ack gw tr)"

definition http_deliver_audit :: "http_gateway \<Rightarrow> transport \<Rightarrow> jobj \<Rightarrow> json res" where
  "http_deliver_audit gw tr payload = snd (call_submit_audit (gw_url gw) tr payload (gw_timeout gw))"

section \<open>The tools on the servers\<close>

text \<open>A registered tool: its name, the name of its one parameter, its handler.\<close>

definition turn_tools :: "(string \<times> string \<times> tool) list" where
  "turn_tools =
     [(''receive_turn'', ''message'', receive_turn),
      (''receive_move'', ''message'', receive_move),
      (''submit_audit'', ''payload'', submit_audit),
      (''receive_control'', ''message'', receive_control)]"

text \<open>The game server of a role; none when the name or the arguments fit no tool (every parameter is a dict).\<close>

definition game_server ::
    "(json \<Rightarrow> string) \<Rightarrow> role \<Rightarrow> string \<Rightarrow> jobj \<Rightarrow> router \<Rightarrow> (router \<times> jobj res) option" where
  "game_server rp me name args r =
     (if name = ''health'' then (if args = [] then Some (r, Inr (health me)) else None)
      else case map_of turn_tools name of
          None \<Rightarrow> None
        | Some (parameter, t) \<Rightarrow>
            (case args of
               [(k, JObj m)] \<Rightarrow> (if k = parameter then Some (call_tool rp t (JObj m) r) else None)
             | _ \<Rightarrow> None))"

definition peer_server :: "role \<Rightarrow> string \<Rightarrow> string \<Rightarrow> jobj \<Rightarrow> peer_inbox \<Rightarrow> (peer_inbox \<times> jobj res) option" where
  "peer_server me own_config_sha256 name args b =
     (if name = ''health'' then (if args = [] then Some (b, Inr (health me)) else None)
      else case args of
          [(k, JObj message)] \<Rightarrow>
            (if k \<noteq> ''message'' then None
             else if name = ''negotiate'' then Some (negotiate message b)
             else if name = ''propose_config'' then Some (propose_config own_config_sha256 message b)
             else None)
        | _ \<Rightarrow> None)"

text \<open>
  A transport that reaches such a server: an answer comes back as data, an exception of the handler and an unknown tool as
  an error of the tool, whose text the framework makes.
\<close>

definition reply_of :: "(py_exc \<Rightarrow> string) \<Rightarrow> string \<Rightarrow> ('s \<times> jobj res) option \<Rightarrow> call_reply" where
  "reply_of text unknown x =
     (case x of None \<Rightarrow> ToolError unknown | Some (_, Inr ack) \<Rightarrow> Data (JObj ack) | Some (_, Inl e) \<Rightarrow> ToolError (text e))"

definition reaches :: "(py_exc \<Rightarrow> string) \<Rightarrow> string \<Rightarrow> (string \<Rightarrow> jobj \<Rightarrow> ('s \<times> jobj res) option) \<Rightarrow> transport" where
  "reaches text unknown server name args timeout_seconds i = reply_of text unknown (server name args)"

text \<open>What a caller sees of a handler.\<close>

definition seen_by_caller :: "string \<Rightarrow> (py_exc \<Rightarrow> string) \<Rightarrow> jobj res \<Rightarrow> json res" where
  "seen_by_caller url text r =
     (case r of Inr ack \<Rightarrow> Inr (JObj ack)
      | Inl e \<Rightarrow> Inl (PeerUnavailableError (''peer at '' @ url @ '' rejected the call: '' @ text e)))"

lemma reaches_eq: "reaches text unknown server name args t = (\<lambda>i. reply_of text unknown (server name args))"
  by (simp add: fun_eq_iff reaches_def)

lemma call_reply_of:
  assumes "\<forall>e. \<not> is_overload_tool_error (text e)"
  shows "call url (\<lambda>i. reply_of text unknown (Some p)) 0 = ([], seen_by_caller url text (snd p))"
proof (cases p)
  case (Pair s r)
  with assms show ?thesis
    by (subst call.simps) (auto simp: reply_of_def on_reply_def unavailable_def seen_by_caller_def Let_def split: sum.splits)
qed

text \<open>
  Every call of the client finds its tool: it comes back with what the handler of the other side answered, and an exception
  in that handler as the unavailability of the peer.
\<close>

lemma calls_find_their_tools:
  assumes "\<forall>e. \<not> is_overload_tool_error (text e)"
  shows "call_receive_turn url (reaches text unknown (\<lambda>n a. game_server rp me n a r)) message t =
      ([], seen_by_caller url text (snd (handle_turn rp (JObj message) r)))"
    and "call_submit_audit url (reaches text unknown (\<lambda>n a. game_server rp me n a r)) message t =
      ([], seen_by_caller url text (snd (handle_audit rp (JObj message) r)))"
    and "call_receive_control url (reaches text unknown (\<lambda>n a. game_server rp me n a r)) message t =
      ([], seen_by_caller url text (snd (handle_control rp (JObj message) r)))"
    and "call_health url (reaches text unknown (\<lambda>n a. game_server rp me n a r)) t = ([], Inr (JObj (health me)))"
    and "call_negotiate url (reaches text unknown (\<lambda>n a. peer_server me sha n a b)) message t =
      ([], seen_by_caller url text (snd (negotiate message b)))"
    and "call_propose_config url (reaches text unknown (\<lambda>n a. peer_server me sha n a b)) message t =
      ([], seen_by_caller url text (snd (propose_config sha message b)))"
  by (simp_all add: call_reply_of [OF assms] call_receive_turn_def call_submit_audit_def call_receive_control_def
      call_health_def call_negotiate_def call_propose_config_def reaches_eq game_server_def peer_server_def turn_tools_def)
    (simp add: seen_by_caller_def)

text \<open>So a gateway that reaches the opponent's server hands every message to its router, and the turn sees the answer.\<close>

lemma gateway_reaches_router:
  assumes "\<forall>e. \<not> is_overload_tool_error (text e)"
  shows "turn_ack gw (reaches text unknown (\<lambda>n a. game_server rp me n a r)) message =
    (case snd (handle_turn rp (JObj message) r) of
       Inr ack \<Rightarrow> Inr ack
     | Inl e \<Rightarrow> Inl (PeerUnavailableError (''peer at '' @ gw_url gw @ '' rejected the call: '' @ text e)))"
  by (simp add: turn_ack_def calls_find_their_tools [OF assms] seen_by_caller_def split: sum.splits)

end
