(* ===== verification/Scripts.thy ===== *)
theory Scripts
  imports ReplayClaims LiveGui
begin

text \<open>
  Three development scripts: the commitment of a test vector (\<^verbatim>\<open>scripts/print_commitment_vector.py\<close>), the small bundle of
  artifacts made for the verifier of both sides (\<^verbatim>\<open>scripts/gen_bilateral_bundle.py\<close>) and the check of the lengths of the
  sources (\<^verbatim>\<open>scripts/check_file_lengths.py\<close>).
\<close>

section \<open>The commitment of a vector\<close>

text \<open>The bytes of a text of HOL's characters in UTF-8, and their hexadecimal digits.\<close>

definition utf8_char :: "char \<Rightarrow> nat list" where
  "utf8_char c = (let n = of_char c in if n < 128 then [n] else [192 + n div 64, 128 + n mod 64])"

definition utf8 :: "string \<Rightarrow> nat list" where
  "utf8 s = concat (map utf8_char s)"

definition bytes_hex :: "nat list \<Rightarrow> string" where
  "bytes_hex bs = concat (map (\<lambda>b. [hex_digit (b div 16), hex_digit b]) bs)"

text \<open>The fields of the dataclass, and those with a default.\<close>

definition PAYLOAD_FIELDS :: "string list" where
  "PAYLOAD_FIELDS =
     [''step'', ''role'', ''sub_game_number'', ''position'', ''move'', ''intent'', ''hint'', ''scent_digest'', ''scent_grid'',
      ''timestamp'', ''nonce'', ''config_sha256'']"

definition PAYLOAD_OPTIONAL :: "(string \<times> json) list" where
  "PAYLOAD_OPTIONAL =
     [(''barrier_placed'', JNull), (''capture_claim'', JNull), (''claim_response'', JNull), (''win_claim'', JBool False),
      (''schema_version'', JStr CURRENT_SCHEMA_VERSION), (''legacy_state'', JNull)]"

definition tuple_field :: "jobj \<Rightarrow> string \<Rightarrow> jobj res" where
  "tuple_field kwargs key =
     (if is_null (jget kwargs key JNull) then Inr kwargs
      else rbind (py_tuple (jget kwargs key JNull)) (\<lambda>xs. Inr (AList.update key (JList xs) kwargs)))"

definition tuple_grid :: "jobj \<Rightarrow> jobj res" where
  "tuple_grid kwargs =
     (if \<not> jhas kwargs ''scent_grid'' then Inr kwargs
      else rbind (py_tuple (jget kwargs ''scent_grid'' JNull)) (\<lambda>rows.
           rbind (traverse py_tuple rows) (\<lambda>grid.
             Inr (AList.update ''scent_grid'' (JList (map JList grid)) kwargs))))"

fun items :: "json \<Rightarrow> json list" where
  "items (JList xs) = xs"
| "items _ = []"

definition some_items :: "json \<Rightarrow> json list option" where
  "some_items v = (if is_null v then None else Some (items v))"

text \<open>\<^verbatim>\<open>SealedTurnPayload(**kwargs)\<close>. A null position is not iterable: the canonical dict raises on it at once.\<close>

definition vector_payload :: "jobj \<Rightarrow> raw_payload res" where
  "vector_payload vector =
     rbind (rfold tuple_field vector [''position'', ''barrier_placed'', ''capture_claim'']) (\<lambda>k1.
     rbind (tuple_grid k1) (\<lambda>k2.
     rbind (construct PAYLOAD_FIELDS PAYLOAD_OPTIONAL k2) (\<lambda>p.
     if is_null (attr p ''position'') then Inl TypeError
     else Inr \<lparr>rw_step = attr p ''step'', rw_role = attr p ''role'', rw_sub_game_number = attr p ''sub_game_number'',
            rw_position = items (attr p ''position''), rw_move = attr p ''move'', rw_intent = attr p ''intent'',
            rw_hint = attr p ''hint'', rw_scent_digest = attr p ''scent_digest'',
            rw_scent_grid = map items (items (attr p ''scent_grid'')), rw_timestamp = attr p ''timestamp'',
            rw_nonce = attr p ''nonce'', rw_config_sha256 = attr p ''config_sha256'',
            rw_barrier_placed = some_items (attr p ''barrier_placed''),
            rw_capture_claim = some_items (attr p ''capture_claim''),
            rw_claim_response = attr p ''claim_response'', rw_win_claim = attr p ''win_claim'',
            rw_schema_version = attr p ''schema_version'', rw_legacy_state = attr p ''legacy_state''\<rparr>)))"

definition commitment_vector ::
    "digest \<Rightarrow> (pyfloat \<Rightarrow> string) \<Rightarrow> (json \<Rightarrow> string) \<Rightarrow> jobj \<Rightarrow> jobj res" where
  "commitment_vector H fr rp vector =
     rbind (vector_payload vector) (\<lambda>p. rbind (raw_canonical_dict rp p) (\<lambda>d.
       Inr [(''canonical_json_hex'', JStr (bytes_hex (utf8 (canonical_json fr (JObj d))))),
            (''sha256'', JStr (H (JObj d)))]))"

text \<open>
  The keys of a vector are those of a sealed record: the canonical dict of any current payload, given to the script, yields
  the commitment the runtime publishes for it.
\<close>

lemma vector_of_payload:
  assumes "p_schema_version p = CURRENT_SCHEMA_VERSION"
  shows "vector_payload (to_canonical_dict p) = Inr (raw_of p)"
  using assms current_not_legacy
  by (cases "p_barrier_placed p"; cases "p_capture_claim p")
    (simp_all add: vector_payload_def to_canonical_dict_def tuple_field_def tuple_grid_def cell_json_def opt_json_def
      construct_def PAYLOAD_FIELDS_def PAYLOAD_OPTIONAL_def attr_def raw_of_def grid_json_def traverse_tuples some_items_def)

lemma vector_commitment:
  assumes "p_schema_version p = CURRENT_SCHEMA_VERSION"
  shows "commitment_vector H fr rp (to_canonical_dict p) =
    Inr [(''canonical_json_hex'', JStr (bytes_hex (utf8 (canonical_json fr (JObj (to_canonical_dict p)))))),
         (''sha256'', JStr (commit_hash H p))]"
  using raw_canonical [of "seal H p"] assms
  by (simp add: commitment_vector_def vector_of_payload current_def seal_def commit_hash_def)

section \<open>The bundle\<close>

definition BUNDLE_UID :: string where
  "BUNDLE_UID = ''bilateral-0000-1111-2222-333344445555''"

definition BUNDLE_GID :: string where
  "BUNDLE_GID = ''batch4b-bilateral''"

definition N_GAMES :: nat where "N_GAMES = 2"

definition STEPS :: nat where "STEPS = 3"

definition bundle_payload :: "string \<Rightarrow> nat \<Rightarrow> nat \<Rightarrow> payload" where
  "bundle_payload csha sub_game step =
     \<lparr>p_step = int step, p_role = ''thief'', p_sub_game_number = int sub_game, p_position = (int step, 1),
      p_move = Some ''E'', p_intent = ''truth'', p_hint = ''east corridor'', p_scent_digest = replicate 8 (CHR ''b''),
      p_scent_grid = [[0, 0], [0, 0]], p_timestamp = ''2026-07-22T00:00:00+00:00'',
      p_nonce = ''thief-'' @ str_of_nat sub_game @ ''-'' @ str_of_nat step @ ''-fixed-nonce'',
      p_config_sha256 = csha, p_barrier_placed = None, p_capture_claim = None,
      p_claim_response = (if step = STEPS - 1 then Some True else None), p_win_claim = False,
      p_schema_version = CURRENT_SCHEMA_VERSION, p_legacy_state = None\<rparr>"

definition bundle_records :: "digest \<Rightarrow> string \<Rightarrow> nat \<Rightarrow> sealed_record list" where
  "bundle_records H csha n = map (\<lambda>s. seal H (bundle_payload csha n s)) [0 ..< STEPS]"

definition bundle_config :: "string \<Rightarrow> jobj \<Rightarrow> nat \<Rightarrow> config_artifact" where
  "bundle_config csha terms n = build_config_artifact BUNDLE_UID BUNDLE_GID n csha terms"

definition bundle_log :: "digest \<Rightarrow> string \<Rightarrow> nat \<Rightarrow> log_artifact" where
  "bundle_log H csha n =
     build_log_artifact BUNDLE_UID BUNDLE_GID n (bundle_records H csha n)
       \<lparr>ar_outcome = VERIFIED, ar_mismatched_steps = [], ar_reused_nonces = [], ar_reason = ''ok''\<rparr>"

definition bundle_entry :: "nat \<Rightarrow> json" where
  "bundle_entry n =
     JObj [(''sub_game_number'', JInt (int n)), (''result'', JStr ''capture''), (''winner'', JStr ''police''),
           (''police_score'', JInt 20), (''thief_score'', JInt 5), (''steps'', JInt (int STEPS)), (''audit_ok'', JBool True)]"

definition bundle_result :: "string \<Rightarrow> result_artifact" where
  "bundle_result csha =
     \<lparr>ra_game_uid = BUNDLE_UID, ra_game_id = BUNDLE_GID, ra_git_commit = ''deadbeef'', ra_group_id = JStr BUNDLE_GID,
      ra_config_sha256 = csha, ra_sub_games = map bundle_entry [1 ..< N_GAMES + 1],
      ra_police_total = 20 * int N_GAMES, ra_thief_total = 5 * int N_GAMES,
      ra_agreement_status = ''agreed'', ra_agreed = True\<rparr>"

definition bundle_declaration :: jobj where
  "bundle_declaration =
     [(''schema_version'', JStr ''declaration/1''), (''game_uid'', JStr BUNDLE_UID), (''game_id'', JStr BUNDLE_GID),
      (''role'', JStr ''thief'')]"

fun write_bundle_games ::
    "digest \<Rightarrow> (json \<Rightarrow> string) \<Rightarrow> string \<Rightarrow> jobj \<Rightarrow> nat list \<Rightarrow> (directory, unit) eff" where
  "write_bundle_games H dumps csha terms [] = eret ()"
| "write_bundle_games H dumps csha terms (n # ns) =
     (let c = bundle_config csha terms n; l = bundle_log H csha n in
      ebind (save_artifact dumps (config_validate c) (config_to_dict c) (config_filename BUNDLE_GID n)) (\<lambda>_.
      ebind (save_artifact dumps (log_validate l) (log_to_dict l) (log_filename BUNDLE_GID n)) (\<lambda>_.
        write_bundle_games H dumps csha terms ns)))"

text \<open>The declaration is written without the scan. \<open>csha\<close> and \<open>terms\<close> are the digest and the content of the shared configuration.\<close>

definition write_bundle :: "digest \<Rightarrow> (json \<Rightarrow> string) \<Rightarrow> string \<Rightarrow> jobj \<Rightarrow> (directory, int) eff" where
  "write_bundle H dumps csha terms =
     ebind (write_bundle_games H dumps csha terms [1 ..< N_GAMES + 1]) (\<lambda>_.
     ebind (save_artifact dumps (result_validate (bundle_result csha)) (result_to_dict (bundle_result csha))
              (result_filename BUNDLE_GID)) (\<lambda>_.
     ebind (emodify (AList.update (''declaration_'' @ BUNDLE_GID @ ''.json'') (Inr (JObj bundle_declaration)))) (\<lambda>_.
       eret 0)))"

text \<open>The bundle as a series: what the script writes are the artifacts of two captured games.\<close>

definition bundle_run :: "digest \<Rightarrow> string \<Rightarrow> nat \<Rightarrow> run_result" where
  "bundle_run H csha n =
     \<lparr>rr_result = CAPTURE, rr_steps_taken = STEPS, rr_reason = [], rr_records = bundle_records H csha n, rr_audit = None,
      rr_police_score = 20, rr_thief_score = 5\<rparr>"

definition bundle_game :: "digest \<Rightarrow> string \<Rightarrow> nat \<Rightarrow> sub_game_record \<times> run_result" where
  "bundle_game H csha n =
     (\<lparr>sg_number = n, sg_result = CAPTURE, sg_police_score = 20, sg_thief_score = 5, sg_steps_taken = STEPS,
       sg_audit_verified = True\<rparr>, bundle_run H csha n)"

definition bundle_series :: "digest \<Rightarrow> string \<Rightarrow> series_result" where
  "bundle_series H csha =
     \<lparr>se_sub_games = map (fst \<circ> bundle_game H csha) [1, 2], se_police_total = 40, se_thief_total = 10,
      se_terminated_reason = ''completed'', se_final_state = SERIES_COMPLETE,
      se_run_results = map (bundle_run H csha) [1, 2], se_agreed = True, se_agreement_status = ''agreed''\<rparr>"

definition bundle_log_entry :: "sub_game_record \<times> run_result \<Rightarrow> jobj" where
  "bundle_log_entry g =
     log_to_dict (build_log_artifact BUNDLE_UID BUNDLE_GID (sg_number (fst g)) (rr_records (snd g))
       \<lparr>ar_outcome = VERIFIED, ar_mismatched_steps = [], ar_reused_nonces = [], ar_reason = ''ok''\<rparr>)"

interpretation script_logs: game_logs BUNDLE_UID bundle_log_entry
  by unfold_locales (simp_all add: bundle_log_entry_def log_to_dict_def build_log_artifact_def)

lemma games_of_series:
  "zip (se_sub_games (bundle_series H csha)) (se_run_results (bundle_series H csha)) = map (bundle_game H csha) [1, 2]"
  by (simp add: bundle_series_def bundle_game_def)

lemma bundle_artifacts:
  "config_to_dict (bundle_config csha terms n) = config_entry BUNDLE_UID BUNDLE_GID csha terms (bundle_game H csha n)"
  "log_to_dict (bundle_log H csha n) = bundle_log_entry (bundle_game H csha n)"
  "result_to_dict (bundle_result csha) =
     result_of BUNDLE_UID BUNDLE_GID ''deadbeef'' (JStr BUNDLE_GID) csha (bundle_series H csha)"
  by (simp_all add: bundle_config_def bundle_log_def bundle_log_entry_def bundle_game_def bundle_run_def config_entry_def
      result_of_def bundle_result_def build_result_artifact_def bundle_series_def bundle_entry_def result_entry_def N_GAMES_def
      numeral_2_eq_2)

lemma write_bundle_dir:
  assumes "write_bundle H dumps csha terms [] = (dir, Inr code)"
  shows "mset dir = mset (files_of BUNDLE_GID bundle_declaration (result_to_dict (bundle_result csha)) (sg_number \<circ> fst)
    (config_entry BUNDLE_UID BUNDLE_GID csha terms) bundle_log_entry (map (bundle_game H csha) [1, 2]))"
proof -
  let ?c = "\<lambda>n. artifact_file (config_filename BUNDLE_GID n) (config_to_dict (bundle_config csha terms n))"
  let ?l = "\<lambda>n. artifact_file (log_filename BUNDLE_GID n) (log_to_dict (bundle_log H csha n))"
  let ?r = "artifact_file (result_filename BUNDLE_GID) (result_to_dict (bundle_result csha))"
  have games: "[1 ..< N_GAMES + 1] = [1, 2]" by (simp add: N_GAMES_def upt_rec)
  obtain d1 d2 d3 d4 d5 p1 p2 p3 p4 p5 v1 v2 v3 v4 v5 where
    w: "save_artifact dumps v1 (config_to_dict (bundle_config csha terms 1)) (config_filename BUNDLE_GID 1) [] = (d1, Inr p1)"
      "save_artifact dumps v2 (log_to_dict (bundle_log H csha 1)) (log_filename BUNDLE_GID 1) d1 = (d2, Inr p2)"
      "save_artifact dumps v3 (config_to_dict (bundle_config csha terms 2)) (config_filename BUNDLE_GID 2) d2 = (d3, Inr p3)"
      "save_artifact dumps v4 (log_to_dict (bundle_log H csha 2)) (log_filename BUNDLE_GID 2) d3 = (d4, Inr p4)"
      "save_artifact dumps v5 (result_to_dict (bundle_result csha)) (result_filename BUNDLE_GID) d4 = (d5, Inr p5)"
    and dir: "dir = AList.update (declaration_filename BUNDLE_GID) (Inr (JObj bundle_declaration)) d5"
    using assms unfolding write_bundle_def games declaration_filename_def [symmetric]
    by (auto simp: ebind_def eret_def emodify_def Let_def split: prod.splits sum.splits)
  have d1: "d1 = [?c 1]" using save_Inr [OF w(1)] by simp
  have d2: "d2 = [?c 1, ?l 1]" using save_Inr [OF w(2)] by (simp add: d1 artifact_file_def)
  have d3: "d3 = [?c 1, ?l 1, ?c 2]" using save_Inr [OF w(3)] by (simp add: d2 artifact_file_def)
  have d4: "d4 = [?c 1, ?l 1, ?c 2, ?l 2]" using save_Inr [OF w(4)] by (simp add: d3 artifact_file_def)
  have d5: "d5 = [?c 1, ?l 1, ?c 2, ?l 2, ?r]" using save_Inr [OF w(5)] by (simp add: d4 artifact_file_def)
  have "dir = [?c 1, ?l 1, ?c 2, ?l 2, ?r, artifact_file (declaration_filename BUNDLE_GID) bundle_declaration]"
    using filename_kinds [of BUNDLE_GID] by (simp add: dir d5 artifact_file_def)
  then show ?thesis
    by (simp add: files_of_def bundle_artifacts(1) [of csha terms _ H] bundle_artifacts(2)) (simp add: bundle_game_def)
qed

lemma bundle_sound:
  assumes "same_scoring sc scoring" and "capture_cop scoring = 20" and "capture_thief scoring = 5"
  shows "sound_game H sc (bundle_game H csha n)"
proof -
  have "records_ok H (int n) (bundle_records H csha n)"
    by (simp add: records_ok_def bundle_records_def record_ok_def seal_def bundle_payload_def recompute_matches_def)
  moreover have "distinct (nonces (bundle_records H csha n))"
    by (simp add: nonces_def bundle_records_def seal_def bundle_payload_def STEPS_def upt_rec str_of_nat.simps)
  moreover have "(20, 5) = score_sub_game CAPTURE scoring False"
    using assms(2,3) by (simp add: score_sub_game_def)
  ultimately show ?thesis
    using assms(1) by (auto simp: sound_game_def bundle_game_def bundle_run_def bundle_records_def)
qed

text \<open>
  The script keeps its promise: the bundle it writes under terms with the binding scores of a capture verifies.
\<close>

lemma bundle_verifies:
  assumes "write_bundle H dumps csha terms [] = (dir, Inr code)" and "usable_terms terms sc"
    and "same_scoring sc scoring" and "capture_cop scoring = 20" and "capture_thief scoring = 5" and "\<forall>x. ascii_text (H x)"
  shows "verify_replay H rp dir = Inr []"
proof -
  let ?se = "bundle_series H csha" and ?gs = "map (bundle_game H csha) [1, 2]"
  obtain gs1 gs2 where perm: "mset gs1 = mset ?gs" "mset gs2 = mset ?gs"
    and load: "load_bundle dir = Inr \<lparr>rb_declaration = Some bundle_declaration,
      rb_configs = map (config_entry BUNDLE_UID BUNDLE_GID csha terms) gs1, rb_logs = map bundle_log_entry gs2,
      rb_result = Some (result_of BUNDLE_UID BUNDLE_GID ''deadbeef'' (JStr BUNDLE_GID) csha ?se)\<rparr>"
    by (rule bundle_of_files [OF write_bundle_dir [OF assms(1)]]) (simp add: bundle_artifacts(3) [of _ H])
  have "honest_totals ?se" by (simp add: honest_totals_def bundle_series_def bundle_game_def)
  moreover have "jget bundle_declaration ''game_uid'' JNull = JStr BUNDLE_UID" by (simp add: bundle_declaration_def)
  moreover have "distinct (map (sg_number \<circ> fst) ?gs)" by (simp add: bundle_game_def)
  moreover have "\<forall>g \<in> set ?gs. sound_game H sc g" using bundle_sound [OF assms(3-5)] by auto
  moreover have "length (se_sub_games ?se) = length (se_run_results ?se)" by (simp add: bundle_series_def)
  ultimately have "verify_bundle H rp \<lparr>rb_declaration = Some bundle_declaration,
      rb_configs = map (config_entry BUNDLE_UID BUNDLE_GID csha terms) gs1, rb_logs = map bundle_log_entry gs2,
      rb_result = Some (result_of BUNDLE_UID BUNDLE_GID ''deadbeef'' (JStr BUNDLE_GID) csha ?se)\<rparr> = Inr []"
    by (intro script_logs.verify_written [OF refl games_of_series [symmetric] _ perm _ _ _ assms(2) _ assms(6)]) simp_all
  then show ?thesis by (simp add: verify_replay_def load)
qed

section \<open>The lengths of the sources\<close>

text \<open>\<^verbatim>\<open>str.splitlines\<close> on HOL's characters: a carriage return and a line feed are one end of line.\<close>

definition is_line_break :: "char \<Rightarrow> bool" where
  "is_line_break c \<longleftrightarrow>
     c \<in> set [CHR 0x0A, CHR 0x0B, CHR 0x0C, CHR 0x0D, CHR 0x1C, CHR 0x1D, CHR 0x1E, CHR 0x85]"

function lines_from :: "string \<Rightarrow> string \<Rightarrow> string list" where
  "lines_from w [] = (if w = [] then [] else [w])"
| "lines_from w (c # s) =
     (if c = CHR 0x0D \<and> take 1 s = [CHR 0x0A] then w # lines_from [] (drop 1 s)
      else if is_line_break c then w # lines_from [] s
      else lines_from (w @ [c]) s)"
  by pat_completeness auto
termination by (relation "measure (\<lambda>(w, s). length s)") auto

definition meaningful_line_count :: "string \<Rightarrow> nat" where
  "meaningful_line_count txt =
     length (filter (\<lambda>line. let stripped = strip line in stripped \<noteq> [] \<and> take 1 stripped \<noteq> ''#'') (lines_from [] txt))"

definition LENGTH_LIMIT :: nat where "LENGTH_LIMIT = 150"

text \<open>The files in the order of their paths, each with its text.\<close>

definition length_violations :: "(string \<times> string) list \<Rightarrow> (string \<times> nat) list" where
  "length_violations files =
     filter (\<lambda>(_, n). LENGTH_LIMIT < n) (map (\<lambda>(path, txt). (path, meaningful_line_count txt)) files)"

definition check_lengths_exit :: "(string \<times> string) list \<Rightarrow> int" where
  "check_lengths_exit files = (if length_violations files \<noteq> [] then 1 else 0)"

lemma check_lengths_exit_zero:
  "check_lengths_exit files = 0 \<longleftrightarrow> (\<forall>(path, txt) \<in> set files. meaningful_line_count txt \<le> 150)"
  by (force simp: check_lengths_exit_def length_violations_def LENGTH_LIMIT_def filter_empty_conv)

text \<open>Ends of lines of every kind count, blank lines and comments do not.\<close>

lemma meaningful_lines_example:
  "meaningful_line_count (''x = 1'' @ [CHR 0x0D, CHR 0x0A, CHR 0x0A] @ '' # note'' @ [CHR 0x0A] @ ''y'') = 2"
  by (simp add: meaningful_line_count_def is_line_break_def strip_def is_space_def Let_def)

end
