(* ===== verification/Spec2Isabelle.thy ===== *)
theory Spec2Isabelle
  imports Hints StateMachine Timing Sealing Strategy Config RateLimit Inbox Router GuiModel
    Turn TurnProps TurnClaims SubGame SubGameProps SubGameClaims Agreement AgreementClaims Client Server
    Replay Artifacts ReplayProps ReplayClaims PrivateConfig Declaration DeclarationClaims Program ProgramClaims
    Report ReportClaims ReplayView ReplayViewClaims LiveGui Negotiation NegotiationClaims Commands StrategyLoader Messages
    Trace ArtifactParsing Records Wire Calls Scripts
begin

text \<open>
  A verification of the thief peer of a two-player police-and-thief game (\<^verbatim>\<open>src/thief_peer\<close>). Two
  independent programs, the police and the thief, play sub-games on an n by n board over HTTP. Neither sees
  where the other is: every turn a peer commits to its sealed move, waits for the acknowledgment, reveals
  the public part, and learns from the scent field and the (possibly lying) hint of the other. After each
  sub-game the sealed records are audited, and after the series the peers compare totals and a digest of
  every game. The development models the thief's program from its board rules up to its exit code.

  \<^bold>\<open>Theories and sources\<close>

  \<^item> \<^verbatim>\<open>Prelude\<close>: the Python exceptions as \<open>py_exc\<close>, results \<open>'a res\<close>, state threading \<open>('s, 'a) eff\<close>
    in which an exception keeps the writes made before it, grids, and two locales for components: an
    invariant kept by every operation, and a log that only grows.
  \<^item> \<^verbatim>\<open>PyJson\<close>, \<^verbatim>\<open>Canonical\<close>: JSON values with Python's truthiness, equality and comparison, and their
    canonical text (\<^verbatim>\<open>shared/canonical_json.py\<close>).
  \<^item> \<^verbatim>\<open>Geometry\<close>, \<^verbatim>\<open>Scent\<close>, \<^verbatim>\<open>Belief\<close>, \<^verbatim>\<open>Hints\<close>: board, moves and barriers, the scent field and its
    validation, the Bayesian update of the opponent's position, the hints (\<^verbatim>\<open>domain/\<close>).
  \<^item> \<^verbatim>\<open>StateMachine\<close>, \<^verbatim>\<open>Timing\<close>: the lifecycle with its transition table and log, deadlines and the watchdog.
  \<^item> \<^verbatim>\<open>Sealing\<close>: payload, commitment, the order of commit, acknowledge and reveal, the audit
    (\<^verbatim>\<open>domain/sealing/\<close>).
  \<^item> \<^verbatim>\<open>Strategy\<close>: the two brains (\<^verbatim>\<open>strategy/\<close>), as instances of a locale for a brain that picks from a list.
  \<^item> \<^verbatim>\<open>Config\<close>: loading and validating the shared configuration, the scores (\<^verbatim>\<open>shared/\<close>).
  \<^item> \<^verbatim>\<open>RateLimit\<close>, \<^verbatim>\<open>Client\<close>, \<^verbatim>\<open>Server\<close>, \<^verbatim>\<open>Inbox\<close>, \<^verbatim>\<open>Router\<close>: the network side (\<^verbatim>\<open>infrastructure/\<close>,
    \<^verbatim>\<open>services/gateway.py\<close>): sliding windows, the retried call, the token gate and the staged stop, the bounded
    inbox with its poll, and the router that checks every incoming message. \<^verbatim>\<open>Calls\<close> holds the named calls of the client
    and the gateway over them, against the tools both servers register under those names.
  \<^item> \<^verbatim>\<open>GuiModel\<close>: the events the game publishes and the view folded from them.
  \<^item> \<^verbatim>\<open>EffectLogic\<close>, \<^verbatim>\<open>Turn\<close>, \<^verbatim>\<open>TurnProps\<close>, \<^verbatim>\<open>TurnClaims\<close>: one turn (\<^verbatim>\<open>services/turn_loop.py\<close> and the files it
    calls) as one effectful function of the sub-game state, and a small Hoare logic in which each stage of
    the turn has one rule. \<^verbatim>\<open>Wire\<close> joins the turn with the gateway, the inbox and the router behind it.
  \<^item> \<^verbatim>\<open>SubGame\<close>, \<^verbatim>\<open>SubGameProps\<close>, \<^verbatim>\<open>SubGameClaims\<close>: one sub-game and the series on one lifecycle machine.
  \<^item> \<^verbatim>\<open>Agreement\<close>, \<^verbatim>\<open>AgreementClaims\<close>: the closing exchange, the identity of a game, the exit code.
  \<^item> \<^verbatim>\<open>Artifacts\<close>, \<^verbatim>\<open>ArtifactParsing\<close>, \<^verbatim>\<open>Replay\<close>, \<^verbatim>\<open>ReplayProps\<close>, \<^verbatim>\<open>ReplayClaims\<close>: the files published for a
    series, their parsing, and the offline verifier that reads them back (\<^verbatim>\<open>services/artifact*.py\<close>,
    \<^verbatim>\<open>series_artifacts.py\<close>, \<^verbatim>\<open>replay_*.py\<close>, \<^verbatim>\<open>bilateral_verify.py\<close>).
  \<^item> \<^verbatim>\<open>PyConv\<close>, \<^verbatim>\<open>PrivateConfig\<close>, \<^verbatim>\<open>StrategyLoader\<close>, \<^verbatim>\<open>Declaration\<close>, \<^verbatim>\<open>DeclarationClaims\<close>: Python's conversions of
    untyped values, the private configuration (\<^verbatim>\<open>shared/private_config.py\<close>), the choice of the brain
    (\<^verbatim>\<open>strategy/loader.py\<close>), and the declaration of a peer with its hardware probes (\<^verbatim>\<open>domain/declaration*.py\<close>,
    \<^verbatim>\<open>hardware.py\<close>).
  \<^item> \<^verbatim>\<open>Program\<close>, \<^verbatim>\<open>ProgramClaims\<close>: the headless programs from their files to the exit code (\<^verbatim>\<open>sdk/game_runner.py\<close>,
    \<^verbatim>\<open>subgame_runner.py\<close>, \<^verbatim>\<open>negotiate_push.py\<close>, \<^verbatim>\<open>cli_runners.py\<close>).
  \<^item> \<^verbatim>\<open>Report\<close>, \<^verbatim>\<open>ReportClaims\<close>: the mailed report (\<^verbatim>\<open>sdk/report_runner.py\<close>, \<^verbatim>\<open>domain/gmail_report_schema.py\<close>,
    \<^verbatim>\<open>infrastructure/gmail_sender.py\<close>).
  \<^item> \<^verbatim>\<open>ReplayView\<close>, \<^verbatim>\<open>ReplayViewClaims\<close>, \<^verbatim>\<open>LiveGui\<close>: the replay viewer and the live window without their widgets
    (\<^verbatim>\<open>gui/\<close>, \<^verbatim>\<open>sdk/gui_runner.py\<close>).
  \<^item> \<^verbatim>\<open>Negotiation\<close>, \<^verbatim>\<open>NegotiationClaims\<close>: the negotiation smoke test and its server (\<^verbatim>\<open>infrastructure/mcp_server.py\<close>,
    \<^verbatim>\<open>sdk/negotiation_runner.py\<close>).
  \<^item> \<^verbatim>\<open>Commands\<close>: the commands and their exit codes (\<^verbatim>\<open>__main__.py\<close>, \<^verbatim>\<open>cli_*.py\<close>).
  \<^item> \<^verbatim>\<open>Scripts\<close>: the development scripts (\<^verbatim>\<open>scripts/\<close>), with a proof that the generated bundle verifies.
  \<^item> \<^verbatim>\<open>Messages\<close>, \<^verbatim>\<open>Trace\<close>, \<^verbatim>\<open>Records\<close>: the typed messages (\<^verbatim>\<open>protocol/\<close>), the optional trace of a turn
    (\<^verbatim>\<open>services/turn_trace.py\<close>), and records of \<^verbatim>\<open>domain/\<close> the game does not use.

  \<^bold>\<open>How the parts interact\<close>

  The series threads one lifecycle machine through its sub-games. A sub-game state holds the thief's position,
  board, belief, scent field, the exchange, the sealed records and the published events. A turn begins
  (lifecycle, decay of the own scent), decides (brain and hint), seals, commits and reveals
  through the gateway, absorbs the evidence of the opponent's reveal, resolves a capture claim
  and moves. The server of the peer runs beside it: the router checks structure, binding, lifecycle and order of each
  message and puts it in an inbox that the gateway and the closing exchange poll. After the closing exchange the program
  writes its artifacts, and the verifier rebuilds every sealed record from them. Around this stand the programs: the private
  configuration names the brain and the port, the server is started before the games and stopped after the closing exchange, the
  declaration is published with the artifacts, the mailed report is built only from files that verify, and the viewer
  shows both sides with their verdicts. The live window folds the events the game publishes.

  \<^bold>\<open>What the lemmas show\<close>

  The component theories prove an invariant of each state kept by every operation, the exact verdict of
  the validators and of the audit, and bounds. \<^verbatim>\<open>TurnProps\<close> proves an invariant that joins knowledge, books and
  lifecycle, kept by every turn that does not end the game; \<^verbatim>\<open>SubGameProps\<close> carries it through the loops. The
  claims built on it: how a turn, a sub-game and a series can end, survival against a cooperative peer,
  what reaches the wire is accepted by the opponent's tracker, what a turn absorbs came from the opponent for this very step, both peers reach one verdict, an exit code of 0
  means an audited and confirmed series, the artifacts of a completed series verify, and what verifies is genuine. The
  theories of the programs carry this to the outside: a process that ends with 0 has published files that verify, a mail is
  only sent about such files, the viewer says so exactly of such files, and the claims about failures show where a start, a
  panel or a legacy label breaks what the documents promise.

  \<^bold>\<open>Parameters\<close>

  Code outside the repository and nondeterminism are arguments of the definitions: the digest \<open>H\<close> of a JSON
  value, SHA-256 of a text, the \<^verbatim>\<open>repr\<close> of floats and containers, clock readings, random draws,
  nonces and timestamps, the transport's replies, the brain and the hint provider of a turn (its environment
  \<open>turn_env\<close>, a record of functions), the text \<open>dumps\<close> that is scanned for secrets, and what the server thread does to an inbox while
  the other thread sleeps, what a start, a poll or a bounded wait of the server sees, the platform, git and the modules that can
  be imported, and the digest of a file. Each claim that needs something of them states it; absence of a digest collision is
  assumed only for the two texts compared.

  \<^bold>\<open>Bounds and fuel\<close>

  The loop over turns runs at most the threshold plus one turn, the code's own cap; \<open>sub_game_outcomes\<close> shows
  that with this cap the game never ends because the turns ran out. Poll loops recurse on their budget of attempts, as in
  the code. The retry loop of a call is a \<^theory_text>\<open>function\<close> with a termination proof: an overloaded reply is retried only
  below the maximum. Waiting for the server to start may be endless and is a \<^theory_text>\<open>partial_function\<close>.

  \<^bold>\<open>Simplifications\<close>

  A finite float is an exact real, so rounding is not modelled, and \<^verbatim>\<open>round\<close> to eight digits in the belief event is
  a parameter. Characters are the 256 of HOL's \<^verbatim>\<open>char\<close>. A declared cell with coordinates that are not integers matches no
  board cell. Threads interleave only where the code awaits. A written artifact parses back to the value that was
  written.

  \<^bold>\<open>Not modelled\<close>

  The Tk widgets with their layout and the thread and signal plumbing around them, the argument parser, reading
  files and parsing their text, the MIME encoding and the mail service, the HTTP transport, and printing. They are input and
  output. A program whose configuration
  holds values outside the typed runtime of the games (a start cell that is not a pair of integers, say) has no result in the
  model.
\<close>

end
